theory Spec2Isabelle
  imports Complex_Main "HOL-Library.Product_Lexorder" "HOL-Library.Multiset"
begin

section \<open>JavaScript numbers\<close>

text \<open>
  The edge functions \<^verbatim>\<open>rank-queue/index.ts\<close> and \<^verbatim>\<open>get-recommendations/index.ts\<close>
  compute with JavaScript numbers, the binary64 values of IEEE 754. A number is
  modelled as the real that a finite double stands for, or one of \<^verbatim>\<open>Infinity\<close>,
  \<^verbatim>\<open>-Infinity\<close> and \<^verbatim>\<open>NaN\<close>. The two zeros are one value \<open>Fin 0\<close>: the code never
  divides by a zero that an operation produced with a negative sign, no comparison
  tells the zeros apart, and JSON writes both as \<^verbatim>\<open>0\<close>.
\<close>

datatype number = Fin real | PInf | NInf | NaN

text \<open>
  Rounding a real to the nearest double, ties to the even significand. A real of
  magnitude \<open>a\<close> with \<open>2\<^sup>E \<le> a < 2\<^sup>E\<^sup>+\<^sup>1\<close> lies between multiples of \<open>2\<^sup>e\<close> where
  \<open>e = max (-1074) (E - 52)\<close>: 53 bits of significand, and the subnormal spacing
  \<open>2\<^sup>-\<^sup>1\<^sup>0\<^sup>7\<^sup>4\<close> at the bottom. From \<open>(2\<^sup>5\<^sup>3 - 1/2) \<times> 2\<^sup>9\<^sup>7\<^sup>1\<close> on, half way between the
  largest double and \<open>2\<^sup>1\<^sup>0\<^sup>2\<^sup>4\<close>, the result is an infinity.
\<close>

definition round_half_even :: "real \<Rightarrow> int" where
  "round_half_even y =
     (let f = \<lfloor>y\<rfloor>; d = y - of_int f
      in if d < 1 / 2 then f else if 1 / 2 < d then f + 1 else if even f then f else f + 1)"

definition quantum_exponent :: "real \<Rightarrow> int" where
  "quantum_exponent a = max (- 1074) (\<lfloor>log 2 a\<rfloor> - 52)"

definition round_double :: "real \<Rightarrow> number" where
  "round_double x =
     (if x = 0 then Fin 0
      else if (2 ^ 53 - 1 / 2) * 2 ^ 971 \<le> \<bar>x\<bar> then (if 0 < x then PInf else NInf)
      else
        let e = quantum_exponent \<bar>x\<bar>;
            m = round_half_even (\<bar>x\<bar> / 2 powr of_int e)
        in Fin (sgn x * of_int m * 2 powr of_int e))"

text \<open>
  The reals that are doubles: \<open>m \<times> 2\<^sup>e\<close> with a significand below \<open>2\<^sup>5\<^sup>3\<close> and an exponent
  from \<open>-1074\<close> to \<open>971\<close>. All of them are multiples of \<open>2\<^sup>-\<^sup>1\<^sup>0\<^sup>7\<^sup>4\<close>.
\<close>

definition is_double :: "real \<Rightarrow> bool" where
  "is_double x \<longleftrightarrow>
     (\<exists>m e :: int. x = of_int m * 2 powr of_int e \<and> \<bar>m\<bar> < 2 ^ 53 \<and> - 1074 \<le> e \<and> e \<le> 971)"

definition on_grid :: "real \<Rightarrow> bool" where
  "on_grid x \<longleftrightarrow> (\<exists>k :: int. x = of_int k * 2 powr (- 1074))"

text \<open>
  The operators \<^verbatim>\<open>+\<close>, \<^verbatim>\<open>-\<close>, \<^verbatim>\<open>*\<close> and \<^verbatim>\<open>/\<close>: on finite operands the exact result,
  rounded; the special values follow IEEE 754 (\<^verbatim>\<open>0/0\<close> is \<^verbatim>\<open>NaN\<close>,
  \<^verbatim>\<open>Infinity - Infinity\<close> is \<^verbatim>\<open>NaN\<close>, \<^verbatim>\<open>Infinity * 0\<close> is \<^verbatim>\<open>NaN\<close>).
\<close>

fun js_add :: "number \<Rightarrow> number \<Rightarrow> number" where
  "js_add NaN y = NaN"
| "js_add x NaN = NaN"
| "js_add PInf NInf = NaN"
| "js_add NInf PInf = NaN"
| "js_add PInf y = PInf"
| "js_add x PInf = PInf"
| "js_add NInf y = NInf"
| "js_add x NInf = NInf"
| "js_add (Fin a) (Fin b) = round_double (a + b)"

fun js_sub :: "number \<Rightarrow> number \<Rightarrow> number" where
  "js_sub NaN y = NaN"
| "js_sub x NaN = NaN"
| "js_sub PInf PInf = NaN"
| "js_sub NInf NInf = NaN"
| "js_sub PInf y = PInf"
| "js_sub x NInf = PInf"
| "js_sub NInf y = NInf"
| "js_sub x PInf = NInf"
| "js_sub (Fin a) (Fin b) = round_double (a - b)"

fun js_mul :: "number \<Rightarrow> number \<Rightarrow> number" where
  "js_mul NaN y = NaN"
| "js_mul x NaN = NaN"
| "js_mul PInf PInf = PInf"
| "js_mul PInf NInf = NInf"
| "js_mul NInf PInf = NInf"
| "js_mul NInf NInf = PInf"
| "js_mul PInf (Fin b) = (if b = 0 then NaN else if 0 < b then PInf else NInf)"
| "js_mul NInf (Fin b) = (if b = 0 then NaN else if 0 < b then NInf else PInf)"
| "js_mul (Fin a) PInf = (if a = 0 then NaN else if 0 < a then PInf else NInf)"
| "js_mul (Fin a) NInf = (if a = 0 then NaN else if 0 < a then NInf else PInf)"
| "js_mul (Fin a) (Fin b) = round_double (a * b)"

fun js_div :: "number \<Rightarrow> number \<Rightarrow> number" where
  "js_div NaN y = NaN"
| "js_div x NaN = NaN"
| "js_div PInf PInf = NaN"
| "js_div PInf NInf = NaN"
| "js_div NInf PInf = NaN"
| "js_div NInf NInf = NaN"
| "js_div PInf (Fin b) = (if 0 \<le> b then PInf else NInf)"
| "js_div NInf (Fin b) = (if 0 \<le> b then NInf else PInf)"
| "js_div (Fin a) PInf = Fin 0"
| "js_div (Fin a) NInf = Fin 0"
| "js_div (Fin a) (Fin b) =
     (if b = 0 then (if a = 0 then NaN else if 0 < a then PInf else NInf)
      else round_double (a / b))"

text \<open>
  \<^verbatim>\<open>Math.pow(x, n)\<close> for a natural exponent \<open>n\<close> (the code only uses \<open>n = 2\<close>) and
  \<^verbatim>\<open>Math.sqrt\<close>. Both are taken as correctly rounded: IEEE 754 requires it of the square
  root; ECMAScript leaves the last bit of \<^verbatim>\<open>Math.pow\<close> to the engine, which returns the
  power itself when that is a double, an infinity when it is beyond the doubles and \<open>0\<close>
  when it is below them.
\<close>

fun Math_pow :: "number \<Rightarrow> nat \<Rightarrow> number" where
  "Math_pow (Fin a) n = round_double (a ^ n)"
| "Math_pow PInf n = (if n = 0 then Fin 1 else PInf)"
| "Math_pow NInf n = (if n = 0 then Fin 1 else if even n then PInf else NInf)"
| "Math_pow NaN n = (if n = 0 then Fin 1 else NaN)"

fun Math_sqrt :: "number \<Rightarrow> number" where
  "Math_sqrt (Fin a) = (if a < 0 then NaN else round_double (sqrt a))"
| "Math_sqrt PInf = PInf"
| "Math_sqrt NInf = NaN"
| "Math_sqrt NaN = NaN"

text \<open>\<^verbatim>\<open>x < y\<close> on numbers; every comparison with \<^verbatim>\<open>NaN\<close> is false.\<close>

fun js_lt :: "number \<Rightarrow> number \<Rightarrow> bool" where
  "js_lt NaN y = False"
| "js_lt x NaN = False"
| "js_lt x NInf = False"
| "js_lt NInf y = True"
| "js_lt PInf y = False"
| "js_lt x PInf = True"
| "js_lt (Fin a) (Fin b) = (a < b)"

text \<open>
  A value that a JavaScript number can have (a double or a special value), a finite one,
  and the real that a finite one stands for.
\<close>

fun is_number :: "number \<Rightarrow> bool" where
  "is_number (Fin a) = is_double a"
| "is_number x = True"

fun is_finite :: "number \<Rightarrow> bool" where
  "is_finite (Fin a) = is_double a"
| "is_finite x = False"

fun the_real :: "number \<Rightarrow> real" where
  "the_real (Fin a) = a"
| "the_real x = 0"

text \<open>
  A finite number of magnitude at most \<open>2\<^sup>k\<close>, and one that is not negative besides.
\<close>

fun fits :: "nat \<Rightarrow> number \<Rightarrow> bool" where
  "fits k (Fin a) = (\<bar>a\<bar> \<le> 2 ^ k)"
| "fits k x = False"

fun fits_up :: "nat \<Rightarrow> number \<Rightarrow> bool" where
  "fits_up k (Fin a) = (0 \<le> a \<and> a \<le> 2 ^ k)"
| "fits_up k x = False"


section \<open>Vibe model: centroid, weights, distance\<close>

text \<open>
  \<^verbatim>\<open>interface AudioFeatures { tempo; energy; danceability; valence }\<close>. The interface
  \<^verbatim>\<open>Weights\<close> has the same four fields, so it is the same structural type.
\<close>

record AudioFeatures =
  tempo :: number
  energy :: number
  danceability :: number
  valence :: number

type_synonym Weights = AudioFeatures

text \<open>
  \<^verbatim>\<open>computeCentroid\<close>: each field is \<^verbatim>\<open>features.reduce((sum, f) => sum + f.field, 0) / n\<close>
  with \<^verbatim>\<open>n = features.length\<close>. There is no check on \<open>n\<close>.
\<close>

definition computeCentroid :: "AudioFeatures list \<Rightarrow> AudioFeatures" where
  "computeCentroid features =
     (let n = Fin (real (length features)) in
      \<lparr> tempo = js_div (foldl (\<lambda>sum f. js_add sum (tempo f)) (Fin 0) features) n,
        energy = js_div (foldl (\<lambda>sum f. js_add sum (energy f)) (Fin 0) features) n,
        danceability = js_div (foldl (\<lambda>sum f. js_add sum (danceability f)) (Fin 0) features) n,
        valence = js_div (foldl (\<lambda>sum f. js_add sum (valence f)) (Fin 0) features) n \<rparr>)"

text \<open>
  \<^verbatim>\<open>computeDynamicWeights(features, epsilon = 1e-6)\<close>. The optional argument is
  \<open>None\<close> when the caller leaves it out, and then takes the default: the literal
  \<^verbatim>\<open>1e-6\<close> denotes the double nearest to \<open>1/1000000\<close>.
\<close>

definition default_epsilon :: number where
  "default_epsilon = round_double (1 / 1000000)"

definition computeDynamicWeights :: "AudioFeatures list \<Rightarrow> number option \<Rightarrow> Weights" where
  "computeDynamicWeights features eps =
     (let epsilon = (case eps of None \<Rightarrow> default_epsilon | Some e \<Rightarrow> e);
          n = length features
      in if n < 2 then
           \<lparr> tempo = Fin 1, energy = Fin 1, danceability = Fin 1, valence = Fin 1 \<rparr>
         else
           let mean = computeCentroid features;
               variance =
                 \<lparr> tempo = js_div (foldl (\<lambda>sum f. js_add sum
                             (Math_pow (js_sub (tempo f) (tempo mean)) 2)) (Fin 0) features)
                           (Fin (real n)),
                   energy = js_div (foldl (\<lambda>sum f. js_add sum
                             (Math_pow (js_sub (energy f) (energy mean)) 2)) (Fin 0) features)
                           (Fin (real n)),
                   danceability = js_div (foldl (\<lambda>sum f. js_add sum
                             (Math_pow (js_sub (danceability f) (danceability mean)) 2)) (Fin 0) features)
                           (Fin (real n)),
                   valence = js_div (foldl (\<lambda>sum f. js_add sum
                             (Math_pow (js_sub (valence f) (valence mean)) 2)) (Fin 0) features)
                           (Fin (real n)) \<rparr>
           in \<lparr> tempo = js_div (Fin 1) (js_add (tempo variance) epsilon),
                energy = js_div (Fin 1) (js_add (energy variance) epsilon),
                danceability = js_div (Fin 1) (js_add (danceability variance) epsilon),
                valence = js_div (Fin 1) (js_add (valence variance) epsilon) \<rparr>)"

text \<open>\<^verbatim>\<open>distance(song, centroid, weights)\<close>: the weighted Euclidean distance.\<close>

definition distance :: "AudioFeatures \<Rightarrow> AudioFeatures \<Rightarrow> Weights \<Rightarrow> number" where
  "distance song centroid weights =
     Math_sqrt
       (js_add
         (js_add
           (js_add
             (js_mul (tempo weights) (Math_pow (js_sub (tempo song) (tempo centroid)) 2))
             (js_mul (energy weights) (Math_pow (js_sub (energy song) (energy centroid)) 2)))
           (js_mul (danceability weights)
              (Math_pow (js_sub (danceability song) (danceability centroid)) 2)))
         (js_mul (valence weights) (Math_pow (js_sub (valence song) (valence centroid)) 2)))"

text \<open>
  A vector all of whose fields are JavaScript numbers, and one all of whose fields are
  finite, as the data model requires.
\<close>

definition number_features :: "AudioFeatures \<Rightarrow> bool" where
  "number_features f \<longleftrightarrow>
     is_number (tempo f) \<and> is_number (energy f) \<and> is_number (danceability f) \<and> is_number (valence f)"

definition finite_features :: "AudioFeatures \<Rightarrow> bool" where
  "finite_features f \<longleftrightarrow>
     is_finite (tempo f) \<and> is_finite (energy f) \<and> is_finite (danceability f) \<and> is_finite (valence f)"

text \<open>
  A vector of moderate size: every field is finite, of magnitude at most \<open>2\<^sup>4\<^sup>0\<^sup>0\<close>. (The
  data model's tempo is a number of beats per minute, its other fields lie between \<open>0\<close>
  and \<open>1\<close>.)
\<close>

definition moderate_features :: "AudioFeatures \<Rightarrow> bool" where
  "moderate_features f \<longleftrightarrow>
     fits 400 (tempo f) \<and> fits 400 (energy f) \<and> fits 400 (danceability f) \<and>
     fits 400 (valence f)"


section \<open>The store and the feature lookup\<close>

text \<open>
  A row of the table \<^verbatim>\<open>queue\<close>. The column \<^verbatim>\<open>id\<close> is named \<open>row_id\<close> here
  (\<open>id\<close> is the identity function of HOL). \<open>pos\<close> and \<open>played_at\<close> are nullable.
\<close>

record queue_row =
  row_id :: string
  session_id :: string
  spotify_uri :: string
  song_title :: string
  song_artist :: string
  pos :: "int option"
  status :: string
  played_at :: "nat option"

text \<open>
  A row of the table \<^verbatim>\<open>popular_songs\<close>: the four feature columns, \<^verbatim>\<open>id\<close> (here
  \<open>candidate_id\<close>), \<^verbatim>\<open>track_name\<close>, \<^verbatim>\<open>artists\<close> (may be null) and \<^verbatim>\<open>spotify_uri\<close> (here
  \<open>candidate_uri\<close>). The feature columns are read through
  \<^verbatim>\<open>parseFloat(String(column))\<close>; the row holds the number that this evaluates to.
\<close>

record popular_row = AudioFeatures +
  candidate_id :: string
  track_name :: string
  artists :: "string option"
  candidate_uri :: string

text \<open>What a supabase-js query resolves to: \<^verbatim>\<open>{ data, error }\<close>, \<open>error\<close> holding its message.\<close>

record 'a pg_response =
  data :: "'a option"
  error :: "string option"

text \<open>
  The entries of the two arrays that the functions sort: in \<^verbatim>\<open>rank-queue\<close> an entry
  of \<^verbatim>\<open>ranked\<close> (\<^verbatim>\<open>interface SongWithFeatures\<close>: the queue row, its features and its
  distance), in \<^verbatim>\<open>get-recommendations\<close> a \<^verbatim>\<open>RankedSong\<close> (the four features, \<^verbatim>\<open>id\<close>,
  \<^verbatim>\<open>track_name\<close>, \<^verbatim>\<open>artists\<close>, \<^verbatim>\<open>spotify_uri\<close> and \<^verbatim>\<open>distance\<close>).
\<close>

record SongWithFeatures =
  song :: queue_row
  song_features :: "AudioFeatures option"
  dist :: number

record RankedSong = AudioFeatures +
  ranked_id :: string
  ranked_track_name :: string
  ranked_artists :: string
  ranked_uri :: string
  ranked_distance :: number

text \<open>
  Everything outside the two functions: the environment variables, the two tables,
  whether each whole-table read fails (with which message), and what the two
  title lookups answer for a cleaned title (\<open>None\<close>: the call threw). Within one call a
  lookup answers the same for the same title. The last two fields are the JavaScript
  engine's: the order in which its \<^verbatim>\<open>Array.prototype.sort\<close> leaves an array of either
  kind when the comparison function is not a consistent one, which ECMAScript leaves to
  the implementation.
\<close>

record env =
  SUPABASE_URL :: "string option"
  SUPABASE_SERVICE_ROLE_KEY :: "string option"
  queue :: "queue_row list"
  popular_songs :: "popular_row list"
  queue_select_error :: "string option"
  played_select_error :: "string option"
  exclusion_select_error :: "string option"
  candidates_select_error :: "string option"
  get_song_features :: "string \<Rightarrow> AudioFeatures list pg_response option"
  popular_songs_ilike :: "string \<Rightarrow> AudioFeatures list pg_response option"
  engine_sort_ranked :: "SongWithFeatures list \<Rightarrow> SongWithFeatures list"
  engine_sort_recommendations :: "RankedSong list \<Rightarrow> RankedSong list"

text \<open>The parsed JSON body of a request, and whether the method is \<^verbatim>\<open>OPTIONS\<close>.\<close>

record request =
  method_is_OPTIONS :: bool
  req_session_id :: "string option"
  currently_playing_uri :: "string option"
  limit :: "int option"

text \<open>\<^verbatim>\<open>if (s)\<close> on an optional string: null, undefined and the empty string are falsy.\<close>

definition truthy :: "string option \<Rightarrow> bool" where
  "truthy s = (case s of None \<Rightarrow> False | Some v \<Rightarrow> v \<noteq> [])"

text \<open>
  \<^verbatim>\<open>toLowerCase()\<close> and \<^verbatim>\<open>trim()\<close>. The characters of a \<open>string\<close> are the code
  points \<open>0\<close> to \<open>255\<close>: the letters with a lower case there are \<open>A\<close> to \<open>Z\<close> and the
  code points \<open>192\<close> to \<open>222\<close> without \<open>215\<close>, each \<open>32\<close> below its lower case; the
  white space is the code points \<open>9\<close> to \<open>13\<close>, \<open>32\<close> and \<open>160\<close>.
\<close>

definition toLowerCase :: "string \<Rightarrow> string" where
  "toLowerCase s =
     map (\<lambda>c. if (65 \<le> (of_char c :: nat) \<and> (of_char c :: nat) \<le> 90) \<or>
                  (192 \<le> (of_char c :: nat) \<and> (of_char c :: nat) \<le> 222 \<and>
                   (of_char c :: nat) \<noteq> 215)
               then char_of ((of_char c :: nat) + 32) else c) s"

definition is_space :: "char \<Rightarrow> bool" where
  "is_space c \<longleftrightarrow>
     (of_char c :: nat) = 32 \<or> (of_char c :: nat) = 160 \<or>
     (9 \<le> (of_char c :: nat) \<and> (of_char c :: nat) \<le> 13)"

definition trim :: "string \<Rightarrow> string" where
  "trim s = rev (dropWhile is_space (rev (dropWhile is_space s)))"

text \<open>
  The body shared by \<^verbatim>\<open>getFeaturesFromDataset\<close> and \<^verbatim>\<open>getFeaturesFromPopularSongs\<close>
  once the query has answered: an exception, an error, a null or an empty result give
  null, otherwise the first row is returned.
\<close>

definition first_features :: "AudioFeatures list pg_response option \<Rightarrow> AudioFeatures option" where
  "first_features answer =
     (case answer of
        None \<Rightarrow> None
      | Some r \<Rightarrow>
          (case error r of
             Some e \<Rightarrow> None
           | None \<Rightarrow>
               (case data r of
                  None \<Rightarrow> None
                | Some [] \<Rightarrow> None
                | Some (row # rest) \<Rightarrow>
                    Some \<lparr> tempo = tempo row, energy = energy row,
                           danceability = danceability row, valence = valence row \<rparr>)))"

definition getFeaturesFromDataset :: "env \<Rightarrow> string \<Rightarrow> AudioFeatures option" where
  "getFeaturesFromDataset e songTitle =
     (let cleanTitle = trim (toLowerCase songTitle)
      in first_features (get_song_features e cleanTitle))"

definition getFeaturesFromPopularSongs :: "env \<Rightarrow> string \<Rightarrow> AudioFeatures option" where
  "getFeaturesFromPopularSongs e songTitle =
     (let cleanTitle = trim (toLowerCase songTitle)
      in first_features (popular_songs_ilike e cleanTitle))"

text \<open>A whole-table read: it fails with the environment's message, or answers the rows.\<close>

definition select_result :: "string option \<Rightarrow> 'a list \<Rightarrow> 'a list pg_response" where
  "select_result fault rows =
     (case fault of
        Some msg \<Rightarrow> \<lparr> data = None, error = Some msg \<rparr>
      | None \<Rightarrow> \<lparr> data = Some rows, error = None \<rparr>)"

text \<open>
  \<^verbatim>\<open>from("queue").select("*").eq("session_id", sid).eq("status", "queued")
  .not("pos", "is", null).order("pos", { ascending: true })\<close>
\<close>

definition pos_key :: "queue_row \<Rightarrow> int" where
  "pos_key r = (case pos r of None \<Rightarrow> 0 | Some p \<Rightarrow> p)"

definition queued_rows :: "env \<Rightarrow> string \<Rightarrow> queue_row list" where
  "queued_rows e sid =
     sort_key pos_key
       (filter (\<lambda>r. session_id r = sid \<and> status r = ''queued'' \<and> pos r \<noteq> None) (queue e))"

definition select_queued :: "env \<Rightarrow> string \<Rightarrow> queue_row list pg_response" where
  "select_queued e sid = select_result (queue_select_error e) (queued_rows e sid)"

text \<open>
  \<^verbatim>\<open>from("queue").select("spotify_uri, song_title").eq("session_id", sid)
  .eq("status", "played").order("played_at", { ascending: false }).limit(5)\<close>.
  In descending order the database puts rows with a null \<open>played_at\<close> first.
\<close>

definition played_key :: "queue_row \<Rightarrow> nat" where
  "played_key r = (case played_at r of None \<Rightarrow> 0 | Some t \<Rightarrow> t)"

definition played_rows :: "env \<Rightarrow> string \<Rightarrow> queue_row list" where
  "played_rows e sid =
     (let rows = filter (\<lambda>r. session_id r = sid \<and> status r = ''played'') (queue e)
      in take 5 (filter (\<lambda>r. played_at r = None) rows @
                 rev (sort_key played_key (filter (\<lambda>r. played_at r \<noteq> None) rows))))"

definition select_played :: "env \<Rightarrow> string \<Rightarrow> queue_row list pg_response" where
  "select_played e sid = select_result (played_select_error e) (played_rows e sid)"

text \<open>
  \<^verbatim>\<open>from("queue").select("spotify_uri").eq("session_id", sid)
  .in("status", ["queued", "played"])\<close>
\<close>

definition seen_rows :: "env \<Rightarrow> string \<Rightarrow> queue_row list" where
  "seen_rows e sid =
     filter (\<lambda>r. session_id r = sid \<and> (status r = ''queued'' \<or> status r = ''played''))
       (queue e)"

definition select_seen :: "env \<Rightarrow> string \<Rightarrow> queue_row list pg_response" where
  "select_seen e sid = select_result (exclusion_select_error e) (seen_rows e sid)"

text \<open>\<^verbatim>\<open>from("popular_songs").select("*").limit(1000)\<close>\<close>

definition select_candidates :: "env \<Rightarrow> popular_row list pg_response" where
  "select_candidates e =
     select_result (candidates_select_error e) (take 1000 (popular_songs e))"

text \<open>
  \<^verbatim>\<open>from("queue").update({ pos: p }).eq("id", i)\<close>. The code does not look at the
  result of an update; here every update takes effect, in the order of issue.
\<close>

definition update_pos :: "queue_row list \<Rightarrow> string \<times> int \<Rightarrow> queue_row list" where
  "update_pos rows u =
     map (\<lambda>r. if row_id r = fst u then r\<lparr> pos := Some (snd u) \<rparr> else r) rows"

section \<open>Responses\<close>

datatype 'j body = Text string | Json 'j

record 'j http_response =
  http_status :: nat
  body :: "'j body"

text \<open>The success report of \<^verbatim>\<open>rank-queue\<close>.\<close>

record ranking_report =
  ranked_count :: nat
  total_songs :: nat
  currently_playing_excluded :: bool
  songs_with_features :: nat
  songs_not_found :: nat
  not_found_songs :: "string list"
  reference_songs_used :: nat
  report_centroid :: AudioFeatures
  report_weights :: Weights

text \<open>
  The JSON bodies. Every body has the key \<^verbatim>\<open>success\<close>; \<^verbatim>\<open>message\<close> and \<^verbatim>\<open>error\<close>
  (here \<open>error_message\<close>) are \<open>None\<close> when the code leaves the key out, and so are the
  keys that each function adds.
\<close>

record reply_json =
  success :: bool
  message :: "string option"
  error_message :: "string option"

record rank_json = reply_json +
  report :: "ranking_report option"


section \<open>The function rank-queue\<close>

text \<open>
  What one call leaves behind: the response, the position updates it issued, in the
  order of \<^verbatim>\<open>updatePromises\<close>, and the table \<^verbatim>\<open>queue\<close> afterwards.
\<close>

record rank_result =
  response :: "rank_json http_response"
  updatePromises :: "(string \<times> int) list"
  queue_after :: "queue_row list"

text \<open>The \<^verbatim>\<open>catch\<close> block: status 500 with the message of the error thrown.\<close>

definition rank_failure :: "env \<Rightarrow> string \<Rightarrow> rank_result" where
  "rank_failure e msg =
     \<lparr> response = \<lparr> http_status = 500,
                     body = Json \<lparr> success = False, message = None,
                                   error_message = Some msg, report = None \<rparr> \<rparr>,
       updatePromises = [], queue_after = queue e \<rparr>"

text \<open>The early returns: status 200 with \<^verbatim>\<open>{ success, message }\<close>.\<close>

definition rank_message :: "env \<Rightarrow> bool \<Rightarrow> string \<Rightarrow> rank_result" where
  "rank_message e ok msg =
     \<lparr> response = \<lparr> http_status = 200,
                     body = Json \<lparr> success = ok, message = Some msg,
                                   error_message = None, report = None \<rparr> \<rparr>,
       updatePromises = [], queue_after = queue e \<rparr>"

text \<open>
  Step 2: \<^verbatim>\<open>findIndex\<close> takes the first row with the playing URI, \<^verbatim>\<open>filter\<close> removes
  every row with it.
\<close>

definition separate_playing ::
  "string option \<Rightarrow> queue_row list \<Rightarrow> queue_row option \<times> queue_row list" where
  "separate_playing playing allQueuedSongs =
     (if truthy playing then
        (case find (\<lambda>s. Some (spotify_uri s) = playing) allQueuedSongs of
           None \<Rightarrow> (None, allQueuedSongs)
         | Some playingSong \<Rightarrow>
             (Some playingSong, filter (\<lambda>s. Some (spotify_uri s) \<noteq> playing) allQueuedSongs))
      else (None, allQueuedSongs))"

text \<open>Steps 3 and 4: the features of the first \<^verbatim>\<open>Math.min(2, length - 1)\<close> songs that have any.\<close>

definition reference_features :: "env \<Rightarrow> queue_row list \<Rightarrow> AudioFeatures list" where
  "reference_features e songsToRank =
     (let referenceSongs = take (min 2 (length songsToRank - 1)) songsToRank
      in List.map_filter (\<lambda>s. getFeaturesFromDataset e (song_title s)) referenceSongs)"

text \<open>Steps 7 and 8, the body of the loop that fills \<^verbatim>\<open>ranked\<close>.\<close>

definition score :: "env \<Rightarrow> AudioFeatures \<Rightarrow> Weights \<Rightarrow> queue_row \<Rightarrow> SongWithFeatures" where
  "score e centroid weights s =
     (case getFeaturesFromDataset e (song_title s) of
        Some f \<Rightarrow> \<lparr> song = s, song_features = Some f, dist = distance f centroid weights \<rparr>
      | None \<Rightarrow> \<lparr> song = s, song_features = None, dist = PInf \<rparr>)"

text \<open>The comparison function given to \<^verbatim>\<open>ranked.sort\<close>.\<close>

definition compare_ranked :: "SongWithFeatures \<Rightarrow> SongWithFeatures \<Rightarrow> number" where
  "compare_ranked a b =
     (if dist a = PInf \<and> dist b = PInf then Fin 0
      else if dist a = PInf then Fin 1
      else if dist b = PInf then Fin (- 1)
      else js_sub (dist a) (dist b))"

text \<open>
  \<^verbatim>\<open>Array.prototype.sort\<close> with a comparison function. ECMAScript calls the function
  consistent for the values of the array when it never answers \<^verbatim>\<open>NaN\<close> and, reading a
  negative answer as less, zero as equal and a positive answer as greater, equal is
  reflexive, symmetric and transitive and less and greater are transitive.
\<close>

definition answers_less :: "('a \<Rightarrow> 'a \<Rightarrow> number) \<Rightarrow> 'a \<Rightarrow> 'a \<Rightarrow> bool" where
  "answers_less cmp a b \<longleftrightarrow> js_lt (cmp a b) (Fin 0)"

definition answers_greater :: "('a \<Rightarrow> 'a \<Rightarrow> number) \<Rightarrow> 'a \<Rightarrow> 'a \<Rightarrow> bool" where
  "answers_greater cmp a b \<longleftrightarrow> js_lt (Fin 0) (cmp a b)"

definition answers_equal :: "('a \<Rightarrow> 'a \<Rightarrow> number) \<Rightarrow> 'a \<Rightarrow> 'a \<Rightarrow> bool" where
  "answers_equal cmp a b \<longleftrightarrow> cmp a b = Fin 0"

definition consistent_comparator :: "('a \<Rightarrow> 'a \<Rightarrow> number) \<Rightarrow> 'a list \<Rightarrow> bool" where
  "consistent_comparator cmp xs \<longleftrightarrow>
     (\<forall>a\<in>set xs. \<forall>b\<in>set xs. cmp a b \<noteq> NaN) \<and>
     (\<forall>a\<in>set xs. answers_equal cmp a a) \<and>
     (\<forall>a\<in>set xs. \<forall>b\<in>set xs. answers_equal cmp a b \<longrightarrow> answers_equal cmp b a) \<and>
     (\<forall>a\<in>set xs. \<forall>b\<in>set xs. \<forall>c\<in>set xs.
        answers_equal cmp a b \<and> answers_equal cmp b c \<longrightarrow> answers_equal cmp a c) \<and>
     (\<forall>a\<in>set xs. \<forall>b\<in>set xs. \<forall>c\<in>set xs.
        answers_less cmp a b \<and> answers_less cmp b c \<longrightarrow> answers_less cmp a c) \<and>
     (\<forall>a\<in>set xs. \<forall>b\<in>set xs. \<forall>c\<in>set xs.
        answers_greater cmp a b \<and> answers_greater cmp b c \<longrightarrow> answers_greater cmp a c)"

text \<open>
  With a consistent comparison function the result is fixed by the language: the array
  in ascending order, equal elements in the order they had. It is written here as an
  insertion sort that moves an element past those it is greater than. With any other
  comparison function the result is the permutation of the array that the engine
  answers (an \<open>engine\<close> that answers anything else is read as leaving the array as it is).
\<close>

fun insert_sorted :: "('a \<Rightarrow> 'a \<Rightarrow> number) \<Rightarrow> 'a \<Rightarrow> 'a list \<Rightarrow> 'a list" where
  "insert_sorted cmp x [] = [x]"
| "insert_sorted cmp x (y # ys) =
     (if js_lt (Fin 0) (cmp x y) then y # insert_sorted cmp x ys else x # y # ys)"

definition array_sort ::
  "('a list \<Rightarrow> 'a list) \<Rightarrow> ('a \<Rightarrow> 'a \<Rightarrow> number) \<Rightarrow> 'a list \<Rightarrow> 'a list" where
  "array_sort engine cmp xs =
     (if consistent_comparator cmp xs then foldr (insert_sorted cmp) xs []
      else if mset (engine xs) = mset xs then engine xs
      else xs)"

definition rank_songs ::
  "env \<Rightarrow> AudioFeatures \<Rightarrow> Weights \<Rightarrow> queue_row list \<Rightarrow> SongWithFeatures list" where
  "rank_songs e centroid weights songsToRank =
     array_sort (engine_sort_ranked e) compare_ranked
       (map (score e centroid weights) songsToRank)"

text \<open>Step 9, the loop over \<^verbatim>\<open>ranked\<close> with the counter \<^verbatim>\<open>position\<close>.\<close>

fun position_updates :: "nat \<Rightarrow> SongWithFeatures list \<Rightarrow> (string \<times> int) list" where
  "position_updates position [] = []"
| "position_updates position (r # rs) =
     (row_id (song r), int position) # position_updates (Suc position) rs"

definition rank_queue :: "env \<Rightarrow> request \<Rightarrow> rank_result" where
  "rank_queue e req =
     (if method_is_OPTIONS req then
        \<lparr> response = \<lparr> http_status = 200, body = Text ''ok'' \<rparr>,
          updatePromises = [], queue_after = queue e \<rparr>
      else
        (case req_session_id req of
           None \<Rightarrow> rank_failure e ''session_id required''
         | Some sid \<Rightarrow>
             if sid = [] then rank_failure e ''session_id required''
             else if \<not> truthy (SUPABASE_URL e) \<or> \<not> truthy (SUPABASE_SERVICE_ROLE_KEY e) then
               rank_failure e ''Missing Supabase credentials''
             else
               let answer = select_queued e sid in
               (case error answer of
                  Some msg \<Rightarrow> rank_failure e (''Failed to fetch queue: '' @ msg)
                | None \<Rightarrow>
                    (case data answer of
                       None \<Rightarrow> rank_message e True ''Queue is empty''
                     | Some allQueuedSongs \<Rightarrow>
                         if allQueuedSongs = [] then rank_message e True ''Queue is empty''
                         else
                           let (currentlyPlayingSong, songsToRank) =
                                 separate_playing (currently_playing_uri req) allQueuedSongs
                           in
                           if length songsToRank \<le> 2 then
                             rank_message e True ''Not enough songs to rank''
                           else
                             let referenceFeatures = reference_features e songsToRank in
                             if referenceFeatures = [] then
                               rank_message e False ''Reference songs not found in dataset''
                             else
                               let centroid = computeCentroid referenceFeatures;
                                   weights = computeDynamicWeights referenceFeatures None;
                                   ranked = rank_songs e centroid weights songsToRank;
                                   notFound =
                                     map song_title
                                       (filter (\<lambda>s. getFeaturesFromDataset e (song_title s) = None)
                                          songsToRank);
                                   updates =
                                     (case currentlyPlayingSong of
                                        None \<Rightarrow> position_updates 0 ranked
                                      | Some playing \<Rightarrow>
                                          (row_id playing, 0) # position_updates 1 ranked)
                               in
                               \<lparr> response =
                                   \<lparr> http_status = 200,
                                     body = Json
                                       \<lparr> success = True, message = None, error_message = None,
                                         report = Some
                                           \<lparr> ranked_count = length ranked,
                                             total_songs =
                                               length ranked +
                                               (if currentlyPlayingSong = None then 0 else 1),
                                             currently_playing_excluded =
                                               (currentlyPlayingSong \<noteq> None),
                                             songs_with_features =
                                               length (filter (\<lambda>s. song_features s \<noteq> None) ranked),
                                             songs_not_found = length notFound,
                                             not_found_songs = notFound,
                                             reference_songs_used = length referenceFeatures,
                                             report_centroid = centroid,
                                             report_weights = weights \<rparr> \<rparr> \<rparr>,
                                 updatePromises = updates,
                                 queue_after = foldl update_pos (queue e) updates \<rparr>))))"


section \<open>The function get-recommendations\<close>

record recommend_json = reply_json +
  recommendations :: "RankedSong list option"
  seed_songs_used :: "nat option"
  total_candidates :: "nat option"

definition recommend_failure :: "string \<Rightarrow> recommend_json http_response" where
  "recommend_failure msg =
     \<lparr> http_status = 500,
       body = Json \<lparr> success = False, message = None, error_message = Some msg,
                     recommendations = None, seed_songs_used = None,
                     total_candidates = None \<rparr> \<rparr>"

text \<open>Status 200 with \<^verbatim>\<open>{ success: false, message }\<close>.\<close>

definition recommend_message :: "string \<Rightarrow> recommend_json http_response" where
  "recommend_message msg =
     \<lparr> http_status = 200,
       body = Json \<lparr> success = False, message = Some msg, error_message = None,
                     recommendations = None, seed_songs_used = None,
                     total_candidates = None \<rparr> \<rparr>"

text \<open>Status 200 with \<^verbatim>\<open>{ success: true, recommendations: [], message }\<close>.\<close>

definition recommend_nothing :: "string \<Rightarrow> recommend_json http_response" where
  "recommend_nothing msg =
     \<lparr> http_status = 200,
       body = Json \<lparr> success = True, message = Some msg, error_message = None,
                     recommendations = Some [], seed_songs_used = None,
                     total_candidates = None \<rparr> \<rparr>"

text \<open>\<^verbatim>\<open>xs.slice(0, k)\<close>; a negative \<open>k\<close> counts from the end.\<close>

definition slice0 :: "int \<Rightarrow> 'a list \<Rightarrow> 'a list" where
  "slice0 k xs = (if k < 0 then take (nat (int (length xs) + k)) xs else take (nat k) xs)"

text \<open>The loop over \<^verbatim>\<open>candidates\<close>: skip the excluded URIs, score the others.\<close>

definition score_candidate :: "AudioFeatures \<Rightarrow> Weights \<Rightarrow> popular_row \<Rightarrow> RankedSong" where
  "score_candidate centroid weights candidate =
     (let candidateFeatures =
            \<lparr> tempo = tempo candidate, energy = energy candidate,
              danceability = danceability candidate, valence = valence candidate \<rparr>;
          d = distance candidateFeatures centroid weights
      in \<lparr> tempo = tempo candidateFeatures, energy = energy candidateFeatures,
           danceability = danceability candidateFeatures, valence = valence candidateFeatures,
           ranked_id = candidate_id candidate,
           ranked_track_name = track_name candidate,
           ranked_artists =
             (case artists candidate of
                None \<Rightarrow> ''Unknown''
              | Some a \<Rightarrow> if a = [] then ''Unknown'' else a),
           ranked_uri = candidate_uri candidate,
           ranked_distance = d \<rparr>)"

definition score_candidates ::
  "string set \<Rightarrow> AudioFeatures \<Rightarrow> Weights \<Rightarrow> popular_row list \<Rightarrow> RankedSong list" where
  "score_candidates excludeUris centroid weights candidates =
     map (score_candidate centroid weights)
       (filter (\<lambda>candidate. candidate_uri candidate \<notin> excludeUris) candidates)"

definition compare_distance :: "RankedSong \<Rightarrow> RankedSong \<Rightarrow> number" where
  "compare_distance a b = js_sub (ranked_distance a) (ranked_distance b)"

text \<open>
  The second half of the function, from the construction of \<^verbatim>\<open>excludeUris\<close> to the
  end: \<open>queuedSongs\<close> is \<^verbatim>\<open>queuedSongs || []\<close>, what the read of the session's queued
  and played rows left.
\<close>

definition choose_recommendations ::
  "env \<Rightarrow> int \<Rightarrow> AudioFeatures list \<Rightarrow> queue_row list \<Rightarrow> recommend_json http_response" where
  "choose_recommendations e top_n seedFeatures queuedSongs =
     (let centroid = computeCentroid seedFeatures;
          weights = computeDynamicWeights seedFeatures None;
          excludeUris = set (map spotify_uri queuedSongs);
          pool = select_candidates e
      in
      (case error pool of
         Some msg \<Rightarrow> recommend_failure (''Failed to fetch candidates: '' @ msg)
       | None \<Rightarrow>
           (case data pool of
              None \<Rightarrow> recommend_nothing ''No candidates found in popular_songs''
            | Some candidates \<Rightarrow>
                if candidates = [] then
                  recommend_nothing ''No candidates found in popular_songs''
                else
                  let ranked =
                        array_sort (engine_sort_recommendations e) compare_distance
                          (score_candidates excludeUris centroid weights candidates);
                      recs = slice0 top_n ranked
                  in
                  if recs = [] then
                    recommend_nothing ''All popular songs are already in queue''
                  else
                    \<lparr> http_status = 200,
                      body = Json
                        \<lparr> success = True, message = None, error_message = None,
                          recommendations = Some recs,
                          seed_songs_used = Some (length seedFeatures),
                          total_candidates = Some (length ranked) \<rparr> \<rparr>)))"

text \<open>
  The first half: the request, the read of the played songs, the seed features, and the
  read of the session's queued and played rows, whose error is only logged
  (\<^verbatim>\<open>console.warn\<close>).
\<close>

definition get_recommendations :: "env \<Rightarrow> request \<Rightarrow> recommend_json http_response" where
  "get_recommendations e req =
     (if method_is_OPTIONS req then \<lparr> http_status = 200, body = Text ''ok'' \<rparr>
      else
        let top_n = (case limit req of None \<Rightarrow> 5 | Some k \<Rightarrow> k) in
        (case req_session_id req of
           None \<Rightarrow> recommend_failure ''session_id required''
         | Some sid \<Rightarrow>
             if sid = [] then recommend_failure ''session_id required''
             else if \<not> truthy (SUPABASE_URL e) \<or> \<not> truthy (SUPABASE_SERVICE_ROLE_KEY e) then
               recommend_failure ''Missing Supabase credentials''
             else
               let played = select_played e sid in
               (case error played of
                  Some msg \<Rightarrow> recommend_failure (''Failed to fetch played songs: '' @ msg)
                | None \<Rightarrow>
                    (case data played of
                       None \<Rightarrow> recommend_message ''No played songs yet. Play some songs first!''
                     | Some playedSongs \<Rightarrow>
                         if playedSongs = [] then
                           recommend_message ''No played songs yet. Play some songs first!''
                         else
                           let seedFeatures =
                                 List.map_filter
                                   (\<lambda>s. getFeaturesFromPopularSongs e (song_title s)) playedSongs
                           in
                           if seedFeatures = [] then
                             recommend_message ''Seed songs not found in dataset''
                           else
                             let seen = select_seen e sid;
                                 queuedSongs = (case data seen of None \<Rightarrow> [] | Some rows \<Rightarrow> rows)
                             in choose_recommendations e top_n seedFeatures queuedSongs))))"

section \<open>The specification's formulas\<close>

text \<open>The arithmetic mean and the population variance (dividing by \<open>n\<close>) of a list of reals.\<close>

definition arithmetic_mean :: "real list \<Rightarrow> real" where
  "arithmetic_mean xs = sum_list xs / real (length xs)"

definition population_variance :: "real list \<Rightarrow> real" where
  "population_variance xs =
     sum_list (map (\<lambda>x. (x - arithmetic_mean xs) ^ 2) xs) / real (length xs)"

text \<open>The values of one field over a list of finite vectors.\<close>

definition field_reals :: "(AudioFeatures \<Rightarrow> number) \<Rightarrow> AudioFeatures list \<Rightarrow> real list" where
  "field_reals g fs = map (\<lambda>f. the_real (g f)) fs"

text \<open>
  A list of reals whose mean is computed without rounding: every running sum and the
  quotient are doubles.
\<close>

definition exact_mean :: "real list \<Rightarrow> bool" where
  "exact_mean xs \<longleftrightarrow>
     (\<forall>k\<le>length xs. is_double (sum_list (take k xs))) \<and> is_double (arithmetic_mean xs)"

text \<open>
  The same formulas evaluated in doubles: the sum from \<open>0\<close> in the order of the list, the
  mean, the population variance (dividing by \<open>n\<close>), and the weight \<open>1 / (variance + epsilon)\<close>.
\<close>

definition double_sum :: "number list \<Rightarrow> number" where
  "double_sum xs = foldl js_add (Fin 0) xs"

definition double_mean :: "number list \<Rightarrow> number" where
  "double_mean xs = js_div (double_sum xs) (Fin (real (length xs)))"

definition double_variance :: "number list \<Rightarrow> number" where
  "double_variance xs =
     js_div (double_sum (map (\<lambda>x. Math_pow (js_sub x (double_mean xs)) 2) xs))
       (Fin (real (length xs)))"

definition spec_weight :: "number list \<Rightarrow> number \<Rightarrow> number" where
  "spec_weight xs epsilon = js_div (Fin 1) (js_add (double_variance xs) epsilon)"




definition unit_weights :: Weights where
  "unit_weights = \<lparr> tempo = Fin 1, energy = Fin 1, danceability = Fin 1, valence = Fin 1 \<rparr>"

text \<open>The vector that \<^verbatim>\<open>0 / 0\<close> in every field gives.\<close>

definition nan_features :: AudioFeatures where
  "nan_features = \<lparr> tempo = NaN, energy = NaN, danceability = NaN, valence = NaN \<rparr>"

text \<open>
  \<^verbatim>\<open>computeCentroid\<close> as section 4.1 of the specification words it: it fails with
  \<open>InvalidInput\<close> on the empty sequence, and is the arithmetic mean per field otherwise.
\<close>

datatype failure = InvalidInput

definition spec_computeCentroid :: "AudioFeatures list \<Rightarrow> failure + AudioFeatures" where
  "spec_computeCentroid vectors =
     (if vectors = [] then Inl InvalidInput
      else Inr \<lparr> tempo = Fin (arithmetic_mean (field_reals tempo vectors)),
                 energy = Fin (arithmetic_mean (field_reals energy vectors)),
                 danceability = Fin (arithmetic_mean (field_reals danceability vectors)),
                 valence = Fin (arithmetic_mean (field_reals valence vectors)) \<rparr>)"

text \<open>
  A request that gets as far as the first read of the store: a POST with a session
  identifier, in an environment that has both credentials.
\<close>

definition reaches_store :: "env \<Rightarrow> request \<Rightarrow> string \<Rightarrow> bool" where
  "reaches_store e req sid \<longleftrightarrow>
     \<not> method_is_OPTIONS req \<and> req_session_id req = Some sid \<and> sid \<noteq> [] \<and>
     truthy (SUPABASE_URL e) \<and> truthy (SUPABASE_SERVICE_ROLE_KEY e)"


section \<open>Names for the stages of a ranking pass\<close>

text \<open>
  For a request that reaches the store with session \<open>sid\<close>: the pinned song and the
  ranking pool of step 2, the reference features of step 4, the centroid and weights of
  steps 5 and 6, the scored pool of steps 7 and 8 and the sorted array \<^verbatim>\<open>ranked\<close>.
\<close>

definition pinned_song :: "env \<Rightarrow> request \<Rightarrow> string \<Rightarrow> queue_row option" where
  "pinned_song e req sid = fst (separate_playing (currently_playing_uri req) (queued_rows e sid))"

definition ranking_pool :: "env \<Rightarrow> request \<Rightarrow> string \<Rightarrow> queue_row list" where
  "ranking_pool e req sid = snd (separate_playing (currently_playing_uri req) (queued_rows e sid))"

definition pass_centroid :: "env \<Rightarrow> request \<Rightarrow> string \<Rightarrow> AudioFeatures" where
  "pass_centroid e req sid = computeCentroid (reference_features e (ranking_pool e req sid))"

definition pass_weights :: "env \<Rightarrow> request \<Rightarrow> string \<Rightarrow> Weights" where
  "pass_weights e req sid =
     computeDynamicWeights (reference_features e (ranking_pool e req sid)) None"

definition scored_pool :: "env \<Rightarrow> request \<Rightarrow> string \<Rightarrow> SongWithFeatures list" where
  "scored_pool e req sid =
     map (score e (pass_centroid e req sid) (pass_weights e req sid)) (ranking_pool e req sid)"

definition ranked_songs :: "env \<Rightarrow> request \<Rightarrow> string \<Rightarrow> SongWithFeatures list" where
  "ranked_songs e req sid =
     rank_songs e (pass_centroid e req sid) (pass_weights e req sid) (ranking_pool e req sid)"

text \<open>
  The pass gets to step 9: the queue was read, more than two songs are left to rank, and
  at least one reference song has features.
\<close>

definition rerank_succeeds :: "env \<Rightarrow> request \<Rightarrow> string \<Rightarrow> bool" where
  "rerank_succeeds e req sid \<longleftrightarrow>
     reaches_store e req sid \<and> queue_select_error e = None \<and>
     2 < length (ranking_pool e req sid) \<and>
     reference_features e (ranking_pool e req sid) \<noteq> []"

text \<open>
  No distance of the pass is \<^verbatim>\<open>NaN\<close>. (A distance is \<^verbatim>\<open>NaN\<close> when a feature is, or
  when the arithmetic runs into \<^verbatim>\<open>0 * Infinity\<close> or \<^verbatim>\<open>Infinity - Infinity\<close>.)
\<close>

definition no_nan_distance :: "env \<Rightarrow> request \<Rightarrow> string \<Rightarrow> bool" where
  "no_nan_distance e req sid \<longleftrightarrow> (\<forall>r\<in>set (scored_pool e req sid). dist r \<noteq> NaN)"

text \<open>Every feature vector that the lookup returns for a song of the pool is moderate.\<close>

definition moderate_lookup :: "env \<Rightarrow> queue_row list \<Rightarrow> bool" where
  "moderate_lookup e songs \<longleftrightarrow>
     (\<forall>s\<in>set songs. \<forall>f. getFeaturesFromDataset e (song_title s) = Some f \<longrightarrow>
        moderate_features f)"

text \<open>The order that \<open>compare_ranked\<close> sorts by: finite distances first, by value.\<close>

definition rank_key :: "SongWithFeatures \<Rightarrow> bool \<times> real" where
  "rank_key r = (dist r = PInf, the_real (dist r))"

text \<open>The position that the pass writes for the \<open>i\<close>-th ranked song.\<close>

definition first_position :: "env \<Rightarrow> request \<Rightarrow> string \<Rightarrow> nat" where
  "first_position e req sid = (if pinned_song e req sid = None then 0 else 1)"

text \<open>The URIs that a response recommends.\<close>

definition recommended_uris :: "recommend_json http_response \<Rightarrow> string list" where
  "recommended_uris r =
     (case body r of
        Text t \<Rightarrow> []
      | Json j \<Rightarrow> (case recommendations j of None \<Rightarrow> [] | Some recs \<Rightarrow> map ranked_uri recs))"

text \<open>
  An entry whose distance is the sentinel or a finite number that a rounding produced,
  which is a multiple of \<open>2\<^sup>-\<^sup>1\<^sup>0\<^sup>7\<^sup>4\<close>.
\<close>

definition scored :: "SongWithFeatures \<Rightarrow> bool" where
  "scored r \<longleftrightarrow> dist r = PInf \<or> (\<exists>a. dist r = Fin a \<and> on_grid a)"


section \<open>A session for the examples\<close>

text \<open>
  Session \<open>s\<close> has seven queued rows at positions 0 to 6. Rows \<open>0\<close> and \<open>2\<close> both carry
  the URI \<open>p\<close> that is playing. The lookup knows the titles \<open>x\<close>, \<open>z\<close> and \<open>w\<close>; it
  does not know \<open>y\<close> and \<open>q\<close>. The engine leaves an array that it cannot sort as it is.
\<close>

definition queued :: "string \<Rightarrow> string \<Rightarrow> string \<Rightarrow> int \<Rightarrow> queue_row" where
  "queued i uri title p =
     \<lparr> row_id = i, session_id = ''s'', spotify_uri = uri, song_title = title,
       song_artist = ''a'', pos = Some p, status = ''queued'', played_at = None \<rparr>"

definition vec :: "real \<Rightarrow> AudioFeatures" where
  "vec t = \<lparr> tempo = Fin t, energy = Fin 0, danceability = Fin 0, valence = Fin 0 \<rparr>"

text \<open>
  Some doubles far from the values of the data model: \<open>huge\<close> is the largest power of
  two among them, the squares of \<open>loud\<close> and \<open>vast\<close> are beyond the largest double and the
  square of \<open>tiny\<close> is below the smallest, and \<open>coarse + 1\<close> is not a double.
\<close>

definition huge :: real where
  "huge = 2 ^ 1023"

definition loud :: real where
  "loud = 2 ^ 512"

definition vast :: real where
  "vast = 2 ^ 600"

definition wide :: real where
  "wide = 2 ^ 30"

definition coarse :: real where
  "coarse = 2 ^ 54"


text \<open>
  The double nearest to \<open>1/1000000\<close>, the double nearest to \<open>1 + micro\<close>, and the double
  nearest to the inverse of that.
\<close>

definition micro :: real where
  "micro = 4722366482869645 / 2 ^ 72"

definition above_one :: real where
  "above_one = 4503604130970123 / 2 ^ 52"

definition near_one :: real where
  "near_one = 9007190247550745 / 2 ^ 53"

definition found :: "AudioFeatures list \<Rightarrow> AudioFeatures list pg_response option" where
  "found rows = Some \<lparr> data = Some rows, error = None \<rparr>"

definition party_env :: env where
  "party_env =
     \<lparr> SUPABASE_URL = Some ''url'', SUPABASE_SERVICE_ROLE_KEY = Some ''key'',
       queue = [queued ''0'' ''p'' ''P'' 0, queued ''1'' ''x'' ''X'' 1,
                queued ''2'' ''p'' ''P'' 2, queued ''3'' ''y'' ''Y'' 3,
                queued ''4'' ''z'' ''Z'' 4, queued ''5'' ''w'' ''W'' 5,
                queued ''6'' ''q'' ''Q'' 6],
       popular_songs = [],
       queue_select_error = None, played_select_error = None,
       exclusion_select_error = None, candidates_select_error = None,
       get_song_features =
         (\<lambda>t. if t = ''x'' then found [vec 3]
              else if t = ''z'' then found [vec 1]
              else if t = ''w'' then found [vec 3]
              else found []),
       popular_songs_ilike = (\<lambda>t. found []),
       engine_sort_ranked = (\<lambda>xs. xs),
       engine_sort_recommendations = (\<lambda>xs. xs) \<rparr>"

definition party_request :: request where
  "party_request =
     \<lparr> method_is_OPTIONS = False, req_session_id = Some ''s'',
       currently_playing_uri = Some ''p'', limit = None \<rparr>"

text \<open>The same session with three queued rows only.\<close>

definition short_env :: env where
  "short_env =
     party_env\<lparr> queue := [queued ''0'' ''p'' ''P'' 0, queued ''1'' ''x'' ''X'' 1,
                           queued ''2'' ''y'' ''Y'' 2] \<rparr>"

text \<open>
  A session of three queued rows, nothing playing: \<open>x\<close> has tempo \<open>0\<close>, \<open>y\<close> is not
  known, \<open>z\<close> has tempo \<open>loud\<close>.
\<close>

definition loud_env :: env where
  "loud_env =
     party_env\<lparr> queue := [queued ''1'' ''x'' ''X'' 0, queued ''2'' ''y'' ''Y'' 1,
                           queued ''3'' ''z'' ''Z'' 2],
                 get_song_features :=
                   (\<lambda>t. if t = ''x'' then found [vec 0]
                        else if t = ''z'' then found [vec loud]
                        else found []) \<rparr>"

definition plain_request :: request where
  "plain_request =
     \<lparr> method_is_OPTIONS = False, req_session_id = Some ''s'',
       currently_playing_uri = None, limit = None \<rparr>"

text \<open>
  A session of five queued rows, nothing playing. The reference songs \<open>a\<close> and \<open>b\<close> have
  the tempos \<open>vast\<close> and \<open>- vast\<close>, and \<open>wide\<close> and \<open>- wide\<close> in the other fields.
\<close>

definition features :: "real \<Rightarrow> real \<Rightarrow> real \<Rightarrow> real \<Rightarrow> AudioFeatures" where
  "features t x d v = \<lparr> tempo = Fin t, energy = Fin x, danceability = Fin d, valence = Fin v \<rparr>"

definition wide_env :: env where
  "wide_env =
     party_env\<lparr> queue := [queued ''1'' ''a'' ''A'' 0, queued ''2'' ''b'' ''B'' 1,
                           queued ''3'' ''c'' ''C'' 2, queued ''4'' ''d'' ''D'' 3,
                           queued ''5'' ''e'' ''E'' 4],
                 get_song_features :=
                   (\<lambda>t. if t = ''a'' then found [features vast wide wide wide]
                        else if t = ''b'' then
                          found [features (- vast) (- wide) (- wide) (- wide)]
                        else if t = ''c'' then found [features 0 (5 * wide) 0 0]
                        else if t = ''d'' then found [features vast 0 0 0]
                        else if t = ''e'' then found [features 0 (3 * wide) 0 0]
                        else found []) \<rparr>"

text \<open>The seed features and the limit of a recommendation request.\<close>

definition seed_features :: "env \<Rightarrow> string \<Rightarrow> AudioFeatures list" where
  "seed_features e sid =
     List.map_filter (\<lambda>s. getFeaturesFromPopularSongs e (song_title s)) (played_rows e sid)"

definition requested_limit :: "request \<Rightarrow> int" where
  "requested_limit req = (case limit req of None \<Rightarrow> 5 | Some k \<Rightarrow> k)"

text \<open>
  A session with one played row (URI \<open>u1\<close>, title \<open>A\<close>) and one queued row (URI \<open>u2\<close>),
  and four candidates with the URIs \<open>u1\<close> to \<open>u4\<close>, all of the track name \<open>a\<close>; the
  lookup by title answers the features of the first of them.
\<close>

definition candidate :: "string \<Rightarrow> string \<Rightarrow> real \<Rightarrow> popular_row" where
  "candidate i uri t =
     \<lparr> tempo = Fin t, energy = Fin 0, danceability = Fin 0, valence = Fin 0,
       candidate_id = i, track_name = ''a'', artists = None, candidate_uri = uri \<rparr>"

definition radio_env :: env where
  "radio_env =
     \<lparr> SUPABASE_URL = Some ''url'', SUPABASE_SERVICE_ROLE_KEY = Some ''key'',
       queue = [\<lparr> row_id = ''10'', session_id = ''s'', spotify_uri = ''u1'',
                   song_title = ''A'', song_artist = ''a'', pos = None,
                   status = ''played'', played_at = Some 100 \<rparr>,
                queued ''11'' ''u2'' ''B'' 0],
       popular_songs = [candidate ''c1'' ''u1'' 3, candidate ''c2'' ''u2'' 3,
                        candidate ''c3'' ''u3'' 1, candidate ''c4'' ''u4'' 3],
       queue_select_error = None, played_select_error = None,
       exclusion_select_error = None, candidates_select_error = None,
       get_song_features = (\<lambda>t. found []),
       popular_songs_ilike = (\<lambda>t. if t = ''a'' then found [vec 3] else found []),
       engine_sort_ranked = (\<lambda>xs. xs),
       engine_sort_recommendations = (\<lambda>xs. xs) \<rparr>"

definition radio_request :: request where
  "radio_request =
     \<lparr> method_is_OPTIONS = False, req_session_id = Some ''s'',
       currently_playing_uri = None, limit = None \<rparr>"

text \<open>The same request for one recommendation.\<close>

definition single_request :: request where
  "single_request = radio_request\<lparr> limit := Some 1 \<rparr>"

text \<open>The same environment with one read failing.\<close>

definition no_exclusion_env :: env where
  "no_exclusion_env = radio_env\<lparr> exclusion_select_error := Some ''down'' \<rparr>"

definition no_played_env :: env where
  "no_played_env = radio_env\<lparr> played_select_error := Some ''down'' \<rparr>"

definition no_candidates_env :: env where
  "no_candidates_env = radio_env\<lparr> candidates_select_error := Some ''down'' \<rparr>"

definition no_queue_env :: env where
  "no_queue_env = party_env\<lparr> queue_select_error := Some ''down'' \<rparr>"


section \<open>Rounding to a double\<close>

lemma round_half_even_near:
  assumes "\<bar>y - of_int k\<bar> < 1 / 2"
  shows "round_half_even y = k"
proof (cases "of_int k \<le> y")
  case True
  with assms have "\<lfloor>y\<rfloor> = k" by (intro floor_unique) linarith+
  with assms True show ?thesis by (auto simp: round_half_even_def Let_def)
next
  case False
  with assms have f: "\<lfloor>y\<rfloor> = k - 1" by (intro floor_unique) (simp; linarith)+
  from assms False have "1 / 2 < y - of_int (k - 1)" by simp
  with f show ?thesis by (auto simp: round_half_even_def Let_def)
qed

lemma round_half_even_of_int [simp]: "round_half_even (of_int k) = k"
  by (rule round_half_even_near) simp

lemma round_half_even_lower: "of_int k \<le> y \<Longrightarrow> k \<le> round_half_even y"
proof -
  assume "of_int k \<le> y"
  then have "k \<le> \<lfloor>y\<rfloor>" by (simp add: le_floor_iff)
  then show ?thesis by (simp add: round_half_even_def Let_def)
qed

lemma round_half_even_upper: "y \<le> of_int k \<Longrightarrow> round_half_even y \<le> k"
proof -
  assume a: "y \<le> of_int k"
  show ?thesis
  proof (cases "y = of_int k")
    case True
    then show ?thesis by simp
  next
    case False
    with a have "y < of_int k" by simp
    then have "\<lfloor>y\<rfloor> < k" by (simp add: floor_less_iff)
    then show ?thesis by (simp add: round_half_even_def Let_def)
  qed
qed

lemma exponent_bounds:
  assumes "0 < a"
  shows "2 powr of_int \<lfloor>log 2 a\<rfloor> \<le> a" "a < 2 powr (of_int \<lfloor>log 2 a\<rfloor> + 1)"
  using floor_log_eq_powr_iff [of a 2 "\<lfloor>log 2 a\<rfloor>"] assms by simp_all

lemma round_double_0 [simp]: "round_double 0 = Fin 0"
  by (simp add: round_double_def)


lemma powr_int_diff_nat:
  assumes "(e::int) \<le> e0"
  shows "2 powr of_int e0 / 2 powr of_int e = (2::real) ^ nat (e0 - e)"
proof -
  have "2 powr of_int e0 / 2 powr of_int e = (2::real) powr (of_int e0 - of_int e)"
    by (simp add: powr_diff)
  also have "of_int e0 - of_int e = (real (nat (e0 - e)))" using assms by simp
  also have "(2::real) powr real (nat (e0 - e)) = 2 ^ nat (e0 - e)"
    by (simp add: powr_realpow)
  finally show ?thesis .
qed

lemma quantum_exponent_le:
  assumes "0 < a" "a < 2 powr of_int (53 + e0)" "- 1074 \<le> e0"
  shows "quantum_exponent a \<le> e0"
proof -
  have "2 powr of_int \<lfloor>log 2 a\<rfloor> \<le> a" using assms(1) by (rule exponent_bounds)
  with assms(2) have "(2::real) powr of_int \<lfloor>log 2 a\<rfloor> < 2 powr of_int (53 + e0)" by linarith
  then have "\<lfloor>log 2 a\<rfloor> < 53 + e0" by simp
  with assms(3) show ?thesis by (simp add: quantum_exponent_def)
qed

lemma quantum_exponent_ge: "- 1074 \<le> quantum_exponent a"
  by (simp add: quantum_exponent_def)

lemma round_double_representable:
  assumes "is_double x"
  shows "round_double x = Fin x"
proof (cases "x = 0")
  case True
  then show ?thesis by simp
next
  case False
  from assms obtain m e0 :: int where x: "x = of_int m * 2 powr of_int e0"
    and m: "\<bar>m\<bar> < 2 ^ 53" and e0: "- 1074 \<le> e0" "e0 \<le> 971"
    unfolding is_double_def by blast
  from False x have m0: "m \<noteq> 0" by auto
  have a: "\<bar>x\<bar> = of_int \<bar>m\<bar> * 2 powr of_int e0" by (simp add: x abs_mult)
  have pos: "0 < \<bar>x\<bar>" using False by simp
  from m have mr: "real_of_int \<bar>m\<bar> \<le> 2 ^ 53 - 1"
  proof -
    from m have "\<bar>m\<bar> \<le> 2 ^ 53 - 1" by simp
    then have "real_of_int \<bar>m\<bar> \<le> real_of_int (2 ^ 53 - 1)" by (rule of_int_le_iff [THEN iffD2])
    then show ?thesis by simp
  qed
  have p971: "(2::real) powr of_int e0 \<le> 2 ^ 971"
  proof -
    have "(2::real) powr of_int e0 \<le> 2 powr 971" using e0 by (intro powr_mono) simp_all
    also have "(2::real) powr 971 = 2 ^ 971" by (rule powr_numeral) simp
    finally show ?thesis .
  qed
  have small: "\<not> (2 ^ 53 - 1 / 2) * 2 ^ 971 \<le> \<bar>x\<bar>"
  proof -
    have "\<bar>x\<bar> \<le> (2 ^ 53 - 1) * 2 ^ 971"
      unfolding a using mr p971 by (intro mult_mono) simp_all
    also have "\<dots> < (2 ^ 53 - 1 / 2) * (2::real) ^ 971" by simp
    finally show ?thesis by simp
  qed
  have lt: "\<bar>x\<bar> < 2 powr of_int (53 + e0)"
  proof -
    have "\<bar>x\<bar> < 2 ^ 53 * 2 powr of_int e0"
      unfolding a using mr by (intro mult_strict_right_mono) simp_all
    also have "\<dots> = 2 powr of_int (53 + e0)" by (simp add: powr_add)
    finally show ?thesis .
  qed
  define e where "e = quantum_exponent \<bar>x\<bar>"
  have ee: "e \<le> e0" unfolding e_def using pos lt e0(1) by (rule quantum_exponent_le)
  have y: "\<bar>x\<bar> / 2 powr of_int e = of_int (\<bar>m\<bar> * 2 ^ nat (e0 - e))"
  proof -
    have "\<bar>x\<bar> / 2 powr of_int e = of_int \<bar>m\<bar> * (2 powr of_int e0 / 2 powr of_int e)"
      by (simp add: a)
    also have "\<dots> = of_int \<bar>m\<bar> * 2 ^ nat (e0 - e)" by (simp only: powr_int_diff_nat [OF ee])
    finally show ?thesis by simp
  qed
  have "round_double x =
      Fin (sgn x * of_int (round_half_even (\<bar>x\<bar> / 2 powr of_int e)) * 2 powr of_int e)"
    using False small by (simp add: round_double_def Let_def e_def)
  also have "sgn x * of_int (round_half_even (\<bar>x\<bar> / 2 powr of_int e)) * 2 powr of_int e =
      sgn x * (\<bar>x\<bar> / 2 powr of_int e) * 2 powr of_int e"
    by (simp only: y round_half_even_of_int)
  also have "\<dots> = sgn x * \<bar>x\<bar>" by simp
  also have "\<dots> = x" by (simp add: sgn_mult_abs)
  finally show ?thesis .
qed


lemma round_double_finite_form:
  assumes "x \<noteq> 0" "\<not> (2 ^ 53 - 1 / 2) * 2 ^ 971 \<le> \<bar>x\<bar>"
  shows "round_double x =
     Fin (sgn x * of_int (round_half_even (\<bar>x\<bar> / 2 powr of_int (quantum_exponent \<bar>x\<bar>))) *
          2 powr of_int (quantum_exponent \<bar>x\<bar>))"
  using assms by (simp add: round_double_def Let_def)

lemma round_double_overflow:
  assumes "2 ^ 1024 \<le> x"
  shows "round_double x = PInf"
proof -
  have "(2 ^ 53 - 1 / 2) * 2 ^ 971 \<le> (2::real) ^ 1024" by simp
  with assms have "(2 ^ 53 - 1 / 2) * 2 ^ 971 \<le> \<bar>x\<bar>" by linarith
  moreover from assms have "0 < x" by (smt (verit) zero_less_power)
  ultimately show ?thesis by (simp add: round_double_def)
qed

lemma round_double_nonneg:
  assumes "0 \<le> x"
  shows "round_double x = PInf \<or> (\<exists>y. round_double x = Fin y \<and> 0 \<le> y)"
proof (cases "x = 0")
  case True
  then show ?thesis by simp
next
  case False
  with assms have pos: "0 < x" by simp
  show ?thesis
  proof (cases "(2 ^ 53 - 1 / 2) * 2 ^ 971 \<le> \<bar>x\<bar>")
    case True
    with pos show ?thesis by (simp add: round_double_def)
  next
    case big: False
    have "0 \<le> round_half_even (\<bar>x\<bar> / 2 powr of_int (quantum_exponent \<bar>x\<bar>))"
      by (rule round_half_even_lower) simp
    then have "0 \<le> sgn x * of_int (round_half_even (\<bar>x\<bar> / 2 powr of_int (quantum_exponent \<bar>x\<bar>))) *
          2 powr of_int (quantum_exponent \<bar>x\<bar>)"
      using pos by simp
    then show ?thesis by (simp only: round_double_finite_form [OF False big]) blast
  qed
qed

lemma round_double_nonpos:
  assumes "x \<le> 0"
  shows "round_double x = NInf \<or> (\<exists>y. round_double x = Fin y \<and> y \<le> 0)"
proof (cases "x = 0")
  case True
  then show ?thesis by simp
next
  case False
  with assms have neg: "x < 0" by simp
  show ?thesis
  proof (cases "(2 ^ 53 - 1 / 2) * 2 ^ 971 \<le> \<bar>x\<bar>")
    case True
    with neg show ?thesis by (simp add: round_double_def)
  next
    case big: False
    have "0 \<le> round_half_even (\<bar>x\<bar> / 2 powr of_int (quantum_exponent \<bar>x\<bar>))"
      by (rule round_half_even_lower) simp
    then have "sgn x * of_int (round_half_even (\<bar>x\<bar> / 2 powr of_int (quantum_exponent \<bar>x\<bar>))) *
          2 powr of_int (quantum_exponent \<bar>x\<bar>) \<le> 0"
      using neg by (simp add: mult_nonneg_nonneg)
    then show ?thesis by (simp only: round_double_finite_form [OF False big]) blast
  qed
qed

lemma quantum_le_value:
  assumes "2 powr (- 1074) \<le> a"
  shows "2 powr of_int (quantum_exponent a) \<le> a"
proof -
  have pos: "0 < a" using assms by (smt (verit) powr_gt_zero)
  show ?thesis
  proof (cases "\<lfloor>log 2 a\<rfloor> - 52 \<le> - 1074")
    case True
    then have "quantum_exponent a = - 1074" by (simp add: quantum_exponent_def)
    with assms show ?thesis by simp
  next
    case False
    then have q: "quantum_exponent a = \<lfloor>log 2 a\<rfloor> - 52" by (simp add: quantum_exponent_def)
    have "(2::real) powr of_int (\<lfloor>log 2 a\<rfloor> - 52) \<le> 2 powr of_int \<lfloor>log 2 a\<rfloor>"
      by (intro powr_mono) simp_all
    also have "\<dots> \<le> a" using pos by (rule exponent_bounds)
    finally show ?thesis by (simp only: q)
  qed
qed

lemma round_double_positive:
  assumes "2 powr (- 1074) \<le> x"
  shows "round_double x = PInf \<or> (\<exists>y. round_double x = Fin y \<and> 0 < y)"
proof -
  have pos: "0 < x" using assms by (smt (verit) powr_gt_zero)
  then have ne: "x \<noteq> 0" and ab: "\<bar>x\<bar> = x" by simp_all
  show ?thesis
  proof (cases "(2 ^ 53 - 1 / 2) * 2 ^ 971 \<le> \<bar>x\<bar>")
    case True
    with pos show ?thesis by (simp add: round_double_def)
  next
    case big: False
    have "2 powr of_int (quantum_exponent x) \<le> x" using assms by (rule quantum_le_value)
    then have "1 \<le> x / 2 powr of_int (quantum_exponent x)" by (simp add: le_divide_eq)
    then have "of_int 1 \<le> \<bar>x\<bar> / 2 powr of_int (quantum_exponent \<bar>x\<bar>)" by (simp add: ab)
    then have "1 \<le> round_half_even (\<bar>x\<bar> / 2 powr of_int (quantum_exponent \<bar>x\<bar>))"
      by (rule round_half_even_lower)
    then have "0 < real_of_int (round_half_even (\<bar>x\<bar> / 2 powr of_int (quantum_exponent \<bar>x\<bar>)))"
      by simp
    then have "0 < sgn x * of_int (round_half_even (\<bar>x\<bar> / 2 powr of_int (quantum_exponent \<bar>x\<bar>))) *
          2 powr of_int (quantum_exponent \<bar>x\<bar>)"
      using pos by simp
    then show ?thesis by (simp only: round_double_finite_form [OF ne big]) blast
  qed
qed

lemma round_double_minus: "round_double (- x) =
    (case round_double x of Fin y \<Rightarrow> Fin (- y) | PInf \<Rightarrow> NInf | NInf \<Rightarrow> PInf | NaN \<Rightarrow> NaN)"
  by (simp add: round_double_def Let_def)

lemma round_double_negative:
  assumes "x \<le> - (2 powr (- 1074))"
  shows "round_double x = NInf \<or> (\<exists>y. round_double x = Fin y \<and> y < 0)"
proof -
  from assms have "2 powr (- 1074) \<le> - x" by simp
  from round_double_positive [OF this] show ?thesis
    by (auto simp: round_double_minus split: number.splits)
qed

lemma round_double_on_grid:
  assumes "round_double x = Fin y"
  shows "on_grid y"
proof (cases "x = 0")
  case True
  with assms have "y = 0" by simp
  then show ?thesis unfolding on_grid_def by (intro exI [of _ 0]) simp
next
  case False
  from assms have big: "\<not> (2 ^ 53 - 1 / 2) * 2 ^ 971 \<le> \<bar>x\<bar>"
    by (auto simp: round_double_def split: if_splits)
  define e where "e = quantum_exponent \<bar>x\<bar>"
  define m where "m = round_half_even (\<bar>x\<bar> / 2 powr of_int e)"
  have e: "- 1074 \<le> e" unfolding e_def by (rule quantum_exponent_ge)
  from assms have y: "y = sgn x * of_int m * 2 powr of_int e"
    by (simp add: round_double_finite_form [OF False big] e_def m_def)
  have "(2::real) powr of_int e = 2 powr (of_int (e + 1074) + (- 1074))" by simp
  also have "\<dots> = 2 powr of_int (e + 1074) * 2 powr (- 1074)" by (rule powr_add)
  also have "(2::real) powr of_int (e + 1074) = 2 ^ nat (e + 1074)"
  proof -
    have "real_of_int (e + 1074) = real (nat (e + 1074))" using e by simp
    then have "(2::real) powr of_int (e + 1074) = 2 powr real (nat (e + 1074))" by (simp only:)
    also have "\<dots> = 2 ^ nat (e + 1074)" by (rule powr_realpow) simp
    finally show ?thesis .
  qed
  finally have p: "(2::real) powr of_int e = 2 ^ nat (e + 1074) * 2 powr (- 1074)" .
  have "sgn x = of_int (if 0 < x then 1 else - 1)" using False by (simp add: sgn_if)
  then obtain s :: int where s: "sgn x = of_int s" ..
  have "y = of_int (s * m * 2 ^ nat (e + 1074)) * 2 powr (- 1074)"
    by (simp add: y s p)
  then show ?thesis unfolding on_grid_def by blast
qed


lemma round_double_eval:
  assumes "0 < x" "x < (2 ^ 53 - 1 / 2) * 2 ^ 971"
    "2 powr of_int E \<le> x" "x < 2 powr (of_int E + 1)"
    "e = max (- 1074) (E - 52)" "\<bar>x / 2 powr of_int e - of_int m\<bar> < 1 / 2"
  shows "round_double x = Fin (of_int m * 2 powr of_int e)"
proof -
  have ne: "x \<noteq> 0" and ab: "\<bar>x\<bar> = x" using assms(1) by simp_all
  have big: "\<not> (2 ^ 53 - 1 / 2) * 2 ^ 971 \<le> \<bar>x\<bar>" using assms(2) by (simp add: ab)
  have "\<lfloor>log 2 x\<rfloor> = E"
    using floor_log_eq_powr_iff [of x 2 E] assms(1,3,4) by simp
  then have q: "quantum_exponent x = e" by (simp add: quantum_exponent_def assms(5))
  from assms(6) have "round_half_even (x / 2 powr of_int e) = m" by (rule round_half_even_near)
  then show ?thesis using assms(1) by (simp add: round_double_finite_form [OF ne big] ab q)
qed

lemma is_doubleI:
  "x = of_int m * 2 powr of_int e \<Longrightarrow> \<bar>m\<bar> < 2 ^ 53 \<Longrightarrow> - 1074 \<le> e \<Longrightarrow> e \<le> 971 \<Longrightarrow>
   is_double x"
  unfolding is_double_def by blast

lemma is_double_of_int: "\<bar>n\<bar> < 2 ^ 53 \<Longrightarrow> is_double (of_int n)"
  by (rule is_doubleI [of _ n 0]) simp_all

lemma is_double_on_grid: "is_double x \<Longrightarrow> on_grid x"
  using round_double_representable round_double_on_grid by blast

lemma grid_gap:
  assumes "on_grid a" "on_grid b" "b < a"
  shows "2 powr (- 1074) \<le> a - b"
proof -
  from assms obtain k l :: int where a: "a = of_int k * 2 powr (- 1074)"
    and b: "b = of_int l * 2 powr (- 1074)" unfolding on_grid_def by blast
  from assms(3) have "real_of_int l < of_int k" by (simp add: a b)
  then have "l + 1 \<le> k" by simp
  then have "real_of_int (l + 1) \<le> of_int k" by (simp only: of_int_le_iff)
  then have "1 \<le> real_of_int k - of_int l" by simp
  then have "1 * 2 powr (- 1074) \<le> (real_of_int k - of_int l) * 2 powr (- 1074)"
    by (intro mult_right_mono) simp_all
  then show ?thesis by (simp add: a b algebra_simps)
qed


section \<open>Facts about the numbers\<close>

lemma round_double_not_NaN: "round_double x \<noteq> NaN"
  by (simp add: round_double_def Let_def)

lemma round_half_even_below:
  assumes "y < of_int k - 1 / 2"
  shows "round_half_even y \<le> k - 1"
proof (cases "\<lfloor>y\<rfloor> = k - 1")
  case True
  with assms have "y - of_int \<lfloor>y\<rfloor> < 1 / 2" by simp
  with True show ?thesis by (simp add: round_half_even_def Let_def)
next
  case False
  from assms have "y < of_int k" by linarith
  then have "\<lfloor>y\<rfloor> < k" by (simp add: floor_less_iff)
  with False have "\<lfloor>y\<rfloor> + 1 \<le> k - 1" by simp
  then show ?thesis by (simp add: round_half_even_def Let_def)
qed

lemma round_double_is_double:
  assumes "round_double x = Fin y"
  shows "is_double y"
proof (cases "x = 0")
  case True
  with assms have "y = 0" by simp
  then show ?thesis using is_double_of_int [of 0] by simp
next
  case False
  from assms have big: "\<not> (2 ^ 53 - 1 / 2) * 2 ^ 971 \<le> \<bar>x\<bar>"
    by (auto simp: round_double_def split: if_splits)
  define a where "a = \<bar>x\<bar>"
  define e where "e = quantum_exponent a"
  define m where "m = round_half_even (a / 2 powr of_int e)"
  have a: "0 < a" using False by (simp add: a_def)
  have lt: "a < (2 ^ 53 - 1 / 2) * 2 ^ 971" using big by (simp add: a_def)
  have e: "- 1074 \<le> e" unfolding e_def by (rule quantum_exponent_ge)
  from assms have y: "y = sgn x * of_int m * 2 powr of_int e"
    by (simp add: round_double_finite_form [OF False big] e_def m_def a_def)
  have "sgn x = of_int (if 0 < x then 1 else - 1)" using False by (simp add: sgn_if)
  then obtain s :: int where s: "sgn x = of_int s" "\<bar>s\<bar> = 1" by auto
  have p: "(0::real) < 2 powr of_int e" by simp
  have m0: "0 \<le> m" unfolding m_def using a by (intro round_half_even_lower) simp
  have "(2 ^ 53 - 1 / 2) * 2 ^ 971 \<le> (2::real) ^ 53 * 2 ^ 971" by simp
  also have "\<dots> = 2 powr of_int (53 + 971)" by (simp add: powr_numeral)
  finally have "a < 2 powr of_int (53 + 971)" using lt by simp
  from quantum_exponent_le [OF a this] have e971: "e \<le> 971" by (simp add: e_def)
  have ee: "\<lfloor>log 2 a\<rfloor> - 52 \<le> e" unfolding e_def quantum_exponent_def by simp
  have "a < 2 powr (of_int \<lfloor>log 2 a\<rfloor> + 1)" by (rule exponent_bounds [OF a])
  also have "\<dots> \<le> 2 powr (of_int (e + 53))"
    using ee by (intro powr_mono) simp_all
  also have "\<dots> = 2 powr 53 * 2 powr of_int e"
    by (simp add: powr_add)
  finally have "a / 2 powr of_int e < 2 powr 53" using p by (simp add: divide_less_eq)
  also have "(2::real) powr 53 = of_int (2 ^ 53)" by (simp add: powr_numeral)
  finally have "a / 2 powr of_int e \<le> of_int (2 ^ 53)" by simp
  then have m53: "m \<le> 2 ^ 53" unfolding m_def by (rule round_half_even_upper)
  show ?thesis
  proof (cases "m = 2 ^ 53")
    case False
    with m53 m0 have b: "\<bar>s * m\<bar> < 2 ^ 53" using s(2) by (simp add: abs_mult)
    have yy: "y = of_int (s * m) * 2 powr of_int e" by (simp add: y s)
    show ?thesis by (rule is_doubleI [OF yy b e e971])
  next
    case True
    have e970: "e \<le> 970"
    proof (rule ccontr)
      assume "\<not> e \<le> 970"
      with e971 have e9: "e = 971" by simp
      have "(2::real) powr of_int e = 2 ^ 971" by (simp add: e9 powr_numeral)
      with lt have "a / 2 powr of_int e < of_int (2 ^ 53) - 1 / 2"
        by (simp add: divide_less_eq)
      then have "m \<le> 2 ^ 53 - 1" unfolding m_def by (rule round_half_even_below)
      with True show False by simp
    qed
    have "(2::real) powr of_int (e + 1) = 2 powr of_int e * 2 powr 1"
      by (simp add: powr_add)
    then have yy: "y = of_int (s * 2 ^ 52) * 2 powr of_int (e + 1)"
      by (simp add: y s True)
    have b: "\<bar>s * 2 ^ 52\<bar> < (2::int) ^ 53" using s(2) by (simp add: abs_mult)
    from e e970 have "- 1074 \<le> e + 1" "e + 1 \<le> 971" by simp_all
    then show ?thesis by (rule is_doubleI [OF yy b])
  qed
qed

lemma round_double_idem: "round_double x = Fin y \<Longrightarrow> round_double y = Fin y"
  by (rule round_double_representable [OF round_double_is_double])

lemma round_double_sign:
  assumes "on_grid a" "on_grid b"
  shows "js_lt (Fin 0) (round_double (a - b)) \<longleftrightarrow> b < a"
    and "js_lt (round_double (a - b)) (Fin 0) \<longleftrightarrow> a < b"
    and "round_double (a - b) = Fin 0 \<longleftrightarrow> a = b"
proof -
  consider "b < a" | "a = b" | "a < b" by linarith
  then have "(js_lt (Fin 0) (round_double (a - b)) \<longleftrightarrow> b < a) \<and>
    (js_lt (round_double (a - b)) (Fin 0) \<longleftrightarrow> a < b) \<and>
    (round_double (a - b) = Fin 0 \<longleftrightarrow> a = b)"
  proof cases
    case 1
    from round_double_positive [OF grid_gap [OF assms 1]] 1 show ?thesis by auto
  next
    case 2
    then show ?thesis by simp
  next
    case 3
    from grid_gap [OF assms(2,1) 3] have "a - b \<le> - (2 powr (- 1074))" by simp
    from round_double_negative [OF this] 3 show ?thesis by auto
  qed
  then show "js_lt (Fin 0) (round_double (a - b)) \<longleftrightarrow> b < a"
    and "js_lt (round_double (a - b)) (Fin 0) \<longleftrightarrow> a < b"
    and "round_double (a - b) = Fin 0 \<longleftrightarrow> a = b" by simp_all
qed

lemma round_double_numeral [simp]:
  "(numeral k :: int) < 2 ^ 53 \<Longrightarrow> round_double (numeral k) = Fin (numeral k)"
  using round_double_representable [OF is_double_of_int [of "numeral k"]] by simp

lemma round_double_neg_numeral [simp]:
  "(numeral k :: int) < 2 ^ 53 \<Longrightarrow> round_double (- numeral k) = Fin (- numeral k)"
  using round_double_representable [OF is_double_of_int [of "- numeral k"]] by simp

lemma round_double_1 [simp]: "round_double 1 = Fin 1"
  using round_double_representable [OF is_double_of_int [of 1]] by simp

lemma round_double_neg_1 [simp]: "round_double (- 1) = Fin (- 1)"
  using round_double_representable [OF is_double_of_int [of "- 1"]] by simp


lemma Math_sqrt_range:
  "Math_sqrt x = NaN \<or> Math_sqrt x = PInf \<or> (\<exists>a. Math_sqrt x = Fin a \<and> on_grid a \<and> 0 \<le> a)"
proof (cases x)
  case (Fin a)
  show ?thesis
  proof (cases "a < 0")
    case True
    with Fin show ?thesis by simp
  next
    case False
    then have "0 \<le> sqrt a" by simp
    from round_double_nonneg [OF this] Fin False round_double_on_grid show ?thesis by auto
  qed
qed simp_all


section \<open>The centroid\<close>


lemma is_finite_Fin: "is_finite x \<Longrightarrow> x = Fin (the_real x)"
  by (cases x) simp_all

lemma is_finite_double: "is_finite x \<Longrightarrow> is_double (the_real x)"
  by (cases x) simp_all

lemma is_finite_number: "is_finite x \<Longrightarrow> is_number x"
  by (cases x) simp_all

lemma js_add_zero: "is_number x \<Longrightarrow> js_add (Fin 0) x = x"
  by (cases x) (simp_all add: round_double_representable)

lemma js_div_one: "is_number x \<Longrightarrow> js_div x (Fin 1) = x"
  by (cases x) (simp_all add: round_double_representable)

lemma field_sum:
  "foldl (\<lambda>sum f. js_add sum (g f)) (Fin 0) fs = double_sum (map g fs)"
  by (simp add: double_sum_def foldl_map)

lemma computeCentroid_double_mean:
  "computeCentroid fs =
     \<lparr> tempo = double_mean (map tempo fs), energy = double_mean (map energy fs),
       danceability = double_mean (map danceability fs),
       valence = double_mean (map valence fs) \<rparr>"
  by (simp add: computeCentroid_def Let_def field_sum double_mean_def)

lemma computeCentroid_single:
  assumes "number_features v"
  shows "computeCentroid [v] = v"
  using assms
  by (simp add: computeCentroid_def number_features_def js_add_zero js_div_one)

lemma computeCentroid_empty: "computeCentroid [] = nan_features"
  by (simp add: computeCentroid_def nan_features_def)

lemma double_sum_exact:
  assumes "\<forall>k\<le>length xs. is_double (sum_list (take k xs))"
  shows "double_sum (map Fin xs) = Fin (sum_list xs)"
  using assms
proof (induction xs rule: rev_induct)
  case Nil
  then show ?case by (simp add: double_sum_def)
next
  case (snoc x xs)
  have "\<forall>k\<le>length xs. is_double (sum_list (take k xs))"
  proof (intro allI impI)
    fix k assume k: "k \<le> length xs"
    then have "k \<le> length (xs @ [x])" by simp
    with snoc.prems have "is_double (sum_list (take k (xs @ [x])))" by blast
    with k show "is_double (sum_list (take k xs))" by simp
  qed
  with snoc.IH have s: "double_sum (map Fin xs) = Fin (sum_list xs)" by blast
  from snoc.prems have "is_double (sum_list (take (length (xs @ [x])) (xs @ [x])))" by blast
  then have d: "is_double (sum_list xs + x)" by simp
  have "double_sum (map Fin (xs @ [x])) = js_add (double_sum (map Fin xs)) (Fin x)"
    by (simp add: double_sum_def)
  also have "\<dots> = Fin (sum_list xs + x)"
    by (simp add: s round_double_representable [OF d])
  finally show ?case by simp
qed

lemma double_mean_exact:
  assumes "xs \<noteq> []" "exact_mean xs"
  shows "double_mean (map Fin xs) = Fin (arithmetic_mean xs)"
proof -
  from assms(2) have s: "double_sum (map Fin xs) = Fin (sum_list xs)"
    and d: "is_double (arithmetic_mean xs)"
    by (simp_all add: exact_mean_def double_sum_exact)
  from assms(1) have "real (length xs) \<noteq> 0" by simp
  then have "double_mean (map Fin xs) = round_double (sum_list xs / real (length xs))"
    by (simp add: double_mean_def s)
  also have "\<dots> = Fin (arithmetic_mean xs)"
    using round_double_representable [OF d] by (simp add: arithmetic_mean_def)
  finally show ?thesis .
qed

lemma field_values:
  assumes "\<forall>v\<in>set vs. is_finite (g v)"
  shows "map g vs = map Fin (field_reals g vs)"
  using assms by (simp add: field_reals_def is_finite_Fin)

lemma field_mean:
  assumes "vs \<noteq> []" "\<forall>v\<in>set vs. is_finite (g v)" "exact_mean (field_reals g vs)"
  shows "double_mean (map g vs) = Fin (arithmetic_mean (field_reals g vs))"
proof -
  from assms(1) have "field_reals g vs \<noteq> []" by (simp add: field_reals_def)
  from double_mean_exact [OF this assms(3)] show ?thesis
    by (simp add: field_values [OF assms(2)])
qed

lemma is_double_small: "is_double 0" "is_double 1"
  using is_double_of_int [of 0] is_double_of_int [of 1] by simp_all

lemma is_double_numeral: "(numeral k :: int) < 2 ^ 53 \<Longrightarrow> is_double (numeral k)"
  using is_double_of_int [of "numeral k"] by simp

lemma is_double_huge: "is_double huge"
  unfolding huge_def by (rule is_doubleI [of _ "2 ^ 52" 971]) (simp_all add: powr_numeral)

lemma huge_overflow: "round_double (huge + huge) = PInf" "round_double (2 * huge) = PInf"
  unfolding huge_def by (rule round_double_overflow, simp)+

lemma is_double_coarse: "is_double coarse" "is_double (coarse / 2)"
proof -
  show "is_double coarse"
    unfolding coarse_def by (rule is_doubleI [of _ "2 ^ 52" 2]) (simp_all add: powr_numeral)
  show "is_double (coarse / 2)"
    unfolding coarse_def by (rule is_doubleI [of _ "2 ^ 52" 1]) simp_all
qed

lemma coarse_rounded: "round_double (coarse + 1) = Fin coarse"
proof -
  have "round_double (coarse + 1) = Fin (of_int (2 ^ 52) * 2 powr of_int 2)"
    unfolding coarse_def
    by (rule round_double_eval [where E = 54]) (simp_all add: powr_numeral)
  then show ?thesis by (simp add: powr_numeral coarse_def)
qed

text \<open>
  C2, as stated, fails on the code. On the empty sequence \<^verbatim>\<open>computeCentroid\<close> does not
  fail: every field is \<^verbatim>\<open>0 / 0\<close>, and it returns the vector of four \<^verbatim>\<open>NaN\<close>. On a
  sequence that is not empty the mean is not always the exact one: the sum of the tempos
  \<open>huge\<close> and \<open>huge\<close> is \<^verbatim>\<open>Infinity\<close>, and so is the mean that the code returns; the sum
  of the tempos \<open>coarse\<close> and \<open>1\<close> is rounded to \<open>coarse\<close>, and the code returns
  \<open>coarse / 2\<close> where the mean is \<open>coarse / 2 + 1 / 2\<close>.
\<close>

theorem computeCentroid_counterexample:
  "computeCentroid [] = nan_features \<and>
   spec_computeCentroid [] = Inl InvalidInput \<and>
   finite_features (vec huge) \<and>
   tempo (computeCentroid [vec huge, vec huge]) = PInf \<and>
   arithmetic_mean (field_reals tempo [vec huge, vec huge]) = huge \<and>
   finite_features (vec coarse) \<and> finite_features (vec 1) \<and>
   tempo (computeCentroid [vec coarse, vec 1]) = Fin (coarse / 2) \<and>
   arithmetic_mean (field_reals tempo [vec coarse, vec 1]) = coarse / 2 + 1 / 2"
proof -
  have a: "tempo (computeCentroid [vec huge, vec huge]) = PInf"
    by (simp add: computeCentroid_def vec_def huge_overflow
          round_double_representable [OF is_double_huge])
  have b: "tempo (computeCentroid [vec coarse, vec 1]) = Fin (coarse / 2)"
    by (simp add: computeCentroid_def vec_def coarse_rounded
          round_double_representable [OF is_double_coarse(1)]
          round_double_representable [OF is_double_coarse(2)])
  have c: "finite_features (vec huge)" "finite_features (vec coarse)"
    "finite_features (vec 1)"
    using is_double_small is_double_huge is_double_coarse
    by (simp_all add: finite_features_def vec_def)
  have d: "arithmetic_mean (field_reals tempo [vec huge, vec huge]) = huge"
    "arithmetic_mean (field_reals tempo [vec coarse, vec 1]) = coarse / 2 + 1 / 2"
    by (simp_all add: arithmetic_mean_def field_reals_def vec_def add_divide_distrib)
  from a b c d show ?thesis
    by (simp add: computeCentroid_empty spec_computeCentroid_def)
qed

text \<open>
  C2, amended: \<^verbatim>\<open>computeCentroid\<close> returns, per field, the mean evaluated in doubles: the
  running sum from \<open>0\<close>, divided by the length. For a sequence of finite vectors that is
  not empty this is the exact arithmetic mean whenever the running sums and the quotient
  are doubles, so that nothing is rounded. \<open>computeCentroid [v] = v\<close> for every vector
  \<open>v\<close> of numbers. On the empty sequence the result is the vector of four \<^verbatim>\<open>NaN\<close>.
\<close>

theorem computeCentroid_mean:
  "computeCentroid vs =
     \<lparr> tempo = double_mean (map tempo vs), energy = double_mean (map energy vs),
       danceability = double_mean (map danceability vs),
       valence = double_mean (map valence vs) \<rparr> \<and>
   (vs \<noteq> [] \<and> (\<forall>v\<in>set vs. finite_features v) \<and>
    exact_mean (field_reals tempo vs) \<and> exact_mean (field_reals energy vs) \<and>
    exact_mean (field_reals danceability vs) \<and> exact_mean (field_reals valence vs) \<longrightarrow>
      spec_computeCentroid vs = Inr (computeCentroid vs)) \<and>
   (number_features v \<longrightarrow> computeCentroid [v] = v) \<and>
   computeCentroid [] = nan_features"
proof (intro conjI impI)
  show "computeCentroid vs =
     \<lparr> tempo = double_mean (map tempo vs), energy = double_mean (map energy vs),
       danceability = double_mean (map danceability vs),
       valence = double_mean (map valence vs) \<rparr>"
    by (rule computeCentroid_double_mean)
  show "computeCentroid [] = nan_features" by (rule computeCentroid_empty)
  show "computeCentroid [v] = v" if "number_features v"
    using that by (rule computeCentroid_single)
  assume a: "vs \<noteq> [] \<and> (\<forall>v\<in>set vs. finite_features v) \<and>
    exact_mean (field_reals tempo vs) \<and> exact_mean (field_reals energy vs) \<and>
    exact_mean (field_reals danceability vs) \<and> exact_mean (field_reals valence vs)"
  then have ne: "vs \<noteq> []" by simp
  from a have f: "\<forall>v\<in>set vs. is_finite (tempo v)" "\<forall>v\<in>set vs. is_finite (energy v)"
    "\<forall>v\<in>set vs. is_finite (danceability v)" "\<forall>v\<in>set vs. is_finite (valence v)"
    by (simp_all add: finite_features_def)
  from a have "double_mean (map tempo vs) = Fin (arithmetic_mean (field_reals tempo vs))"
    "double_mean (map energy vs) = Fin (arithmetic_mean (field_reals energy vs))"
    "double_mean (map danceability vs) = Fin (arithmetic_mean (field_reals danceability vs))"
    "double_mean (map valence vs) = Fin (arithmetic_mean (field_reals valence vs))"
    using field_mean [OF ne f(1)] field_mean [OF ne f(2)] field_mean [OF ne f(3)]
      field_mean [OF ne f(4)] by simp_all
  then show "spec_computeCentroid vs = Inr (computeCentroid vs)"
    using ne by (simp add: spec_computeCentroid_def computeCentroid_double_mean)
qed

lemma exact_mean_pair:
  assumes "is_double a" "is_double (a + b)" "is_double ((a + b) / 2)"
  shows "exact_mean [a, b]"
proof -
  have "is_double (sum_list (take k [a, b]))" if "k \<le> 2" for k
  proof -
    from that consider "k = 0" | "k = 1" | "k = 2" by linarith
    then show ?thesis using assms is_double_small by cases simp_all
  qed
  with assms(3) show ?thesis by (simp add: exact_mean_def arithmetic_mean_def)
qed

theorem computeCentroid_mean_witness:
  "finite_features (vec 1) \<and> finite_features (vec 3) \<and>
   exact_mean (field_reals tempo [vec 1, vec 3]) \<and>
   arithmetic_mean (field_reals tempo [vec 1, vec 3]) = 2 \<and>
   spec_computeCentroid [vec 1, vec 3] = Inr (vec 2) \<and>
   computeCentroid [vec 1, vec 3] = vec 2 \<and>
   computeCentroid [vec 3] = vec 3 \<and>
   computeCentroid [nan_features] = nan_features"
proof -
  have f: "finite_features (vec 1)" "finite_features (vec 3)"
    using is_double_small by (simp_all add: finite_features_def vec_def is_double_numeral)
  have n: "number_features (vec 3)" "number_features nan_features"
    using is_double_small
    by (simp_all add: number_features_def vec_def is_double_numeral nan_features_def)
  have t: "exact_mean (field_reals tempo [vec 1, vec 3])"
    using exact_mean_pair [of 1 3] is_double_small
    by (simp add: field_reals_def vec_def is_double_numeral)
  have z: "exact_mean [0, 0]"
    using exact_mean_pair [of 0 0] is_double_small by simp
  then have o: "exact_mean (field_reals energy [vec 1, vec 3])"
    "exact_mean (field_reals danceability [vec 1, vec 3])"
    "exact_mean (field_reals valence [vec 1, vec 3])"
    by (simp_all add: field_reals_def vec_def)
  have m: "arithmetic_mean (field_reals tempo [vec 1, vec 3]) = 2"
    by (simp add: arithmetic_mean_def field_reals_def vec_def)
  have s: "spec_computeCentroid [vec 1, vec 3] = Inr (vec 2)"
    by (simp add: spec_computeCentroid_def arithmetic_mean_def field_reals_def vec_def)
  have "spec_computeCentroid [vec 1, vec 3] = Inr (computeCentroid [vec 1, vec 3])"
    using computeCentroid_mean [of "[vec 1, vec 3]"] f t o by simp
  with s have c: "computeCentroid [vec 1, vec 3] = vec 2" by simp
  have "computeCentroid [vec 3] = vec 3" "computeCentroid [nan_features] = nan_features"
    using computeCentroid_mean [of _ "vec 3"] computeCentroid_mean [of _ nan_features] n
    by blast+
  with f t m s c show ?thesis by blast
qed


section \<open>The weights\<close>

lemma round_micro: "round_double (1 / 1000000) = Fin micro"
proof -
  have "round_double (1 / 1000000) = Fin (of_int 4722366482869645 * 2 powr of_int (- 72))"
    by (rule round_double_eval [where E = "- 20"]) (simp_all add: powr_minus_divide)
  then show ?thesis by (simp add: micro_def powr_minus_divide)
qed

lemma default_epsilon_micro: "default_epsilon = Fin micro"
  by (simp add: default_epsilon_def round_micro)

lemma is_double_micro: "is_double micro"
  unfolding micro_def
  by (rule is_doubleI [of _ 4722366482869645 "- 72"]) (simp_all add: powr_minus_divide)

lemma micro_near: "\<bar>micro - 1 / 1000000\<bar> < 1 / 2 ^ 73"
  by (simp add: micro_def)

lemma round_above_one: "round_double (1 + micro) = Fin above_one"
proof -
  have "round_double (1 + micro) = Fin (of_int 4503604130970123 * 2 powr of_int (- 52))"
    unfolding micro_def
    by (rule round_double_eval [where E = 0]) (simp_all add: powr_minus_divide)
  then show ?thesis by (simp add: above_one_def powr_minus_divide)
qed

lemma round_near_one: "round_double (1 / above_one) = Fin near_one"
proof -
  have "round_double (1 / above_one) = Fin (of_int 9007190247550745 * 2 powr of_int (- 53))"
    unfolding above_one_def
    by (rule round_double_eval [where E = "- 1"]) (simp_all add: powr_minus_divide)
  then show ?thesis by (simp add: near_one_def powr_minus_divide)
qed

lemma round_million: "round_double (1 / micro) = Fin 1000000"
proof -
  have "round_double (1 / micro) = Fin (of_int 8589934592000000 * 2 powr of_int (- 33))"
    unfolding micro_def
    by (rule round_double_eval [where E = 19]) (simp_all add: powr_minus_divide)
  then show ?thesis by (simp add: powr_minus_divide)
qed

lemma field_square_sum:
  "foldl (\<lambda>sum f. js_add sum (Math_pow (js_sub (g f) m) 2)) (Fin 0) fs =
     double_sum (map (\<lambda>x. Math_pow (js_sub x m) 2) (map g fs))"
  by (simp add: double_sum_def foldl_map)

lemma computeDynamicWeights_few:
  "length fs < 2 \<Longrightarrow> computeDynamicWeights fs eps = unit_weights"
  by (simp add: computeDynamicWeights_def unit_weights_def Let_def)

lemma computeDynamicWeights_many:
  assumes "2 \<le> length fs"
  shows "computeDynamicWeights fs eps =
     \<lparr> tempo = spec_weight (map tempo fs) (case eps of None \<Rightarrow> default_epsilon | Some e \<Rightarrow> e),
       energy = spec_weight (map energy fs) (case eps of None \<Rightarrow> default_epsilon | Some e \<Rightarrow> e),
       danceability =
         spec_weight (map danceability fs) (case eps of None \<Rightarrow> default_epsilon | Some e \<Rightarrow> e),
       valence = spec_weight (map valence fs) (case eps of None \<Rightarrow> default_epsilon | Some e \<Rightarrow> e) \<rparr>"
proof -
  from assms have n: "\<not> length fs < 2" by simp
  show ?thesis
    unfolding computeDynamicWeights_def Let_def
    by (simp only: n if_False field_square_sum computeCentroid_double_mean
          AudioFeatures.simps spec_weight_def double_variance_def length_map)
qed

lemma double_mean_pair_exact:
  assumes "is_double a" "is_double (a + b)" "is_double ((a + b) / 2)"
  shows "double_mean [Fin a, Fin b] = Fin ((a + b) / 2)"
  using assms by (simp add: double_mean_def double_sum_def round_double_representable)

lemma example_variance:
  "double_mean [Fin 1, Fin 3] = Fin 2" "double_variance [Fin 1, Fin 3] = Fin 1"
  "double_mean [Fin 0, Fin 0] = Fin 0" "double_variance [Fin 0, Fin 0] = Fin 0"
proof -
  show m: "double_mean [Fin 1, Fin 3] = Fin 2"
    by (simp add: double_mean_def double_sum_def)
  show "double_variance [Fin 1, Fin 3] = Fin 1"
    unfolding double_variance_def m by (simp add: double_sum_def)
  show z: "double_mean [Fin 0, Fin 0] = Fin 0"
    by (simp add: double_mean_def double_sum_def)
  show "double_variance [Fin 0, Fin 0] = Fin 0"
    unfolding double_variance_def z by (simp add: double_sum_def)
qed

lemma example_weights:
  "computeDynamicWeights [vec 1, vec 3] None =
     \<lparr> tempo = Fin near_one, energy = Fin 1000000, danceability = Fin 1000000,
       valence = Fin 1000000 \<rparr>"
proof -
  have m: "micro \<noteq> 0" "1 + micro \<noteq> 0" "above_one \<noteq> 0"
    by (simp_all add: micro_def above_one_def)
  have "spec_weight [Fin 1, Fin 3] (Fin micro) = Fin near_one"
    using m by (simp add: spec_weight_def example_variance round_above_one round_near_one)
  moreover have "spec_weight [Fin 0, Fin 0] (Fin micro) = Fin 1000000"
    using m
    by (simp add: spec_weight_def example_variance round_million
          round_double_representable [OF is_double_micro])
  ultimately show ?thesis
    by (simp add: computeDynamicWeights_many default_epsilon_micro vec_def)
qed

lemma huge_weight: "spec_weight [Fin huge, Fin huge] (Fin micro) = Fin 0"
proof -
  have m: "double_mean [Fin huge, Fin huge] = PInf"
    by (simp add: double_mean_def double_sum_def huge_overflow
          round_double_representable [OF is_double_huge])
  have "double_variance [Fin huge, Fin huge] = PInf"
    unfolding double_variance_def m by (simp add: double_sum_def)
  then show ?thesis by (simp add: spec_weight_def)
qed

text \<open>
  C5, as stated, fails on the code for two or more vectors: the weight is not
  \<open>1 / (variance + epsilon)\<close> but what the double operations of the code give for it.
  For the tempos \<open>1\<close> and \<open>3\<close> the population variance is \<open>1\<close> and the code returns
  \<open>near_one\<close>, the double \<^verbatim>\<open>0.9999990000010001\<close>, which is not \<open>1 / (1 + 1/1000000)\<close>. For
  the tempos \<open>huge\<close> and \<open>huge\<close> the variance is \<open>0\<close>, the formula gives \<open>1000000\<close>, and the
  code returns \<open>0\<close>, because the sum of the tempos is \<^verbatim>\<open>Infinity\<close>.
\<close>

theorem computeDynamicWeights_counterexample:
  "finite_features (vec 1) \<and> finite_features (vec 3) \<and>
   tempo (computeDynamicWeights [vec 1, vec 3] None) = Fin near_one \<and>
   1 / (population_variance (field_reals tempo [vec 1, vec 3]) + 1 / 1000000) =
     1000000 / 1000001 \<and>
   near_one \<noteq> 1000000 / 1000001 \<and>
   finite_features (vec huge) \<and>
   tempo (computeDynamicWeights [vec huge, vec huge] None) = Fin 0 \<and>
   1 / (population_variance (field_reals tempo [vec huge, vec huge]) + 1 / 1000000) = 1000000"
proof -
  have f: "finite_features (vec 1)" "finite_features (vec 3)" "finite_features (vec huge)"
    using is_double_small is_double_huge
    by (simp_all add: finite_features_def vec_def is_double_numeral)
  have a: "tempo (computeDynamicWeights [vec 1, vec 3] None) = Fin near_one"
    by (simp add: example_weights)
  have b: "1 / (population_variance (field_reals tempo [vec 1, vec 3]) + 1 / 1000000) =
     1000000 / 1000001"
    by (simp add: population_variance_def arithmetic_mean_def field_reals_def vec_def)
  have c: "near_one \<noteq> 1000000 / 1000001" by (simp add: near_one_def)
  have d: "tempo (computeDynamicWeights [vec huge, vec huge] None) = Fin 0"
    by (simp add: computeDynamicWeights_many default_epsilon_micro vec_def huge_weight)
  have e: "1 / (population_variance (field_reals tempo [vec huge, vec huge]) + 1 / 1000000) =
      1000000"
    by (simp add: population_variance_def arithmetic_mean_def field_reals_def vec_def)
  from f a b c d e show ?thesis by blast
qed

text \<open>
  C5, amended: for fewer than two vectors, whatever they hold and whatever \<open>epsilon\<close>
  is, every weight is \<open>1\<close>. For two or more, the weight of a field is
  \<open>1 / (variance + epsilon)\<close> evaluated in doubles, operation by operation: the mean of
  the field, the sum of the squared differences to it divided by the number of vectors,
  \<open>epsilon\<close> added, and the inverse. \<open>epsilon\<close> is \<open>micro\<close>, the double nearest to
  \<open>1/1000000\<close>, when the caller gives none.
\<close>

theorem computeDynamicWeights_spec:
  "(length vs < 2 \<longrightarrow> computeDynamicWeights vs eps = unit_weights) \<and>
   (2 \<le> length vs \<longrightarrow>
      computeDynamicWeights vs eps =
        \<lparr> tempo =
            spec_weight (map tempo vs) (case eps of None \<Rightarrow> Fin micro | Some e \<Rightarrow> e),
          energy =
            spec_weight (map energy vs) (case eps of None \<Rightarrow> Fin micro | Some e \<Rightarrow> e),
          danceability =
            spec_weight (map danceability vs) (case eps of None \<Rightarrow> Fin micro | Some e \<Rightarrow> e),
          valence =
            spec_weight (map valence vs) (case eps of None \<Rightarrow> Fin micro | Some e \<Rightarrow> e) \<rparr>) \<and>
   is_double micro \<and> \<bar>micro - 1 / 1000000\<bar> < 1 / 2 ^ 73"
  using computeDynamicWeights_few [of vs eps] computeDynamicWeights_many [of vs eps]
    is_double_micro micro_near
  by (cases eps) (simp_all add: default_epsilon_micro)

theorem computeDynamicWeights_spec_witness:
  "computeDynamicWeights [] None = unit_weights \<and>
   computeDynamicWeights [nan_features] (Some NaN) = unit_weights \<and>
   double_variance (map tempo [vec 1, vec 3]) = Fin (population_variance [1, 3]) \<and>
   computeDynamicWeights [vec 1, vec 3] None =
     \<lparr> tempo = Fin near_one, energy = Fin 1000000, danceability = Fin 1000000,
       valence = Fin 1000000 \<rparr> \<and>
   computeDynamicWeights [vec 1, vec 3] (Some (Fin 1)) =
     \<lparr> tempo = Fin (1 / 2), energy = Fin 1, danceability = Fin 1, valence = Fin 1 \<rparr>"
proof -
  have a: "computeDynamicWeights [] None = unit_weights"
    "computeDynamicWeights [nan_features] (Some NaN) = unit_weights"
    using computeDynamicWeights_spec [of "[]" None]
      computeDynamicWeights_spec [of "[nan_features]" "Some NaN"] by simp_all
  have v: "double_variance (map tempo [vec 1, vec 3]) = Fin (population_variance [1, 3])"
    by (simp add: vec_def example_variance population_variance_def arithmetic_mean_def)
  have m: "micro \<noteq> 0" "1 + micro \<noteq> 0" "above_one \<noteq> 0"
    by (simp_all add: micro_def above_one_def)
  have h: "round_double (1 / 2) = Fin (1 / 2)"
    by (rule round_double_representable, rule is_doubleI [of _ 1 "- 1"])
      (simp_all add: powr_minus_divide)
  have b: "computeDynamicWeights [vec 1, vec 3] None =
     \<lparr> tempo = Fin near_one, energy = Fin 1000000, danceability = Fin 1000000,
       valence = Fin 1000000 \<rparr>"
    using computeDynamicWeights_spec [of "[vec 1, vec 3]" None] m
    by (simp add: vec_def spec_weight_def example_variance round_above_one round_near_one
          round_million round_double_representable [OF is_double_micro])
  have c: "computeDynamicWeights [vec 1, vec 3] (Some (Fin 1)) =
     \<lparr> tempo = Fin (1 / 2), energy = Fin 1, danceability = Fin 1, valence = Fin 1 \<rparr>"
    using computeDynamicWeights_spec [of "[vec 1, vec 3]" "Some (Fin 1)"]
    by (simp add: vec_def spec_weight_def example_variance h)
  from a v b c show ?thesis by blast
qed



section \<open>The distance\<close>




lemma distance_range:
  "distance p c w = NaN \<or> distance p c w = PInf \<or>
   (\<exists>a. distance p c w = Fin a \<and> on_grid a \<and> 0 \<le> a)"
  unfolding distance_def by (rule Math_sqrt_range)









section \<open>Unfolding rank-queue\<close>


lemma select_result_simps:
  "error (select_result None rows) = None"
  "data (select_result None rows) = Some rows"
  "error (select_result (Some m) rows) = Some m"
  "data (select_result (Some m) rows) = None"
  by (simp_all add: select_result_def)

lemma rank_queue_reached:
  assumes "reaches_store e req sid"
  shows "rank_queue e req =
     (case queue_select_error e of
        Some msg \<Rightarrow> rank_failure e (''Failed to fetch queue: '' @ msg)
      | None \<Rightarrow>
          if queued_rows e sid = [] then rank_message e True ''Queue is empty''
          else if length (ranking_pool e req sid) \<le> 2 then
            rank_message e True ''Not enough songs to rank''
          else if reference_features e (ranking_pool e req sid) = [] then
            rank_message e False ''Reference songs not found in dataset''
          else
            \<lparr> response =
                \<lparr> http_status = 200,
                  body = Json
                    \<lparr> success = True, message = None, error_message = None,
                      report = Some
                        \<lparr> ranked_count = length (ranked_songs e req sid),
                          total_songs = length (ranked_songs e req sid) + first_position e req sid,
                          currently_playing_excluded = (pinned_song e req sid \<noteq> None),
                          songs_with_features =
                            length (filter (\<lambda>s. song_features s \<noteq> None) (ranked_songs e req sid)),
                          songs_not_found =
                            length (filter (\<lambda>s. getFeaturesFromDataset e (song_title s) = None)
                                      (ranking_pool e req sid)),
                          not_found_songs =
                            map song_title
                              (filter (\<lambda>s. getFeaturesFromDataset e (song_title s) = None)
                                 (ranking_pool e req sid)),
                          reference_songs_used =
                            length (reference_features e (ranking_pool e req sid)),
                          report_centroid = pass_centroid e req sid,
                          report_weights = pass_weights e req sid \<rparr> \<rparr> \<rparr>,
              updatePromises =
                (case pinned_song e req sid of
                   None \<Rightarrow> position_updates 0 (ranked_songs e req sid)
                 | Some playing \<Rightarrow> (row_id playing, 0) # position_updates 1 (ranked_songs e req sid)),
              queue_after =
                foldl update_pos (queue e)
                  (case pinned_song e req sid of
                     None \<Rightarrow> position_updates 0 (ranked_songs e req sid)
                   | Some playing \<Rightarrow>
                       (row_id playing, 0) # position_updates 1 (ranked_songs e req sid)) \<rparr>)"
proof -
  obtain cp pool where sp: "separate_playing (currently_playing_uri req) (queued_rows e sid) = (cp, pool)"
    by (cases "separate_playing (currently_playing_uri req) (queued_rows e sid)")
  show ?thesis
    using assms
    by (cases "queue_select_error e")
       (simp_all add: rank_queue_def reaches_store_def select_queued_def select_result_simps
          Let_def sp ranking_pool_def pinned_song_def ranked_songs_def pass_centroid_def
          pass_weights_def first_position_def split: option.splits)
qed



section \<open>Sorting, position updates\<close>

lemma set_insert_sorted: "set (insert_sorted cmp x ys) = insert x (set ys)"
  by (induction ys) auto

lemma mset_insert_sorted: "mset (insert_sorted cmp x ys) = add_mset x (mset ys)"
  by (induction ys) auto

lemma mset_insertion_sort: "mset (foldr (insert_sorted cmp) xs []) = mset xs"
  by (induction xs) (simp_all add: mset_insert_sorted)

lemma mset_array_sort: "mset (array_sort engine cmp xs) = mset xs"
  by (simp add: array_sort_def mset_insertion_sort)

lemma set_array_sort: "set (array_sort engine cmp xs) = set xs"
  using mset_array_sort [of engine cmp xs] by (metis set_mset_mset)

text \<open>
  A comparison function that compares by a key in a linear order is consistent, and the
  sort with it is the stable sort by that key.
\<close>

lemma consistent_by_key:
  fixes k :: "'a \<Rightarrow> 'k::linorder"
  assumes "\<And>x y. x \<in> set xs \<Longrightarrow> y \<in> set xs \<Longrightarrow> cmp x y \<noteq> NaN"
    and "\<And>x y. x \<in> set xs \<Longrightarrow> y \<in> set xs \<Longrightarrow> js_lt (Fin 0) (cmp x y) \<longleftrightarrow> k y < k x"
    and "\<And>x y. x \<in> set xs \<Longrightarrow> y \<in> set xs \<Longrightarrow> js_lt (cmp x y) (Fin 0) \<longleftrightarrow> k x < k y"
    and "\<And>x y. x \<in> set xs \<Longrightarrow> y \<in> set xs \<Longrightarrow> cmp x y = Fin 0 \<longleftrightarrow> k x = k y"
  shows "consistent_comparator cmp xs"
  unfolding consistent_comparator_def answers_less_def answers_greater_def answers_equal_def
proof (intro conjI ballI impI)
  fix a b c
  assume m: "a \<in> set xs" "b \<in> set xs" "c \<in> set xs"
  show "cmp a b \<noteq> NaN" using assms(1) m by blast
  show "cmp a a = Fin 0" using assms(4) m by blast
  show "cmp b a = Fin 0" if "cmp a b = Fin 0" using assms(4) m that by simp
  show "cmp a c = Fin 0" if "cmp a b = Fin 0 \<and> cmp b c = Fin 0"
    using assms(4) m that by simp
  show "js_lt (cmp a c) (Fin 0)" if "js_lt (cmp a b) (Fin 0) \<and> js_lt (cmp b c) (Fin 0)"
  proof -
    from that m have "k a < k b" "k b < k c" by (simp_all add: assms(3))
    then have "k a < k c" by (rule less_trans)
    with m show ?thesis by (simp add: assms(3))
  qed
  show "js_lt (Fin 0) (cmp a c)" if "js_lt (Fin 0) (cmp a b) \<and> js_lt (Fin 0) (cmp b c)"
  proof -
    from that m have "k b < k a" "k c < k b" by (simp_all add: assms(2))
    then have "k c < k a" by (rule less_trans [rotated])
    with m show ?thesis by (simp add: assms(2))
  qed
qed

lemma insert_sorted_insort_key:
  fixes k :: "'a \<Rightarrow> 'k::linorder"
  assumes "\<And>y. y \<in> set ys \<Longrightarrow> js_lt (Fin 0) (cmp x y) \<longleftrightarrow> k y < k x"
  shows "insert_sorted cmp x ys = insort_key k x ys"
  using assms
proof (induction ys)
  case Nil
  then show ?case by simp
next
  case (Cons y ys)
  have "js_lt (Fin 0) (cmp x y) \<longleftrightarrow> \<not> k x \<le> k y"
    using Cons.prems [of y] by (simp add: not_le)
  moreover have "insert_sorted cmp x ys = insort_key k x ys"
    by (rule Cons.IH) (simp add: Cons.prems)
  ultimately show ?case by simp
qed

lemma insertion_sort_key:
  fixes k :: "'a \<Rightarrow> 'k::linorder"
  assumes "\<And>x y. x \<in> set xs \<Longrightarrow> y \<in> set xs \<Longrightarrow> js_lt (Fin 0) (cmp x y) \<longleftrightarrow> k y < k x"
  shows "foldr (insert_sorted cmp) xs [] = sort_key k xs"
  using assms
proof (induction xs)
  case Nil
  then show ?case by simp
next
  case (Cons x xs)
  have "foldr (insert_sorted cmp) xs [] = sort_key k xs"
    by (rule Cons.IH) (simp add: Cons.prems)
  moreover have "insert_sorted cmp x (sort_key k xs) = insort_key k x (sort_key k xs)"
    by (rule insert_sorted_insort_key) (simp add: Cons.prems)
  ultimately show ?case by simp
qed

lemma array_sort_by_key:
  fixes k :: "'a \<Rightarrow> 'k::linorder"
  assumes "\<And>x y. x \<in> set xs \<Longrightarrow> y \<in> set xs \<Longrightarrow> cmp x y \<noteq> NaN"
    and "\<And>x y. x \<in> set xs \<Longrightarrow> y \<in> set xs \<Longrightarrow> js_lt (Fin 0) (cmp x y) \<longleftrightarrow> k y < k x"
    and "\<And>x y. x \<in> set xs \<Longrightarrow> y \<in> set xs \<Longrightarrow> js_lt (cmp x y) (Fin 0) \<longleftrightarrow> k x < k y"
    and "\<And>x y. x \<in> set xs \<Longrightarrow> y \<in> set xs \<Longrightarrow> cmp x y = Fin 0 \<longleftrightarrow> k x = k y"
  shows "array_sort engine cmp xs = sort_key k xs"
proof -
  have "consistent_comparator cmp xs" using assms by (rule consistent_by_key)
  moreover have "foldr (insert_sorted cmp) xs [] = sort_key k xs"
    using assms(2) by (rule insertion_sort_key)
  ultimately show ?thesis by (simp add: array_sort_def)
qed

lemma compare_ranked_key:
  assumes "scored x" "scored y"
  shows "compare_ranked x y \<noteq> NaN"
    and "js_lt (Fin 0) (compare_ranked x y) \<longleftrightarrow> rank_key y < rank_key x"
    and "js_lt (compare_ranked x y) (Fin 0) \<longleftrightarrow> rank_key x < rank_key y"
    and "compare_ranked x y = Fin 0 \<longleftrightarrow> rank_key x = rank_key y"
proof -
  from assms consider
      "dist x = PInf" "dist y = PInf"
    | a where "dist x = PInf" "dist y = Fin a"
    | a where "dist x = Fin a" "dist y = PInf"
    | a b where "dist x = Fin a" "on_grid a" "dist y = Fin b" "on_grid b"
    unfolding scored_def by blast
  then have "compare_ranked x y \<noteq> NaN \<and>
    (js_lt (Fin 0) (compare_ranked x y) \<longleftrightarrow> rank_key y < rank_key x) \<and>
    (js_lt (compare_ranked x y) (Fin 0) \<longleftrightarrow> rank_key x < rank_key y) \<and>
    (compare_ranked x y = Fin 0 \<longleftrightarrow> rank_key x = rank_key y)"
  proof cases
    case 4
    from round_double_sign [OF 4(2,4)] round_double_not_NaN [of "a - b"] 4 show ?thesis
      by (simp add: compare_ranked_def rank_key_def)
  qed (simp_all add: compare_ranked_def rank_key_def)
  then show "compare_ranked x y \<noteq> NaN"
    and "js_lt (Fin 0) (compare_ranked x y) \<longleftrightarrow> rank_key y < rank_key x"
    and "js_lt (compare_ranked x y) (Fin 0) \<longleftrightarrow> rank_key x < rank_key y"
    and "compare_ranked x y = Fin 0 \<longleftrightarrow> rank_key x = rank_key y" by simp_all
qed

lemma array_sort_sort_key:
  assumes "\<forall>x\<in>set xs. scored x"
  shows "array_sort engine compare_ranked xs = sort_key rank_key xs"
  using assms by (intro array_sort_by_key compare_ranked_key) simp_all


lemma position_updates_map:
  "position_updates k rs = map (\<lambda>i. (row_id (song (rs ! i)), int (k + i))) [0..<length rs]"
proof (induction rs arbitrary: k)
  case Nil
  then show ?case by simp
next
  case (Cons r rs)
  have "[0..<length (r # rs)] = 0 # map Suc [0..<length rs]"
    by (simp add: upt_conv_Cons map_Suc_upt del: upt_Suc)
  then show ?case by (simp add: Cons.IH comp_def del: upt_Suc)
qed

lemma fst_position_updates: "map fst (position_updates k rs) = map (\<lambda>r. row_id (song r)) rs"
  by (induction rs arbitrary: k) auto

lemma update_pos_other:
  "row_id r \<notin> fst ` set us \<Longrightarrow> r \<in> set rows \<Longrightarrow> r \<in> set (foldl update_pos rows us)"
proof (induction us arbitrary: rows)
  case Nil
  then show ?case by simp
next
  case (Cons u us)
  from Cons.prems have "r \<in> set (update_pos rows u)"
    by (force simp: update_pos_def)
  with Cons show ?case by simp
qed

lemma row_ids_update_pos: "map row_id (update_pos rows u) = map row_id rows"
  by (simp add: update_pos_def comp_def)

lemma row_ids_foldl_update_pos: "map row_id (foldl update_pos rows us) = map row_id rows"
  by (induction us arbitrary: rows) (simp_all add: row_ids_update_pos)




lemma update_pos_single:
  "q \<in> set (update_pos rows (i, k)) \<Longrightarrow> row_id q = i \<Longrightarrow> pos q = Some k"
proof -
  assume a: "q \<in> set (update_pos rows (i, k))" and b: "row_id q = i"
  from a obtain r where r: "r \<in> set rows"
    and q: "q = (if row_id r = i then r\<lparr> pos := Some k \<rparr> else r)"
    unfolding update_pos_def by auto
  show ?thesis
  proof (cases "row_id r = i")
    case True
    with q show ?thesis by simp
  next
    case False
    with q b show ?thesis by simp
  qed
qed

lemma update_pos_keeps:
  assumes "i \<notin> fst ` set us" "\<forall>q\<in>set rows. row_id q = i \<longrightarrow> pos q = Some k"
  shows "\<forall>q\<in>set (foldl update_pos rows us). row_id q = i \<longrightarrow> pos q = Some k"
  using assms
proof (induction us arbitrary: rows)
  case Nil
  then show ?case by simp
next
  case (Cons v vs)
  from Cons.prems have "\<forall>q\<in>set (update_pos rows v). row_id q = i \<longrightarrow> pos q = Some k"
    by (auto simp: update_pos_def)
  moreover from Cons.prems have "i \<notin> fst ` set vs" by simp
  ultimately have "\<forall>q\<in>set (foldl update_pos (update_pos rows v) vs). row_id q = i \<longrightarrow> pos q = Some k"
    by (rule Cons.IH [rotated])
  then show ?case by simp
qed

lemma update_pos_written:
  assumes "distinct (map fst us)" "(i, k) \<in> set us" "r \<in> set (foldl update_pos rows us)"
    "row_id r = i"
  shows "pos r = Some k"
  using assms
proof (induction us arbitrary: rows)
  case Nil
  then show ?case by simp
next
  case (Cons u us)
  show ?case
  proof (cases "(i, k) \<in> set us")
    case True
    from Cons.prems(1) have d: "distinct (map fst us)" by simp
    from Cons.prems(3) have m: "r \<in> set (foldl update_pos (update_pos rows u) us)" by simp
    show ?thesis by (rule Cons.IH [OF d True m Cons.prems(4)])
  next
    case False
    with Cons.prems(2) have u: "u = (i, k)" by simp
    from Cons.prems(1) have notin: "i \<notin> fst ` set us" by (simp add: u)
    have all: "\<forall>q\<in>set (update_pos rows (i, k)). row_id q = i \<longrightarrow> pos q = Some k"
      using update_pos_single by blast
    from Cons.prems(3) have m: "r \<in> set (foldl update_pos (update_pos rows (i, k)) us)"
      by (simp add: u)
    from update_pos_keeps [OF notin all] m have "row_id r = i \<longrightarrow> pos r = Some k" ..
    with Cons.prems(4) show ?thesis by simp
  qed
qed




section \<open>The distances of a pass\<close>

lemma score_unresolved:
  assumes "getFeaturesFromDataset e (song_title s) = None"
  shows "score e c w s = \<lparr> song = s, song_features = None, dist = PInf \<rparr>"
  using assms by (simp add: score_def)

lemma song_score: "song (score e c w s) = s"
  by (simp add: score_def split: option.splits)

lemma score_features:
  "song_features (score e c w s) = getFeaturesFromDataset e (song_title s)"
  by (simp add: score_def split: option.splits)

lemma score_sentinel: "song_features (score e c w s) = None \<Longrightarrow> dist (score e c w s) = PInf"
  by (simp add: score_def split: option.splits)

lemma score_scored: "dist (score e c w s) \<noteq> NaN \<Longrightarrow> scored (score e c w s)"
proof (cases "getFeaturesFromDataset e (song_title s)")
  case None
  then show ?thesis by (simp add: score_def scored_def)
next
  case (Some f)
  assume "dist (score e c w s) \<noteq> NaN"
  with Some distance_range [of f c w] show ?thesis by (auto simp: score_def scored_def)
qed

lemma scored_pool_scored:
  assumes "no_nan_distance e req sid"
  shows "\<forall>r\<in>set (scored_pool e req sid). scored r"
proof
  fix r assume r: "r \<in> set (scored_pool e req sid)"
  with assms have n: "dist r \<noteq> NaN" by (simp add: no_nan_distance_def)
  from r obtain s where "r = score e (pass_centroid e req sid) (pass_weights e req sid) s"
    by (auto simp: scored_pool_def)
  with n show "scored r" by (simp add: score_scored)
qed

lemma scored_pool_sentinel:
  assumes "r \<in> set (scored_pool e req sid)" "song_features r = None"
  shows "dist r = PInf"
proof -
  from assms(1) obtain s where "r = score e (pass_centroid e req sid) (pass_weights e req sid) s"
    by (auto simp: scored_pool_def)
  with assms(2) show ?thesis by (simp add: score_sentinel)
qed

lemma ranked_songs_sort_key:
  assumes "no_nan_distance e req sid"
  shows "ranked_songs e req sid = sort_key rank_key (scored_pool e req sid)"
  using array_sort_sort_key [OF scored_pool_scored [OF assms]]
  by (simp add: ranked_songs_def rank_songs_def scored_pool_def)

lemma set_ranked_songs: "set (ranked_songs e req sid) = set (scored_pool e req sid)"
  by (simp add: ranked_songs_def rank_songs_def scored_pool_def set_array_sort)

lemma songs_scored_pool: "map song (scored_pool e req sid) = ranking_pool e req sid"
  by (simp add: scored_pool_def comp_def song_score)


section \<open>The ranked songs are the pool\<close>


lemma mset_ranked_songs:
  "mset (map song (ranked_songs e req sid)) = mset (ranking_pool e req sid)"
proof -
  have "mset (ranked_songs e req sid) = mset (scored_pool e req sid)"
    by (simp add: ranked_songs_def rank_songs_def scored_pool_def mset_array_sort)
  then have "mset (map song (ranked_songs e req sid)) = mset (map song (scored_pool e req sid))"
    by (metis mset_map)
  then show ?thesis by (simp add: songs_scored_pool)
qed

lemma length_ranked_songs: "length (ranked_songs e req sid) = length (ranking_pool e req sid)"
  using mset_ranked_songs [of e req sid] by (metis length_map size_mset)

lemma ranked_songs_score:
  assumes "r \<in> set (ranked_songs e req sid)"
  shows "r = score e (pass_centroid e req sid) (pass_weights e req sid) (song r) \<and>
         song r \<in> set (ranking_pool e req sid)"
proof -
  from assms obtain s where "s \<in> set (ranking_pool e req sid)"
    and "r = score e (pass_centroid e req sid) (pass_weights e req sid) s"
    by (auto simp: set_ranked_songs scored_pool_def)
  then show ?thesis by (simp add: song_score)
qed

section \<open>The pinned song and the ranking pool\<close>

lemma separate_playing_cases:
  "(pinned_song e req sid = None \<and> ranking_pool e req sid = queued_rows e sid) \<or>
   (\<exists>uri p. currently_playing_uri req = Some uri \<and> uri \<noteq> [] \<and>
      pinned_song e req sid = Some p \<and>
      find (\<lambda>s. spotify_uri s = uri) (queued_rows e sid) = Some p \<and>
      ranking_pool e req sid = filter (\<lambda>s. spotify_uri s \<noteq> uri) (queued_rows e sid))"
proof (cases "truthy (currently_playing_uri req)")
  case False
  then show ?thesis by (simp add: pinned_song_def ranking_pool_def separate_playing_def)
next
  case True
  then obtain uri where uri: "currently_playing_uri req = Some uri" "uri \<noteq> []"
    by (auto simp: truthy_def split: option.splits)
  show ?thesis
  proof (cases "find (\<lambda>s. spotify_uri s = uri) (queued_rows e sid)")
    case None
    with True uri show ?thesis
      by (simp add: pinned_song_def ranking_pool_def separate_playing_def)
  next
    case (Some p)
    with True uri show ?thesis
      by (simp add: pinned_song_def ranking_pool_def separate_playing_def)
  qed
qed

lemma pinned_when_matched:
  assumes "currently_playing_uri req = Some uri" "uri \<noteq> []"
    "uri \<in> spotify_uri ` set (queued_rows e sid)"
  shows "\<exists>p. pinned_song e req sid = Some p \<and>
             find (\<lambda>s. spotify_uri s = uri) (queued_rows e sid) = Some p \<and>
             p \<in> set (queued_rows e sid) \<and> spotify_uri p = uri \<and>
             ranking_pool e req sid = filter (\<lambda>s. spotify_uri s \<noteq> uri) (queued_rows e sid)"
proof -
  from assms(3) obtain p where p: "find (\<lambda>s. spotify_uri s = uri) (queued_rows e sid) = Some p"
    by (cases "find (\<lambda>s. spotify_uri s = uri) (queued_rows e sid)") (auto simp: find_None_iff)
  then have "p \<in> set (queued_rows e sid)" "spotify_uri p = uri"
    by (auto simp: find_Some_iff)
  with p assms(1,2) show ?thesis
    by (simp add: pinned_song_def ranking_pool_def separate_playing_def truthy_def)
qed

lemma ranking_pool_subset: "set (ranking_pool e req sid) \<subseteq> set (queued_rows e sid)"
  using separate_playing_cases [of e req sid] by auto

lemma queued_rows_subset: "set (queued_rows e sid) \<subseteq> set (queue e)"
  by (auto simp: queued_rows_def)

lemma pinned_song_queued:
  assumes "pinned_song e req sid = Some p"
  shows "p \<in> set (queued_rows e sid) \<and> p \<notin> set (ranking_pool e req sid)"
  using separate_playing_cases [of e req sid] assms by (auto simp: find_Some_iff)

lemma distinct_ids_queued_rows:
  assumes "distinct (map row_id (queue e))"
  shows "distinct (map row_id (queued_rows e sid))"
proof -
  have "distinct (map row_id (filter (\<lambda>r. session_id r = sid \<and> status r = ''queued'' \<and> pos r \<noteq> None) (queue e)))"
    using assms by (rule distinct_map_filter)
  then show ?thesis
    unfolding queued_rows_def by (simp add: distinct_map)
qed

lemma distinct_ids_ranking_pool:
  assumes "distinct (map row_id (queue e))"
  shows "distinct (map row_id (ranking_pool e req sid))"
  using separate_playing_cases [of e req sid] distinct_ids_queued_rows [OF assms, of sid]
  by (auto simp: distinct_map_filter)

lemma distinct_ids_ranked:
  assumes "distinct (map row_id (queue e))"
  shows "distinct (map (\<lambda>r. row_id (song r)) (ranked_songs e req sid))"
proof -
  have "mset (map row_id (map song (ranked_songs e req sid))) = mset (map row_id (ranking_pool e req sid))"
    using mset_ranked_songs [of e req sid] by (metis mset_map)
  then have "distinct (map row_id (map song (ranked_songs e req sid)))"
    using distinct_ids_ranking_pool [OF assms, of req sid] by (metis mset_eq_imp_distinct_iff)
  then show ?thesis by (simp add: comp_def)
qed

lemma row_id_inj_queue:
  assumes "distinct (map row_id (queue e))" "a \<in> set (queue e)" "b \<in> set (queue e)"
    "row_id a = row_id b"
  shows "a = b"
  using assms by (meson distinct_map inj_onD)

lemma ranked_song_in_pool:
  "r \<in> set (ranked_songs e req sid) \<Longrightarrow> song r \<in> set (ranking_pool e req sid)"
  using ranked_songs_score by blast



section \<open>A pass that gets to the position updates\<close>


lemma rank_queue_success:
  assumes "rerank_succeeds e req sid"
  shows "updatePromises (rank_queue e req) =
           (case pinned_song e req sid of
              None \<Rightarrow> position_updates 0 (ranked_songs e req sid)
            | Some playing \<Rightarrow> (row_id playing, 0) # position_updates 1 (ranked_songs e req sid))"
    and "queue_after (rank_queue e req) =
           foldl update_pos (queue e) (updatePromises (rank_queue e req))"
    and "http_status (response (rank_queue e req)) = 200"
    and "\<exists>j rep. body (response (rank_queue e req)) = Json j \<and> success j \<and>
           error_message j = None \<and> report j = Some rep \<and>
           ranked_count rep = length (ranking_pool e req sid) \<and>
           report_centroid rep = pass_centroid e req sid \<and>
           report_weights rep = pass_weights e req sid"
proof -
  from assms have r: "reaches_store e req sid" and q: "queue_select_error e = None"
    and l: "2 < length (ranking_pool e req sid)"
    and f: "reference_features e (ranking_pool e req sid) \<noteq> []"
    by (simp_all add: rerank_succeeds_def)
  have "set (ranking_pool e req sid) \<subseteq> set (queued_rows e sid)" by (rule ranking_pool_subset)
  with l have ne: "queued_rows e sid \<noteq> []" by auto
  from l have nl: "\<not> length (ranking_pool e req sid) \<le> 2" by simp
  note eq = rank_queue_reached [OF r]
  show "updatePromises (rank_queue e req) =
           (case pinned_song e req sid of
              None \<Rightarrow> position_updates 0 (ranked_songs e req sid)
            | Some playing \<Rightarrow> (row_id playing, 0) # position_updates 1 (ranked_songs e req sid))"
    by (simp add: eq q ne nl f)
  show "queue_after (rank_queue e req) =
           foldl update_pos (queue e) (updatePromises (rank_queue e req))"
    by (simp add: eq q ne nl f)
  show "http_status (response (rank_queue e req)) = 200"
    by (simp add: eq q ne nl f)
  show "\<exists>j rep. body (response (rank_queue e req)) = Json j \<and> success j \<and>
           error_message j = None \<and> report j = Some rep \<and>
           ranked_count rep = length (ranking_pool e req sid) \<and>
           report_centroid rep = pass_centroid e req sid \<and>
           report_weights rep = pass_weights e req sid"
    by (simp add: eq q ne nl f length_ranked_songs)
qed

lemma updates_explicit:
  assumes "rerank_succeeds e req sid"
  shows "updatePromises (rank_queue e req) =
      (case pinned_song e req sid of None \<Rightarrow> [] | Some p \<Rightarrow> [(row_id p, 0)]) @
      map (\<lambda>i. (row_id (song (ranked_songs e req sid ! i)),
                 int ((if pinned_song e req sid = None then 0 else 1) + i)))
        [0..<length (ranked_songs e req sid)]"
  by (simp add: rank_queue_success(1) [OF assms] position_updates_map split: option.splits)

lemma update_ids:
  assumes "rerank_succeeds e req sid"
  shows "map fst (updatePromises (rank_queue e req)) =
      (case pinned_song e req sid of None \<Rightarrow> [] | Some p \<Rightarrow> [row_id p]) @
      map (\<lambda>r. row_id (song r)) (ranked_songs e req sid)"
  by (simp add: rank_queue_success(1) [OF assms] fst_position_updates split: option.splits)

lemma update_ids_distinct:
  assumes "rerank_succeeds e req sid" "distinct (map row_id (queue e))"
  shows "distinct (map fst (updatePromises (rank_queue e req)))"
proof (cases "pinned_song e req sid")
  case None
  then show ?thesis
    by (simp add: update_ids [OF assms(1)] distinct_ids_ranked [OF assms(2)])
next
  case (Some p)
  then have p: "p \<in> set (queued_rows e sid)" "p \<notin> set (ranking_pool e req sid)"
    using pinned_song_queued by blast+
  have "row_id p \<notin> (\<lambda>r. row_id (song r)) ` set (ranked_songs e req sid)"
  proof
    assume "row_id p \<in> (\<lambda>r. row_id (song r)) ` set (ranked_songs e req sid)"
    then obtain r where r: "r \<in> set (ranked_songs e req sid)" "row_id p = row_id (song r)"
      by auto
    then have s: "song r \<in> set (ranking_pool e req sid)" by (simp add: ranked_song_in_pool)
    then have "song r \<in> set (queue e)"
      using ranking_pool_subset queued_rows_subset by blast
    moreover from p have "p \<in> set (queue e)" using queued_rows_subset by blast
    ultimately have "p = song r" using r(2) assms(2) by (intro row_id_inj_queue)
    with s p show False by simp
  qed
  with Some show ?thesis
    by (simp add: update_ids [OF assms(1)] distinct_ids_ranked [OF assms(2)])
qed


lemma ranked_sorted:
  assumes "no_nan_distance e req sid" "i < j" "j < length (ranked_songs e req sid)"
  shows "\<not> js_lt (dist (ranked_songs e req sid ! j)) (dist (ranked_songs e req sid ! i))"
proof -
  let ?rs = "ranked_songs e req sid"
  have "sorted (map rank_key ?rs)"
    by (simp add: ranked_songs_sort_key [OF assms(1)])
  then have le: "rank_key (?rs ! i) \<le> rank_key (?rs ! j)"
    using assms(2,3) by (simp add: sorted_iff_nth_mono_less)
  have "?rs ! i \<in> set (scored_pool e req sid)" "?rs ! j \<in> set (scored_pool e req sid)"
    using assms(2,3) by (simp_all add: set_ranked_songs [symmetric])
  then have s: "scored (?rs ! i)" "scored (?rs ! j)"
    using scored_pool_scored [OF assms(1)] by blast+
  from s consider
      "dist (?rs ! j) = PInf"
    | a where "dist (?rs ! i) = PInf" "dist (?rs ! j) = Fin a"
    | a b where "dist (?rs ! i) = Fin a" "dist (?rs ! j) = Fin b"
    unfolding scored_def by blast
  then show ?thesis
  proof cases
    case 1
    then show ?thesis by (cases "dist (?rs ! i)") simp_all
  next
    case 2
    with le show ?thesis by (simp add: rank_key_def)
  next
    case 3
    with le show ?thesis by (simp add: rank_key_def)
  qed
qed


section \<open>Features of moderate size\<close>

lemma round_double_upper:
  assumes "\<bar>x\<bar> \<le> 2 powr of_int j" "- 1074 \<le> j" "j \<le> 1023"
  shows "\<exists>y. round_double x = Fin y \<and> \<bar>y\<bar> \<le> 2 powr of_int j"
proof (cases "x = 0")
  case True
  then show ?thesis by simp
next
  case False
  define a where "a = \<bar>x\<bar>"
  have a: "0 < a" using False by (simp add: a_def)
  have "a \<le> 2 powr of_int j" using assms(1) by (simp add: a_def)
  also have "\<dots> \<le> 2 powr 1023" using assms(3) by (intro powr_mono) simp_all
  also have "\<dots> = 2 ^ 1023" by (rule powr_numeral) simp
  also have "\<dots> < (2 ^ 53 - 1 / 2) * (2::real) ^ 971" by simp
  finally have big: "\<not> (2 ^ 53 - 1 / 2) * 2 ^ 971 \<le> \<bar>x\<bar>" by (simp add: a_def)
  define e where "e = quantum_exponent a"
  define m where "m = round_half_even (a / 2 powr of_int e)"
  have y: "round_double x = Fin (sgn x * of_int m * 2 powr of_int e)"
    by (simp add: round_double_finite_form [OF False big] e_def m_def a_def)
  have "a \<le> 2 powr of_int j" using assms(1) by (simp add: a_def)
  also have "\<dots> < 2 powr of_int (53 + j)" by (intro powr_less_mono) simp_all
  finally have ej: "e \<le> j" unfolding e_def using a assms(2) by (intro quantum_exponent_le)
  have m0: "0 \<le> m" unfolding m_def using a by (intro round_half_even_lower) simp
  have "a / 2 powr of_int e \<le> 2 powr of_int j / 2 powr of_int e"
    using assms(1) by (intro divide_right_mono) (simp_all add: a_def)
  also have "\<dots> = real_of_int (2 ^ nat (j - e))" by (simp add: powr_int_diff_nat [OF ej])
  finally have "m \<le> 2 ^ nat (j - e)" unfolding m_def by (rule round_half_even_upper)
  then have "real_of_int m \<le> of_int (2 ^ nat (j - e))" by (simp only: of_int_le_iff)
  then have "real_of_int m * 2 powr of_int e \<le> real_of_int (2 ^ nat (j - e)) * 2 powr of_int e"
    by (intro mult_right_mono) simp_all
  also have "\<dots> = (2 powr of_int j / 2 powr of_int e) * 2 powr of_int e"
    by (simp add: powr_int_diff_nat [OF ej])
  also have "\<dots> = 2 powr of_int j" by simp
  finally have le: "real_of_int m * 2 powr of_int e \<le> 2 powr of_int j" .
  have "\<bar>sgn x * of_int m * 2 powr of_int e\<bar> = real_of_int m * 2 powr of_int e"
    using False m0 by (simp add: abs_mult abs_sgn_eq)
  with le y show ?thesis by simp
qed

lemma round_double_lower:
  assumes "2 powr of_int j \<le> x" "- 1074 \<le> j"
  shows "round_double x = PInf \<or> (\<exists>y. round_double x = Fin y \<and> 2 powr of_int j \<le> y)"
proof -
  have pos: "0 < x" using assms(1) by (smt (verit) powr_gt_zero)
  then have ne: "x \<noteq> 0" and ab: "\<bar>x\<bar> = x" by simp_all
  have g: "2 powr (- 1074) \<le> x"
  proof -
    have "(2::real) powr (- 1074) \<le> 2 powr of_int j" using assms(2) by (intro powr_mono) simp_all
    with assms(1) show ?thesis by linarith
  qed
  show ?thesis
  proof (cases "(2 ^ 53 - 1 / 2) * 2 ^ 971 \<le> \<bar>x\<bar>")
    case True
    with pos show ?thesis by (simp add: round_double_def)
  next
    case big: False
    define e where "e = quantum_exponent x"
    define m where "m = round_half_even (x / 2 powr of_int e)"
    have y: "round_double x = Fin (of_int m * 2 powr of_int e)"
      using pos by (simp add: round_double_finite_form [OF ne big] e_def m_def ab)
    have "2 powr of_int j \<le> real_of_int m * 2 powr of_int e"
    proof (cases "e \<le> j")
      case True
      have "real_of_int (2 ^ nat (j - e)) = 2 powr of_int j / 2 powr of_int e"
        by (simp add: powr_int_diff_nat [OF True])
      also have "\<dots> \<le> x / 2 powr of_int e"
        using assms(1) by (intro divide_right_mono) simp_all
      finally have "2 ^ nat (j - e) \<le> m" unfolding m_def by (rule round_half_even_lower)
      then have "real_of_int (2 ^ nat (j - e)) \<le> of_int m" by (simp only: of_int_le_iff)
      then have le: "real_of_int (2 ^ nat (j - e)) * 2 powr of_int e \<le>
          real_of_int m * 2 powr of_int e"
        by (intro mult_right_mono) simp_all
      have "real_of_int (2 ^ nat (j - e)) = 2 powr of_int j / 2 powr of_int e"
        by (simp add: powr_int_diff_nat [OF True])
      then have "real_of_int (2 ^ nat (j - e)) * 2 powr of_int e = 2 powr of_int j" by simp
      with le show ?thesis by (simp only:)
    next
      case False
      have "2 powr of_int e \<le> x" unfolding e_def using g by (rule quantum_le_value)
      then have "of_int 1 \<le> x / 2 powr of_int e" by (simp add: le_divide_eq)
      then have "1 \<le> m" unfolding m_def by (rule round_half_even_lower)
      then have "(1::real) \<le> of_int m" by simp
      then have "1 * 2 powr of_int e \<le> real_of_int m * 2 powr of_int e"
        by (intro mult_right_mono) simp_all
      then have "2 powr of_int e \<le> real_of_int m * 2 powr of_int e" by (simp only: mult_1)
      moreover have "(2::real) powr of_int j \<le> 2 powr of_int e"
        using False by (intro powr_mono) simp_all
      ultimately show ?thesis by (rule order_trans [rotated])
    qed
    with y show ?thesis by simp
  qed
qed

lemma round_double_fits:
  assumes "\<bar>x\<bar> \<le> 2 ^ k" "k \<le> 1023"
  shows "fits k (round_double x)"
proof -
  have "\<bar>x\<bar> \<le> 2 powr of_int (int k)" using assms(1) by (simp add: powr_realpow)
  moreover from assms(2) have "- 1074 \<le> int k" "int k \<le> 1023" by simp_all
  ultimately obtain y where "round_double x = Fin y" "\<bar>y\<bar> \<le> 2 powr of_int (int k)"
    using round_double_upper by blast
  then show ?thesis by (simp add: powr_realpow)
qed

lemma round_double_fits_up:
  assumes "0 \<le> x" "x \<le> 2 ^ k" "k \<le> 1023"
  shows "fits_up k (round_double x)"
proof -
  from assms have "fits k (round_double x)" by (intro round_double_fits) simp_all
  moreover from round_double_nonneg [OF assms(1)]
  have "round_double x = PInf \<or> (\<exists>y. round_double x = Fin y \<and> 0 \<le> y)" .
  ultimately show ?thesis by (cases "round_double x") auto
qed

lemma fits_mono: "fits j x \<Longrightarrow> j \<le> k \<Longrightarrow> fits k x"
proof (cases x)
  case (Fin a)
  assume a: "fits j x" "j \<le> k"
  then have "\<bar>a\<bar> \<le> 2 ^ j" using Fin by simp
  moreover have "(2::real) ^ j \<le> 2 ^ k" using a(2) by (intro power_increasing) simp_all
  ultimately have "\<bar>a\<bar> \<le> 2 ^ k" by linarith
  with Fin show ?thesis by simp
qed simp_all

lemma fits_up_mono: "fits_up j x \<Longrightarrow> j \<le> k \<Longrightarrow> fits_up k x"
proof (cases x)
  case (Fin a)
  assume a: "fits_up j x" "j \<le> k"
  then have "0 \<le> a" "a \<le> 2 ^ j" using Fin by simp_all
  moreover have "(2::real) ^ j \<le> 2 ^ k" using a(2) by (intro power_increasing) simp_all
  ultimately have "0 \<le> a" "a \<le> 2 ^ k" by linarith+
  with Fin show ?thesis by simp
qed simp_all

lemma fits_up_within: "fits_up k x \<Longrightarrow> fits k x"
  by (cases x) simp_all

lemma fits_add:
  assumes "fits k x" "fits k y" "k < 1023"
  shows "fits (Suc k) (js_add x y)"
proof -
  from assms obtain a b where x: "x = Fin a" "\<bar>a\<bar> \<le> 2 ^ k" and y: "y = Fin b" "\<bar>b\<bar> \<le> 2 ^ k"
    by (cases x; cases y) simp_all
  have "\<bar>a + b\<bar> \<le> 2 ^ Suc k" using x(2) y(2) by simp
  then show ?thesis using assms(3) by (simp add: x y round_double_fits)
qed

lemma fits_sub:
  assumes "fits k x" "fits k y" "k < 1023"
  shows "fits (Suc k) (js_sub x y)"
proof -
  from assms obtain a b where x: "x = Fin a" "\<bar>a\<bar> \<le> 2 ^ k" and y: "y = Fin b" "\<bar>b\<bar> \<le> 2 ^ k"
    by (cases x; cases y) simp_all
  have "\<bar>a - b\<bar> \<le> 2 ^ Suc k" using x(2) y(2) by simp
  then show ?thesis using assms(3) by (simp add: x y round_double_fits)
qed

lemma fits_up_add:
  assumes "fits_up k x" "fits_up k y" "k < 1023"
  shows "fits_up (Suc k) (js_add x y)"
proof -
  from assms obtain a b where x: "x = Fin a" "0 \<le> a" "a \<le> 2 ^ k"
    and y: "y = Fin b" "0 \<le> b" "b \<le> 2 ^ k"
    by (cases x; cases y) simp_all
  have "0 \<le> a + b" "a + b \<le> 2 ^ Suc k" using x y by simp_all
  then show ?thesis using assms(3) by (simp add: x y round_double_fits_up)
qed

lemma fits_up_square:
  assumes "fits k x" "2 * k \<le> 1023"
  shows "fits_up (2 * k) (Math_pow x 2)"
proof -
  from assms obtain a where x: "x = Fin a" "\<bar>a\<bar> \<le> 2 ^ k" by (cases x) simp_all
  have "a\<^sup>2 = \<bar>a\<bar>\<^sup>2" by simp
  also have "\<dots> \<le> (2 ^ k)\<^sup>2" using x(2) by (intro power_mono) simp_all
  also have "\<dots> = 2 ^ (2 * k)" by (simp add: power_mult [symmetric] mult.commute)
  finally have "a\<^sup>2 \<le> 2 ^ (2 * k)" .
  then show ?thesis using assms(2) by (simp add: x round_double_fits_up)
qed

lemma fits_up_mul:
  assumes "fits_up j x" "fits_up k y" "j + k \<le> 1023"
  shows "fits_up (j + k) (js_mul x y)"
proof -
  from assms obtain a b where x: "x = Fin a" "0 \<le> a" "a \<le> 2 ^ j"
    and y: "y = Fin b" "0 \<le> b" "b \<le> 2 ^ k"
    by (cases x; cases y) simp_all
  have "a * b \<le> 2 ^ j * 2 ^ k" using x y by (intro mult_mono) simp_all
  then have "a * b \<le> 2 ^ (j + k)" by (simp add: power_add)
  moreover have "0 \<le> a * b" using x y by simp
  ultimately show ?thesis using assms(3) by (simp add: x y round_double_fits_up)
qed

lemma fits_div:
  assumes "fits k x" "0 < n" "k \<le> 1023"
  shows "fits k (js_div x (Fin (real n)))"
proof -
  from assms obtain a where x: "x = Fin a" "\<bar>a\<bar> \<le> 2 ^ k" by (cases x) simp_all
  from assms(2) have n: "1 \<le> real n" by simp
  have "\<bar>a / real n\<bar> = \<bar>a\<bar> / real n" by simp
  also have "\<dots> \<le> \<bar>a\<bar> / 1" using n by (intro divide_left_mono) simp_all
  finally have "\<bar>a / real n\<bar> \<le> 2 ^ k" using x(2) by simp
  then show ?thesis using assms(2,3) by (simp add: x round_double_fits)
qed

lemma fits_up_div:
  assumes "fits_up k x" "0 < n" "k \<le> 1023"
  shows "fits_up k (js_div x (Fin (real n)))"
proof -
  from assms obtain a where x: "x = Fin a" "0 \<le> a" "a \<le> 2 ^ k" by (cases x) simp_all
  from assms(2) have n: "1 \<le> real n" by simp
  have "a / real n \<le> a / 1" using n x(2) by (intro divide_left_mono) simp_all
  then have "a / real n \<le> 2 ^ k" using x(3) by simp
  moreover have "0 \<le> a / real n" using x(2) by simp
  ultimately show ?thesis using assms(2,3) by (simp add: x round_double_fits_up)
qed

lemma fits_sum:
  assumes "\<forall>x\<in>set xs. fits k x" "k + length xs \<le> 1023"
  shows "fits (k + length xs) (double_sum xs)"
  using assms
proof (induction xs rule: rev_induct)
  case Nil
  then show ?case by (simp add: double_sum_def)
next
  case (snoc x xs)
  then have "fits (k + length xs) (double_sum xs)" by simp
  moreover have "fits (k + length xs) x"
    by (rule fits_mono [of k]) (use snoc.prems in simp_all)
  moreover from snoc.prems have "k + length xs < 1023" by simp
  ultimately have "fits (Suc (k + length xs)) (js_add (double_sum xs) x)"
    by (rule fits_add)
  then show ?case by (simp add: double_sum_def)
qed

lemma fits_up_sum:
  assumes "\<forall>x\<in>set xs. fits_up k x" "k + length xs \<le> 1023"
  shows "fits_up (k + length xs) (double_sum xs)"
  using assms
proof (induction xs rule: rev_induct)
  case Nil
  then show ?case by (simp add: double_sum_def)
next
  case (snoc x xs)
  then have "fits_up (k + length xs) (double_sum xs)" by simp
  moreover have "fits_up (k + length xs) x"
    by (rule fits_up_mono [of k]) (use snoc.prems in simp_all)
  moreover from snoc.prems have "k + length xs < 1023" by simp
  ultimately have "fits_up (Suc (k + length xs)) (js_add (double_sum xs) x)"
    by (rule fits_up_add)
  then show ?case by (simp add: double_sum_def)
qed

lemma mean_fits:
  assumes "\<forall>x\<in>set xs. fits 400 x" "xs \<noteq> []" "length xs \<le> 2"
  shows "fits 402 (double_mean xs)"
proof -
  from assms(1,3) have "fits (400 + length xs) (double_sum xs)" by (intro fits_sum) simp_all
  then have "fits 402 (double_sum xs)" by (rule fits_mono) (use assms(3) in simp)
  moreover from assms(2) have "0 < length xs" by simp
  ultimately show ?thesis unfolding double_mean_def by (rule fits_div) simp
qed

lemma variance_fits:
  assumes "\<forall>x\<in>set xs. fits 400 x" "xs \<noteq> []" "length xs \<le> 2"
  shows "fits_up 808 (double_variance xs)"
proof -
  have m: "fits 402 (double_mean xs)" using assms by (rule mean_fits)
  have "\<forall>y\<in>set (map (\<lambda>x. Math_pow (js_sub x (double_mean xs)) 2) xs). fits_up 806 y"
  proof
    fix y assume "y \<in> set (map (\<lambda>x. Math_pow (js_sub x (double_mean xs)) 2) xs)"
    then obtain x where x: "x \<in> set xs" and y: "y = Math_pow (js_sub x (double_mean xs)) 2"
      by auto
    from x assms(1) have "fits 400 x" by blast
    then have "fits 402 x" by (rule fits_mono) simp
    from this m have "fits (Suc 402) (js_sub x (double_mean xs))" by (rule fits_sub) simp
    then have "fits_up (2 * Suc 402) (Math_pow (js_sub x (double_mean xs)) 2)"
      by (rule fits_up_square) simp
    then show "fits_up 806 y" by (simp add: y)
  qed
  then have "fits_up (806 + length (map (\<lambda>x. Math_pow (js_sub x (double_mean xs)) 2) xs))
      (double_sum (map (\<lambda>x. Math_pow (js_sub x (double_mean xs)) 2) xs))"
    using assms(3) by (intro fits_up_sum) simp_all
  then have "fits_up 808 (double_sum (map (\<lambda>x. Math_pow (js_sub x (double_mean xs)) 2) xs))"
    by (rule fits_up_mono) (use assms(3) in simp)
  moreover from assms(2) have "0 < length xs" by simp
  ultimately show ?thesis unfolding double_variance_def by (rule fits_up_div) simp
qed

lemma micro_bounds: "2 powr of_int (- 20) \<le> micro" "micro \<le> 1"
  by (simp_all add: micro_def powr_minus_divide)

lemma weight_fits:
  assumes "\<forall>x\<in>set xs. fits 400 x" "xs \<noteq> []" "length xs \<le> 2"
  shows "fits_up 20 (spec_weight xs (Fin micro)) \<and> js_lt (Fin 0) (spec_weight xs (Fin micro))"
proof -
  from variance_fits [OF assms] obtain a where v: "double_variance xs = Fin a"
    and a: "0 \<le> a" "a \<le> 2 ^ 808" by (cases "double_variance xs") simp_all
  have lo: "2 powr of_int (- 20) \<le> a + micro" using a(1) micro_bounds(1) by linarith
  have "a + micro \<le> 2 ^ 808 + 1" using a(2) micro_bounds(2) by linarith
  also have "\<dots> \<le> (2::real) ^ 809" by simp
  finally have hi: "\<bar>a + micro\<bar> \<le> 2 ^ 809" using a(1) micro_bounds(1) lo
    by (smt (verit) powr_gt_zero)
  from round_double_fits [OF hi] obtain y where y: "round_double (a + micro) = Fin y"
    and yh: "\<bar>y\<bar> \<le> 2 ^ 809" by (cases "round_double (a + micro)") simp_all
  from round_double_lower [OF lo] y have yl: "2 powr of_int (- 20) \<le> y" by simp
  then have ypos: "0 < y" by (smt (verit) powr_gt_zero)
  have w: "spec_weight xs (Fin micro) = round_double (1 / y)"
    using ypos by (simp add: spec_weight_def v y)
  have "1 / y \<le> 1 / 2 powr of_int (- 20)"
    using yl ypos by (intro divide_left_mono) simp_all
  also have "\<dots> = 2 ^ 20" by (simp add: powr_minus_divide)
  finally have up: "1 / y \<le> 2 ^ 20" .
  have "0 \<le> 1 / y" using ypos by simp
  from round_double_fits_up [OF this up] have f: "fits_up 20 (round_double (1 / y))" by simp
  have "(2::real) powr (- 1074) \<le> 2 powr (- 809)" by (intro powr_mono) simp_all
  also have "\<dots> = 1 / 2 ^ 809" by (simp add: powr_minus_divide)
  also have "\<dots> \<le> 1 / y" using yh ypos by (intro divide_left_mono) simp_all
  finally have "2 powr (- 1074) \<le> 1 / y" .
  from round_double_positive [OF this] f have "js_lt (Fin 0) (round_double (1 / y))"
    by (cases "round_double (1 / y)") auto
  with f w show ?thesis by simp
qed

lemma term_fits:
  assumes "fits 400 p" "fits 402 c" "fits_up 20 w"
  shows "fits_up 826 (js_mul w (Math_pow (js_sub p c) 2))"
proof -
  from assms(1) have "fits 402 p" by (rule fits_mono) simp
  from this assms(2) have "fits (Suc 402) (js_sub p c)" by (rule fits_sub) simp
  then have "fits_up (2 * Suc 402) (Math_pow (js_sub p c) 2)" by (rule fits_up_square) simp
  with assms(3) have "fits_up (20 + 2 * Suc 402) (js_mul w (Math_pow (js_sub p c) 2))"
    by (rule fits_up_mul) simp
  then show ?thesis by simp
qed

lemma sqrt_fits:
  assumes "fits_up k x" "k \<le> 1023"
  shows "fits_up k (Math_sqrt x)"
proof -
  from assms(1) obtain a where x: "x = Fin a" and a: "0 \<le> a" "a \<le> 2 ^ k"
    by (cases x) simp_all
  have "sqrt a \<le> 2 ^ k"
  proof (cases "a \<le> 1")
    case True
    then have "sqrt a \<le> 1" by simp
    also have "\<dots> \<le> (2::real) ^ k" by simp
    finally show ?thesis .
  next
    case False
    then have "1 \<le> sqrt a" by simp
    then have "sqrt a * 1 \<le> sqrt a * sqrt a" by (intro mult_left_mono) simp_all
    then have "sqrt a \<le> a" using a(1) by simp
    with a(2) show ?thesis by linarith
  qed
  moreover have "0 \<le> sqrt a" using a(1) by simp
  ultimately show ?thesis using a(1) assms(2) by (simp add: x round_double_fits_up)
qed

lemma moderate_distance:
  assumes "moderate_features p"
    "fits 402 (tempo c)" "fits 402 (energy c)" "fits 402 (danceability c)" "fits 402 (valence c)"
    "fits_up 20 (tempo w)" "fits_up 20 (energy w)" "fits_up 20 (danceability w)"
    "fits_up 20 (valence w)"
  shows "\<exists>a. distance p c w = Fin a"
proof -
  from assms(1) have p: "fits 400 (tempo p)" "fits 400 (energy p)" "fits 400 (danceability p)"
    "fits 400 (valence p)" by (simp_all add: moderate_features_def)
  note t = term_fits [OF p(1) assms(2,6)] term_fits [OF p(2) assms(3,7)]
    term_fits [OF p(3) assms(4,8)] term_fits [OF p(4) assms(5,9)]
  from t(1,2) have "fits_up (Suc 826)
      (js_add (js_mul (tempo w) (Math_pow (js_sub (tempo p) (tempo c)) 2))
              (js_mul (energy w) (Math_pow (js_sub (energy p) (energy c)) 2)))"
    by (rule fits_up_add) simp
  moreover from t(3) have "fits_up (Suc 826)
      (js_mul (danceability w) (Math_pow (js_sub (danceability p) (danceability c)) 2))"
    by (rule fits_up_mono) simp
  ultimately have "fits_up (Suc (Suc 826))
      (js_add
        (js_add (js_mul (tempo w) (Math_pow (js_sub (tempo p) (tempo c)) 2))
                (js_mul (energy w) (Math_pow (js_sub (energy p) (energy c)) 2)))
        (js_mul (danceability w) (Math_pow (js_sub (danceability p) (danceability c)) 2)))"
    by (rule fits_up_add) simp
  moreover from t(4) have "fits_up (Suc (Suc 826))
      (js_mul (valence w) (Math_pow (js_sub (valence p) (valence c)) 2))"
    by (rule fits_up_mono) simp
  ultimately have "fits_up (Suc (Suc (Suc 826)))
      (js_add
        (js_add
          (js_add (js_mul (tempo w) (Math_pow (js_sub (tempo p) (tempo c)) 2))
                  (js_mul (energy w) (Math_pow (js_sub (energy p) (energy c)) 2)))
          (js_mul (danceability w) (Math_pow (js_sub (danceability p) (danceability c)) 2)))
        (js_mul (valence w) (Math_pow (js_sub (valence p) (valence c)) 2)))"
    by (rule fits_up_add) simp
  then have "fits_up (Suc (Suc (Suc 826))) (distance p c w)"
    unfolding distance_def by (rule sqrt_fits) simp
  then show ?thesis by (cases "distance p c w") simp_all
qed

lemma length_reference_features: "length (reference_features e songs) \<le> 2"
proof -
  have "length (reference_features e songs) \<le> length (take (min 2 (length songs - 1)) songs)"
    unfolding reference_features_def Let_def map_filter_def
    by (simp only: length_map) (rule length_filter_le)
  then show ?thesis by simp
qed

lemma reference_features_resolved:
  assumes "f \<in> set (reference_features e songs)"
  shows "\<exists>s\<in>set songs. getFeaturesFromDataset e (song_title s) = Some f"
proof -
  from assms obtain s where "s \<in> set (take (min 2 (length songs - 1)) songs)"
    and "getFeaturesFromDataset e (song_title s) = Some f"
    by (auto simp: reference_features_def Let_def map_filter_def)
  then show ?thesis by (meson in_set_takeD)
qed

lemma moderate_pass:
  assumes "rerank_succeeds e req sid" "moderate_lookup e (ranking_pool e req sid)"
  shows "fits 402 (tempo (pass_centroid e req sid))"
    "fits 402 (energy (pass_centroid e req sid))"
    "fits 402 (danceability (pass_centroid e req sid))"
    "fits 402 (valence (pass_centroid e req sid))"
    "fits_up 20 (tempo (pass_weights e req sid))"
    "fits_up 20 (energy (pass_weights e req sid))"
    "fits_up 20 (danceability (pass_weights e req sid))"
    "fits_up 20 (valence (pass_weights e req sid))"
proof -
  define fs where "fs = reference_features e (ranking_pool e req sid)"
  have ne: "fs \<noteq> []" using assms(1) by (simp add: fs_def rerank_succeeds_def)
  have le: "length fs \<le> 2" unfolding fs_def by (rule length_reference_features)
  have m: "\<forall>f\<in>set fs. moderate_features f"
    using assms(2) reference_features_resolved unfolding fs_def moderate_lookup_def by blast
  have f: "\<forall>x\<in>set (map tempo fs). fits 400 x" "\<forall>x\<in>set (map energy fs). fits 400 x"
    "\<forall>x\<in>set (map danceability fs). fits 400 x" "\<forall>x\<in>set (map valence fs). fits 400 x"
    using m by (simp_all add: moderate_features_def)
  have n: "map tempo fs \<noteq> []" "map energy fs \<noteq> []" "map danceability fs \<noteq> []"
    "map valence fs \<noteq> []" using ne by simp_all
  have l: "length (map tempo fs) \<le> 2" "length (map energy fs) \<le> 2"
    "length (map danceability fs) \<le> 2" "length (map valence fs) \<le> 2" using le by simp_all
  have c: "pass_centroid e req sid =
     \<lparr> tempo = double_mean (map tempo fs), energy = double_mean (map energy fs),
       danceability = double_mean (map danceability fs),
       valence = double_mean (map valence fs) \<rparr>"
    by (simp only: pass_centroid_def fs_def computeCentroid_double_mean)
  show "fits 402 (tempo (pass_centroid e req sid))"
    "fits 402 (energy (pass_centroid e req sid))"
    "fits 402 (danceability (pass_centroid e req sid))"
    "fits 402 (valence (pass_centroid e req sid))"
    using mean_fits [OF f(1) n(1) l(1)] mean_fits [OF f(2) n(2) l(2)]
      mean_fits [OF f(3) n(3) l(3)] mean_fits [OF f(4) n(4) l(4)]
    by (simp_all add: c)
  have w: "fits_up 20 (tempo (pass_weights e req sid)) \<and>
    fits_up 20 (energy (pass_weights e req sid)) \<and>
    fits_up 20 (danceability (pass_weights e req sid)) \<and>
    fits_up 20 (valence (pass_weights e req sid))"
  proof (cases "length fs < 2")
    case True
    then show ?thesis
      by (simp add: pass_weights_def fs_def [symmetric] computeDynamicWeights_few
            unit_weights_def)
  next
    case False
    then have "2 \<le> length fs" by simp
    then show ?thesis
      using weight_fits [OF f(1) n(1) l(1)] weight_fits [OF f(2) n(2) l(2)]
        weight_fits [OF f(3) n(3) l(3)] weight_fits [OF f(4) n(4) l(4)]
      by (simp add: pass_weights_def fs_def [symmetric] computeDynamicWeights_many
            default_epsilon_micro)
  qed
  then show "fits_up 20 (tempo (pass_weights e req sid))"
    "fits_up 20 (energy (pass_weights e req sid))"
    "fits_up 20 (danceability (pass_weights e req sid))"
    "fits_up 20 (valence (pass_weights e req sid))" by simp_all
qed

lemma moderate_resolved:
  assumes "rerank_succeeds e req sid" "moderate_lookup e (ranking_pool e req sid)"
    "r \<in> set (scored_pool e req sid)" "song_features r \<noteq> None"
  shows "\<exists>a. dist r = Fin a"
proof -
  from assms(3) obtain s where s: "s \<in> set (ranking_pool e req sid)"
    and r: "r = score e (pass_centroid e req sid) (pass_weights e req sid) s"
    by (auto simp: scored_pool_def)
  from assms(4) obtain f where f: "getFeaturesFromDataset e (song_title s) = Some f"
    by (auto simp: r score_features)
  with assms(2) s have "moderate_features f" unfolding moderate_lookup_def by blast
  from moderate_distance [OF this moderate_pass [OF assms(1,2)]] f show ?thesis
    by (simp add: r score_def)
qed

lemma moderate_no_nan:
  assumes "rerank_succeeds e req sid" "moderate_lookup e (ranking_pool e req sid)"
  shows "no_nan_distance e req sid"
  unfolding no_nan_distance_def
proof
  fix r assume r: "r \<in> set (scored_pool e req sid)"
  show "dist r \<noteq> NaN"
  proof (cases "song_features r = None")
    case True
    with r show ?thesis by (simp add: scored_pool_sentinel)
  next
    case False
    from moderate_resolved [OF assms r False] show ?thesis by auto
  qed
qed


section \<open>The example session, step by step\<close>


lemma clean_titles:
  "trim (toLowerCase ''X'') = ''x''" "trim (toLowerCase ''Y'') = ''y''"
  "trim (toLowerCase ''Z'') = ''z''" "trim (toLowerCase ''W'') = ''w''"
  "trim (toLowerCase ''Q'') = ''q''" "trim (toLowerCase ''P'') = ''p''"
  by code_simp+

lemma party_lookup:
  "getFeaturesFromDataset party_env ''X'' = Some (vec 3)"
  "getFeaturesFromDataset party_env ''Y'' = None"
  "getFeaturesFromDataset party_env ''Z'' = Some (vec 1)"
  "getFeaturesFromDataset party_env ''W'' = Some (vec 3)"
  "getFeaturesFromDataset party_env ''Q'' = None"
  by (simp_all add: getFeaturesFromDataset_def clean_titles party_env_def found_def
        first_features_def vec_def)

lemma party_queued_rows: "queued_rows party_env ''s'' = queue party_env"
  by (simp add: queued_rows_def party_env_def queued_def pos_key_def)

lemma party_pinned:
  "pinned_song party_env party_request ''s'' = Some (queued ''0'' ''p'' ''P'' 0)"
  by (simp add: pinned_song_def party_queued_rows separate_playing_def party_request_def
        truthy_def) (simp add: party_env_def queued_def)

lemma party_pool:
  "ranking_pool party_env party_request ''s'' =
     [queued ''1'' ''x'' ''X'' 1, queued ''3'' ''y'' ''Y'' 3, queued ''4'' ''z'' ''Z'' 4,
      queued ''5'' ''w'' ''W'' 5, queued ''6'' ''q'' ''Q'' 6]"
  by (simp add: ranking_pool_def party_queued_rows separate_playing_def party_request_def
        truthy_def) (simp add: party_env_def queued_def)

lemma queued_title: "song_title (queued i u t p) = t" "row_id (queued i u t p) = i"
  "spotify_uri (queued i u t p) = u"
  by (simp_all add: queued_def)

lemma party_reference:
  "reference_features party_env (ranking_pool party_env party_request ''s'') = [vec 3]"
  by (simp add: party_pool reference_features_def map_filter_def queued_title party_lookup)

lemma number_features_vec: "is_double t \<Longrightarrow> number_features (vec t)"
  using is_double_small by (simp add: number_features_def vec_def)

lemma finite_features_vec: "is_double t \<Longrightarrow> finite_features (vec t)"
  using is_double_small by (simp add: finite_features_def vec_def)

lemma party_centroid: "pass_centroid party_env party_request ''s'' = vec 3"
  by (simp add: pass_centroid_def party_reference computeCentroid_single number_features_vec
        is_double_numeral)

lemma party_weights: "pass_weights party_env party_request ''s'' = unit_weights"
  by (simp add: pass_weights_def party_reference computeDynamicWeights_few)

lemma party_distances:
  "distance (vec 3) (vec 3) unit_weights = Fin 0"
  "distance (vec 1) (vec 3) unit_weights = Fin 2"
  by (simp_all add: distance_def vec_def unit_weights_def)


lemma party_scored:
  "scored_pool party_env party_request ''s'' =
     [\<lparr> song = queued ''1'' ''x'' ''X'' 1, song_features = Some (vec 3), dist = Fin 0 \<rparr>,
      \<lparr> song = queued ''3'' ''y'' ''Y'' 3, song_features = None, dist = PInf \<rparr>,
      \<lparr> song = queued ''4'' ''z'' ''Z'' 4, song_features = Some (vec 1), dist = Fin 2 \<rparr>,
      \<lparr> song = queued ''5'' ''w'' ''W'' 5, song_features = Some (vec 3), dist = Fin 0 \<rparr>,
      \<lparr> song = queued ''6'' ''q'' ''Q'' 6, song_features = None, dist = PInf \<rparr>]"
  by (simp add: scored_pool_def party_pool party_centroid party_weights score_def
        queued_title party_lookup party_distances)

lemma party_ranked:
  "ranked_songs party_env party_request ''s'' =
     [\<lparr> song = queued ''1'' ''x'' ''X'' 1, song_features = Some (vec 3), dist = Fin 0 \<rparr>,
      \<lparr> song = queued ''5'' ''w'' ''W'' 5, song_features = Some (vec 3), dist = Fin 0 \<rparr>,
      \<lparr> song = queued ''4'' ''z'' ''Z'' 4, song_features = Some (vec 1), dist = Fin 2 \<rparr>,
      \<lparr> song = queued ''3'' ''y'' ''Y'' 3, song_features = None, dist = PInf \<rparr>,
      \<lparr> song = queued ''6'' ''q'' ''Q'' 6, song_features = None, dist = PInf \<rparr>]"
proof -
  have "no_nan_distance party_env party_request ''s''"
    by (simp add: no_nan_distance_def party_scored)
  then show ?thesis
    by (simp add: ranked_songs_sort_key party_scored rank_key_def)
qed

lemma party_no_nan: "no_nan_distance party_env party_request ''s''"
  by (simp add: no_nan_distance_def party_scored)

lemma party_succeeds: "rerank_succeeds party_env party_request ''s''"
proof -
  have "reaches_store party_env party_request ''s''"
    by (simp add: reaches_store_def truthy_def party_env_def party_request_def)
  moreover have "queue_select_error party_env = None" by (simp add: party_env_def)
  moreover have "2 < length (ranking_pool party_env party_request ''s'')"
    by (simp add: party_pool)
  moreover have "reference_features party_env (ranking_pool party_env party_request ''s'') \<noteq> []"
    by (simp add: party_reference)
  ultimately show ?thesis by (simp add: rerank_succeeds_def)
qed

lemma party_moderate:
  "moderate_lookup party_env (ranking_pool party_env party_request ''s'')"
  by (auto simp: moderate_lookup_def party_pool queued_title party_lookup vec_def
        moderate_features_def)

lemma party_distinct: "distinct (map row_id (queue party_env))"
  by (simp add: party_env_def queued_def)



lemma party_updates:
  "updatePromises (rank_queue party_env party_request) =
     [(''0'', 0), (''1'', 1), (''5'', 2), (''4'', 3), (''3'', 4), (''6'', 5)]"
  by (simp add: rank_queue_success(1) [OF party_succeeds] party_pinned party_ranked
        queued_title)

lemma party_queue_after:
  "queue_after (rank_queue party_env party_request) =
     [queued ''0'' ''p'' ''P'' 0, queued ''1'' ''x'' ''X'' 1, queued ''2'' ''p'' ''P'' 2,
      queued ''3'' ''y'' ''Y'' 4, queued ''4'' ''z'' ''Z'' 3, queued ''5'' ''w'' ''W'' 2,
      queued ''6'' ''q'' ''Q'' 5]"
  by (simp add: rank_queue_success(2) [OF party_succeeds] party_updates)
     (simp add: party_env_def update_pos_def queued_def)

section \<open>Positions after a ranking pass\<close>


text \<open>The response carries a report exactly when the pass gets to step 9.\<close>

lemma report_rank_failure: "\<not> (\<exists>j rep. body (response (rank_failure e m)) = Json j \<and> report j = Some rep)"
  by (simp add: rank_failure_def)

lemma report_rank_message: "\<not> (\<exists>j rep. body (response (rank_message e b m)) = Json j \<and> report j = Some rep)"
  by (simp add: rank_message_def)

lemma report_needs_store:
  assumes "body (response (rank_queue e req)) = Json j" "report j = Some rep"
  shows "\<exists>sid. reaches_store e req sid"
proof (rule ccontr)
  assume n: "\<not> (\<exists>sid. reaches_store e req sid)"
  have "\<not> (\<exists>j rep. body (response (rank_queue e req)) = Json j \<and> report j = Some rep)"
  proof (cases "method_is_OPTIONS req")
    case True
    then show ?thesis by (simp add: rank_queue_def)
  next
    case False
    show ?thesis
    proof (cases "req_session_id req")
      case None
      with False show ?thesis by (simp add: rank_queue_def rank_failure_def)
    next
      case (Some sid)
      with n False have "sid = [] \<or> \<not> truthy (SUPABASE_URL e) \<or> \<not> truthy (SUPABASE_SERVICE_ROLE_KEY e)"
        by (auto simp: reaches_store_def)
      with False Some show ?thesis by (auto simp: rank_queue_def rank_failure_def)
    qed
  qed
  with assms show False by blast
qed

lemma successful_rerank:
  "(\<exists>j rep. body (response (rank_queue e req)) = Json j \<and> report j = Some rep) \<longleftrightarrow>
   (\<exists>sid. rerank_succeeds e req sid)"
proof
  assume "\<exists>sid. rerank_succeeds e req sid"
  then obtain sid where "rerank_succeeds e req sid" ..
  from rank_queue_success(4) [OF this] show
    "\<exists>j rep. body (response (rank_queue e req)) = Json j \<and> report j = Some rep" by blast
next
  assume a: "\<exists>j rep. body (response (rank_queue e req)) = Json j \<and> report j = Some rep"
  then obtain sid where r: "reaches_store e req sid" using report_needs_store by blast
  note eq = rank_queue_reached [OF r]
  have q: "queue_select_error e = None"
  proof (cases "queue_select_error e")
    case (Some msg)
    with a show ?thesis by (simp add: eq rank_failure_def)
  qed simp
  have l: "2 < length (ranking_pool e req sid)"
  proof (rule ccontr)
    assume "\<not> 2 < length (ranking_pool e req sid)"
    then have "length (ranking_pool e req sid) \<le> 2" by simp
    with a q show False by (simp add: eq rank_message_def split: if_splits)
  qed
  have f: "reference_features e (ranking_pool e req sid) \<noteq> []"
  proof
    assume "reference_features e (ranking_pool e req sid) = []"
    with a q show False by (simp add: eq rank_message_def split: if_splits)
  qed
  from r q l f have "rerank_succeeds e req sid" by (simp add: rerank_succeeds_def)
  then show "\<exists>sid. rerank_succeeds e req sid" ..
qed

lemma final_positions:
  assumes "rerank_succeeds e req sid" "distinct (map row_id (queue e))"
    "(i, k) \<in> set (updatePromises (rank_queue e req))"
    "r \<in> set (queue_after (rank_queue e req))" "row_id r = i"
  shows "pos r = Some k"
proof -
  from assms(4) have "r \<in> set (foldl update_pos (queue e) (updatePromises (rank_queue e req)))"
    by (simp add: rank_queue_success(2) [OF assms(1)])
  with update_ids_distinct [OF assms(1,2)] assms(3) show ?thesis
    using assms(5) by (rule update_pos_written)
qed

lemma pinned_update:
  assumes "rerank_succeeds e req sid" "pinned_song e req sid = Some p"
  shows "(row_id p, 0) \<in> set (updatePromises (rank_queue e req))"
  by (simp add: rank_queue_success(1) [OF assms(1)] assms(2))

lemma ranked_update:
  assumes "rerank_succeeds e req sid" "i < length (ranked_songs e req sid)"
  shows "(row_id (song (ranked_songs e req sid ! i)),
          int ((if pinned_song e req sid = None then 0 else 1) + i))
         \<in> set (updatePromises (rank_queue e req))"
  using assms(2) by (auto simp: updates_explicit [OF assms(1)] split: option.splits)

text \<open>
  C1, amended: a pass answers with a success report exactly when \<open>rerank_succeeds\<close>
  holds (\<open>successful_rerank\<close>). When it does, the updates are: position \<open>0\<close> for the
  pinned song, if the playing URI matched a loaded row (the song is never scored, so its
  distance plays no part), then consecutive positions from \<open>1\<close> (from \<open>0\<close> when nothing
  is pinned) for the ranked songs. The ranked songs are the songs of the pool, each with
  its weighted distance to the centroid, in ascending order of distance when no distance
  is \<^verbatim>\<open>NaN\<close>; no distance is \<^verbatim>\<open>NaN\<close> when the features found for the songs of the
  pool are moderate. When row identifiers are unique, the table afterwards holds exactly
  these positions for these rows.
\<close>

theorem rerank_positions:
  assumes "rerank_succeeds e req sid"
  shows
  "http_status (response (rank_queue e req)) = 200 \<and>
   (\<forall>uri. currently_playing_uri req = Some uri \<and> uri \<noteq> [] \<and>
          uri \<in> spotify_uri ` set (queued_rows e sid) \<longrightarrow>
      (\<exists>p. pinned_song e req sid = Some p \<and> spotify_uri p = uri \<and>
           p \<in> set (queued_rows e sid))) \<and>
   updatePromises (rank_queue e req) =
     (case pinned_song e req sid of None \<Rightarrow> [] | Some p \<Rightarrow> [(row_id p, 0)]) @
     map (\<lambda>i. (row_id (song (ranked_songs e req sid ! i)),
                int ((if pinned_song e req sid = None then 0 else 1) + i)))
       [0..<length (ranked_songs e req sid)] \<and>
   mset (map song (ranked_songs e req sid)) = mset (ranking_pool e req sid) \<and>
   (\<forall>r\<in>set (ranked_songs e req sid).
      r = score e (pass_centroid e req sid) (pass_weights e req sid) (song r)) \<and>
   (no_nan_distance e req sid \<longrightarrow>
      (\<forall>i j. i < j \<and> j < length (ranked_songs e req sid) \<longrightarrow>
         \<not> js_lt (dist (ranked_songs e req sid ! j)) (dist (ranked_songs e req sid ! i)))) \<and>
   (moderate_lookup e (ranking_pool e req sid) \<longrightarrow> no_nan_distance e req sid) \<and>
   (distinct (map row_id (queue e)) \<longrightarrow>
      (\<forall>r\<in>set (queue_after (rank_queue e req)).
         (\<forall>p. pinned_song e req sid = Some p \<and> row_id r = row_id p \<longrightarrow> pos r = Some 0) \<and>
         (\<forall>i<length (ranked_songs e req sid).
            row_id r = row_id (song (ranked_songs e req sid ! i)) \<longrightarrow>
            pos r = Some (int ((if pinned_song e req sid = None then 0 else 1) + i)))))"
proof (intro conjI)
  show "http_status (response (rank_queue e req)) = 200"
    by (rule rank_queue_success(3) [OF assms])
  show "\<forall>uri. currently_playing_uri req = Some uri \<and> uri \<noteq> [] \<and>
          uri \<in> spotify_uri ` set (queued_rows e sid) \<longrightarrow>
      (\<exists>p. pinned_song e req sid = Some p \<and> spotify_uri p = uri \<and>
           p \<in> set (queued_rows e sid))"
    using pinned_when_matched [of req _ e sid] by blast
  show "updatePromises (rank_queue e req) =
     (case pinned_song e req sid of None \<Rightarrow> [] | Some p \<Rightarrow> [(row_id p, 0)]) @
     map (\<lambda>i. (row_id (song (ranked_songs e req sid ! i)),
                int ((if pinned_song e req sid = None then 0 else 1) + i)))
       [0..<length (ranked_songs e req sid)]"
    by (rule updates_explicit [OF assms])
  show "mset (map song (ranked_songs e req sid)) = mset (ranking_pool e req sid)"
    by (rule mset_ranked_songs)
  show "\<forall>r\<in>set (ranked_songs e req sid).
      r = score e (pass_centroid e req sid) (pass_weights e req sid) (song r)"
    using ranked_songs_score by blast
  show "no_nan_distance e req sid \<longrightarrow>
      (\<forall>i j. i < j \<and> j < length (ranked_songs e req sid) \<longrightarrow>
         \<not> js_lt (dist (ranked_songs e req sid ! j)) (dist (ranked_songs e req sid ! i)))"
    using ranked_sorted by blast
  show "moderate_lookup e (ranking_pool e req sid) \<longrightarrow> no_nan_distance e req sid"
    using moderate_no_nan [OF assms] by blast
  show "distinct (map row_id (queue e)) \<longrightarrow>
      (\<forall>r\<in>set (queue_after (rank_queue e req)).
         (\<forall>p. pinned_song e req sid = Some p \<and> row_id r = row_id p \<longrightarrow> pos r = Some 0) \<and>
         (\<forall>i<length (ranked_songs e req sid).
            row_id r = row_id (song (ranked_songs e req sid ! i)) \<longrightarrow>
            pos r = Some (int ((if pinned_song e req sid = None then 0 else 1) + i))))"
  proof (intro impI ballI conjI allI)
    fix r p
    assume d: "distinct (map row_id (queue e))" and r: "r \<in> set (queue_after (rank_queue e req))"
      and p: "pinned_song e req sid = Some p \<and> row_id r = row_id p"
    from p have "(row_id p, 0) \<in> set (updatePromises (rank_queue e req))"
      using pinned_update [OF assms] by blast
    from final_positions [OF assms d this r] p show "pos r = Some 0" by simp
  next
    fix r i
    assume d: "distinct (map row_id (queue e))" and r: "r \<in> set (queue_after (rank_queue e req))"
      and i: "i < length (ranked_songs e req sid)"
      and eq: "row_id r = row_id (song (ranked_songs e req sid ! i))"
    from final_positions [OF assms d ranked_update [OF assms i] r eq]
    show "pos r = Some (int ((if pinned_song e req sid = None then 0 else 1) + i))" .
  qed
qed

theorem rerank_positions_witness:
  "rerank_succeeds party_env party_request ''s'' \<and>
   moderate_lookup party_env (ranking_pool party_env party_request ''s'') \<and>
   no_nan_distance party_env party_request ''s'' \<and>
   distinct (map row_id (queue party_env)) \<and>
   pinned_song party_env party_request ''s'' = Some (queued ''0'' ''p'' ''P'' 0) \<and>
   updatePromises (rank_queue party_env party_request) =
     [(''0'', 0), (''1'', 1), (''5'', 2), (''4'', 3), (''3'', 4), (''6'', 5)] \<and>
   \<not> js_lt (dist (ranked_songs party_env party_request ''s'' ! 3))
           (dist (ranked_songs party_env party_request ''s'' ! 2)) \<and>
   map (\<lambda>r. (row_id r, pos r)) (queue_after (rank_queue party_env party_request)) =
     [(''0'', Some 0), (''1'', Some 1), (''2'', Some 2), (''3'', Some 4), (''4'', Some 3),
      (''5'', Some 2), (''6'', Some 5)]"
proof -
  note t = rerank_positions [OF party_succeeds]
  have u: "updatePromises (rank_queue party_env party_request) =
     [(''0'', 0), (''1'', 1), (''5'', 2), (''4'', 3), (''3'', 4), (''6'', 5)]"
    using t by (simp add: party_pinned party_ranked queued_title upt_rec)
  have "moderate_lookup party_env (ranking_pool party_env party_request ''s'') \<longrightarrow>
      no_nan_distance party_env party_request ''s''"
    using t by (elim conjE)
  with party_moderate have n: "no_nan_distance party_env party_request ''s''" by blast
  have "no_nan_distance party_env party_request ''s'' \<longrightarrow>
      (\<forall>i j. i < j \<and> j < length (ranked_songs party_env party_request ''s'') \<longrightarrow>
         \<not> js_lt (dist (ranked_songs party_env party_request ''s'' ! j))
                 (dist (ranked_songs party_env party_request ''s'' ! i)))"
    using t by (elim conjE)
  with n
  have "2 < (3::nat) \<and> 3 < length (ranked_songs party_env party_request ''s'') \<longrightarrow>
         \<not> js_lt (dist (ranked_songs party_env party_request ''s'' ! 3))
                 (dist (ranked_songs party_env party_request ''s'' ! 2))"
    by blast
  then have s: "\<not> js_lt (dist (ranked_songs party_env party_request ''s'' ! 3))
           (dist (ranked_songs party_env party_request ''s'' ! 2))"
    by (simp add: length_ranked_songs party_pool)
  have p: "map (\<lambda>r. (row_id r, pos r)) (queue_after (rank_queue party_env party_request)) =
     [(''0'', Some 0), (''1'', Some 1), (''2'', Some 2), (''3'', Some 4), (''4'', Some 3),
      (''5'', Some 2), (''6'', Some 5)]"
    by (simp add: party_queue_after queued_def)
  from party_succeeds party_moderate n party_distinct party_pinned u s p
  show ?thesis by blast
qed

section \<open>A pass with a distance that is not a number\<close>

lemma plain_reaches:
  "reaches_store wide_env plain_request ''s''" "reaches_store loud_env plain_request ''s''"
  by (simp_all add: reaches_store_def truthy_def wide_env_def loud_env_def party_env_def
        plain_request_def)

lemma clean_letters:
  "trim (toLowerCase ''A'') = ''a''" "trim (toLowerCase ''B'') = ''b''"
  "trim (toLowerCase ''C'') = ''c''" "trim (toLowerCase ''D'') = ''d''"
  "trim (toLowerCase ''E'') = ''e''"
  by code_simp+

lemma wide_lookup:
  "getFeaturesFromDataset wide_env ''A'' = Some (features vast wide wide wide)"
  "getFeaturesFromDataset wide_env ''B'' = Some (features (- vast) (- wide) (- wide) (- wide))"
  "getFeaturesFromDataset wide_env ''C'' = Some (features 0 (5 * wide) 0 0)"
  "getFeaturesFromDataset wide_env ''D'' = Some (features vast 0 0 0)"
  "getFeaturesFromDataset wide_env ''E'' = Some (features 0 (3 * wide) 0 0)"
  by (simp_all add: getFeaturesFromDataset_def clean_letters wide_env_def party_env_def
        found_def first_features_def features_def)

lemma wide_queued_rows: "queued_rows wide_env ''s'' = queue wide_env"
  by (simp add: queued_rows_def wide_env_def party_env_def queued_def pos_key_def)

lemma wide_pool:
  "pinned_song wide_env plain_request ''s'' = None"
  "ranking_pool wide_env plain_request ''s'' =
     [queued ''1'' ''a'' ''A'' 0, queued ''2'' ''b'' ''B'' 1, queued ''3'' ''c'' ''C'' 2,
      queued ''4'' ''d'' ''D'' 3, queued ''5'' ''e'' ''E'' 4]"
  by (simp_all add: pinned_song_def ranking_pool_def wide_queued_rows separate_playing_def
        plain_request_def truthy_def) (simp add: wide_env_def party_env_def)

lemma wide_reference:
  "reference_features wide_env (ranking_pool wide_env plain_request ''s'') =
     [features vast wide wide wide, features (- vast) (- wide) (- wide) (- wide)]"
  by (simp add: wide_pool reference_features_def map_filter_def queued_title wide_lookup)

lemma is_double_minus: "is_double x \<Longrightarrow> is_double (- x)"
proof -
  assume "is_double x"
  then obtain m e :: int where "x = of_int m * 2 powr of_int e" "\<bar>m\<bar> < 2 ^ 53"
    "- 1074 \<le> e" "e \<le> 971" unfolding is_double_def by blast
  then show ?thesis by (intro is_doubleI [of _ "- m" e]) simp_all
qed

lemma is_double_wide:
  "is_double wide" "is_double (wide\<^sup>2)" "is_double (2 * wide\<^sup>2)" "is_double (1 / wide\<^sup>2)"
  "is_double (5 * wide)" "is_double (3 * wide)" "is_double (25 * wide\<^sup>2)"
  "is_double (9 * wide\<^sup>2)"
proof -
  show "is_double wide"
    unfolding wide_def by (rule is_doubleI [of _ 1 30]) (simp_all add: powr_numeral)
  show "is_double (wide\<^sup>2)"
    unfolding wide_def by (rule is_doubleI [of _ 1 60]) (simp_all add: powr_numeral)
  show "is_double (2 * wide\<^sup>2)"
    unfolding wide_def by (rule is_doubleI [of _ 1 61]) (simp_all add: powr_numeral)
  show "is_double (1 / wide\<^sup>2)"
    unfolding wide_def by (rule is_doubleI [of _ 1 "- 60"]) (simp_all add: powr_minus_divide)
  show "is_double (5 * wide)"
    unfolding wide_def by (rule is_doubleI [of _ 5 30]) (simp_all add: powr_numeral)
  show "is_double (3 * wide)"
    unfolding wide_def by (rule is_doubleI [of _ 3 30]) (simp_all add: powr_numeral)
  show "is_double (25 * wide\<^sup>2)"
    unfolding wide_def by (rule is_doubleI [of _ 25 60]) (simp_all add: powr_numeral)
  show "is_double (9 * wide\<^sup>2)"
    unfolding wide_def by (rule is_doubleI [of _ 9 60]) (simp_all add: powr_numeral)
qed

lemma is_double_vast: "is_double vast"
  unfolding vast_def by (rule is_doubleI [of _ 1 600]) (simp_all add: powr_numeral)

lemma vast_square: "round_double (vast\<^sup>2) = PInf"
  unfolding vast_def by (rule round_double_overflow) simp

lemma wide_absorbs: "round_double (wide\<^sup>2 + micro) = Fin (wide\<^sup>2)"
proof -
  have "round_double (wide\<^sup>2 + micro) = Fin (of_int (2 ^ 52) * 2 powr of_int 8)"
    unfolding wide_def micro_def
    by (rule round_double_eval [where E = 60]) (simp_all add: powr_numeral)
  then show ?thesis by (simp add: wide_def powr_numeral)
qed

lemma wide_nonzero: "wide \<noteq> 0" "wide\<^sup>2 \<noteq> 0"
  by (simp_all add: wide_def)

lemma wide_centroid: "pass_centroid wide_env plain_request ''s'' = features 0 0 0 0"
  by (simp add: pass_centroid_def wide_reference computeCentroid_def features_def
        round_double_representable [OF is_double_vast]
        round_double_representable [OF is_double_wide(1)])

lemma wide_mean:
  "double_mean [Fin vast, Fin (- vast)] = Fin 0" "double_mean [Fin wide, Fin (- wide)] = Fin 0"
  by (simp_all add: double_mean_def double_sum_def
        round_double_representable [OF is_double_vast]
        round_double_representable [OF is_double_wide(1)])

lemma wide_variance:
  "double_variance [Fin vast, Fin (- vast)] = PInf"
  "double_variance [Fin wide, Fin (- wide)] = Fin (wide\<^sup>2)"
proof -
  show "double_variance [Fin vast, Fin (- vast)] = PInf"
    unfolding double_variance_def wide_mean
    by (simp add: double_sum_def vast_square
          round_double_representable [OF is_double_vast]
          round_double_representable [OF is_double_minus [OF is_double_vast]])
  have h: "round_double (2 * wide\<^sup>2 / 2) = Fin (wide\<^sup>2)"
    using round_double_representable [OF is_double_wide(2)] by simp
  show "double_variance [Fin wide, Fin (- wide)] = Fin (wide\<^sup>2)"
    unfolding double_variance_def wide_mean
    using h
    by (simp add: double_sum_def
          round_double_representable [OF is_double_wide(1)]
          round_double_representable [OF is_double_minus [OF is_double_wide(1)]]
          round_double_representable [OF is_double_wide(2)]
          round_double_representable [OF is_double_wide(3)])
qed

lemma wide_weights:
  "pass_weights wide_env plain_request ''s'' =
     \<lparr> tempo = Fin 0, energy = Fin (1 / wide\<^sup>2), danceability = Fin (1 / wide\<^sup>2),
       valence = Fin (1 / wide\<^sup>2) \<rparr>"
  using wide_nonzero
  by (simp add: pass_weights_def wide_reference computeDynamicWeights_many features_def
        default_epsilon_micro spec_weight_def wide_variance wide_absorbs
        round_double_representable [OF is_double_wide(4)])

lemma sqrt_squares: "sqrt 25 = 5" "sqrt 9 = 3"
  by (rule real_sqrt_unique; simp)+

lemma wide_term:
  assumes "is_double (k * wide)" "is_double (k\<^sup>2 * wide\<^sup>2)"
  shows "js_mul (Fin (1 / wide\<^sup>2)) (Math_pow (js_sub (Fin (k * wide)) (Fin 0)) 2) =
         round_double (k\<^sup>2)"
proof -
  have "js_sub (Fin (k * wide)) (Fin 0) = Fin (k * wide)"
    using round_double_representable [OF assms(1)] by simp
  moreover have "Math_pow (Fin (k * wide)) 2 = Fin (k\<^sup>2 * wide\<^sup>2)"
    using round_double_representable [OF assms(2)] by (simp add: power_mult_distrib)
  ultimately show ?thesis using wide_nonzero by simp
qed

lemma wide_distances:
  "distance (features vast wide wide wide) (features 0 0 0 0)
     \<lparr> tempo = Fin 0, energy = Fin (1 / wide\<^sup>2), danceability = Fin (1 / wide\<^sup>2),
       valence = Fin (1 / wide\<^sup>2) \<rparr> = NaN"
  "distance (features (- vast) (- wide) (- wide) (- wide)) (features 0 0 0 0)
     \<lparr> tempo = Fin 0, energy = Fin (1 / wide\<^sup>2), danceability = Fin (1 / wide\<^sup>2),
       valence = Fin (1 / wide\<^sup>2) \<rparr> = NaN"
  "distance (features 0 (5 * wide) 0 0) (features 0 0 0 0)
     \<lparr> tempo = Fin 0, energy = Fin (1 / wide\<^sup>2), danceability = Fin (1 / wide\<^sup>2),
       valence = Fin (1 / wide\<^sup>2) \<rparr> = Fin 5"
  "distance (features vast 0 0 0) (features 0 0 0 0)
     \<lparr> tempo = Fin 0, energy = Fin (1 / wide\<^sup>2), danceability = Fin (1 / wide\<^sup>2),
       valence = Fin (1 / wide\<^sup>2) \<rparr> = NaN"
  "distance (features 0 (3 * wide) 0 0) (features 0 0 0 0)
     \<lparr> tempo = Fin 0, energy = Fin (1 / wide\<^sup>2), danceability = Fin (1 / wide\<^sup>2),
       valence = Fin (1 / wide\<^sup>2) \<rparr> = Fin 3"
proof -
  have v: "js_mul (Fin 0) (Math_pow (js_sub (Fin vast) (Fin 0)) 2) = NaN"
    "js_mul (Fin 0) (Math_pow (js_sub (Fin (- vast)) (Fin 0)) 2) = NaN"
    by (simp_all add: vast_square round_double_representable [OF is_double_vast]
          round_double_representable [OF is_double_minus [OF is_double_vast]])
  have t5: "js_mul (Fin (1 / wide\<^sup>2)) (Math_pow (js_sub (Fin (5 * wide)) (Fin 0)) 2) = Fin 25"
    using wide_term [of 5] is_double_wide by simp
  have t3: "js_mul (Fin (1 / wide\<^sup>2)) (Math_pow (js_sub (Fin (3 * wide)) (Fin 0)) 2) = Fin 9"
    using wide_term [of 3] is_double_wide by simp
  show "distance (features vast wide wide wide) (features 0 0 0 0)
     \<lparr> tempo = Fin 0, energy = Fin (1 / wide\<^sup>2), danceability = Fin (1 / wide\<^sup>2),
       valence = Fin (1 / wide\<^sup>2) \<rparr> = NaN"
    unfolding distance_def features_def by (simp only: AudioFeatures.simps v js_add.simps Math_sqrt.simps)
  show "distance (features (- vast) (- wide) (- wide) (- wide)) (features 0 0 0 0)
     \<lparr> tempo = Fin 0, energy = Fin (1 / wide\<^sup>2), danceability = Fin (1 / wide\<^sup>2),
       valence = Fin (1 / wide\<^sup>2) \<rparr> = NaN"
    unfolding distance_def features_def by (simp only: AudioFeatures.simps v js_add.simps Math_sqrt.simps)
  show "distance (features vast 0 0 0) (features 0 0 0 0)
     \<lparr> tempo = Fin 0, energy = Fin (1 / wide\<^sup>2), danceability = Fin (1 / wide\<^sup>2),
       valence = Fin (1 / wide\<^sup>2) \<rparr> = NaN"
    unfolding distance_def features_def by (simp only: AudioFeatures.simps v js_add.simps Math_sqrt.simps)
  show "distance (features 0 (5 * wide) 0 0) (features 0 0 0 0)
     \<lparr> tempo = Fin 0, energy = Fin (1 / wide\<^sup>2), danceability = Fin (1 / wide\<^sup>2),
       valence = Fin (1 / wide\<^sup>2) \<rparr> = Fin 5"
    unfolding distance_def features_def
    by (simp only: AudioFeatures.simps t5) (simp add: sqrt_squares)
  show "distance (features 0 (3 * wide) 0 0) (features 0 0 0 0)
     \<lparr> tempo = Fin 0, energy = Fin (1 / wide\<^sup>2), danceability = Fin (1 / wide\<^sup>2),
       valence = Fin (1 / wide\<^sup>2) \<rparr> = Fin 3"
    unfolding distance_def features_def
    by (simp only: AudioFeatures.simps t3) (simp add: sqrt_squares)
qed

lemma wide_scored:
  "scored_pool wide_env plain_request ''s'' =
     [\<lparr> song = queued ''1'' ''a'' ''A'' 0,
        song_features = Some (features vast wide wide wide), dist = NaN \<rparr>,
      \<lparr> song = queued ''2'' ''b'' ''B'' 1,
        song_features = Some (features (- vast) (- wide) (- wide) (- wide)), dist = NaN \<rparr>,
      \<lparr> song = queued ''3'' ''c'' ''C'' 2,
        song_features = Some (features 0 (5 * wide) 0 0), dist = Fin 5 \<rparr>,
      \<lparr> song = queued ''4'' ''d'' ''D'' 3,
        song_features = Some (features vast 0 0 0), dist = NaN \<rparr>,
      \<lparr> song = queued ''5'' ''e'' ''E'' 4,
        song_features = Some (features 0 (3 * wide) 0 0), dist = Fin 3 \<rparr>]"
  by (simp add: scored_pool_def wide_pool wide_centroid wide_weights score_def queued_title
        wide_lookup wide_distances)

lemma wide_ranked:
  "ranked_songs wide_env plain_request ''s'' = scored_pool wide_env plain_request ''s''"
proof -
  let ?a = "\<lparr> song = queued ''1'' ''a'' ''A'' 0,
        song_features = Some (features vast wide wide wide), dist = NaN \<rparr>"
  have "compare_ranked ?a ?a = NaN" by (simp add: compare_ranked_def)
  moreover have "?a \<in> set (scored_pool wide_env plain_request ''s'')"
    by (simp add: wide_scored)
  ultimately have "\<not> consistent_comparator compare_ranked (scored_pool wide_env plain_request ''s'')"
    unfolding consistent_comparator_def by blast
  moreover have "engine_sort_ranked wide_env = (\<lambda>xs. xs)"
    by (simp add: wide_env_def party_env_def)
  moreover have "ranked_songs wide_env plain_request ''s'' =
      array_sort (engine_sort_ranked wide_env) compare_ranked
        (scored_pool wide_env plain_request ''s'')"
    by (simp add: ranked_songs_def rank_songs_def scored_pool_def)
  ultimately show ?thesis by (simp add: array_sort_def)
qed

lemma wide_succeeds: "rerank_succeeds wide_env plain_request ''s''"
proof -
  have "queue_select_error wide_env = None" by (simp add: wide_env_def party_env_def)
  moreover have "2 < length (ranking_pool wide_env plain_request ''s'')"
    by (simp add: wide_pool)
  moreover have "reference_features wide_env (ranking_pool wide_env plain_request ''s'') \<noteq> []"
    by (simp add: wide_reference)
  ultimately show ?thesis using plain_reaches by (simp add: rerank_succeeds_def)
qed

lemma finite_features_features:
  "is_double t \<Longrightarrow> is_double x \<Longrightarrow> is_double d \<Longrightarrow> is_double v \<Longrightarrow>
   finite_features (features t x d v)"
  by (simp add: finite_features_def features_def)

text \<open>
  C1, as stated, fails on the code. All features of \<open>wide_env\<close> are finite. The tempos of
  the two reference songs are \<open>vast\<close> and \<open>- vast\<close>: their variance is \<^verbatim>\<open>Infinity\<close> and the
  weight of the tempo is \<open>0\<close>; the square of the tempo difference of the songs \<open>A\<close>, \<open>B\<close>
  and \<open>D\<close> is \<^verbatim>\<open>Infinity\<close> too, and their distance is \<^verbatim>\<open>NaN\<close>. The comparison function
  answers \<^verbatim>\<open>NaN\<close> for them, and the engine leaves the array as it is: the pass writes
  position \<open>2\<close> for the song \<open>C\<close> at distance \<open>5\<close> and position \<open>4\<close> for the song \<open>E\<close> at
  distance \<open>3\<close>.
\<close>

theorem rerank_positions_counterexample:
  "rerank_succeeds wide_env plain_request ''s'' \<and>
   finite_features (features vast wide wide wide) \<and>
   finite_features (features (- vast) (- wide) (- wide) (- wide)) \<and>
   finite_features (features 0 (5 * wide) 0 0) \<and>
   finite_features (features vast 0 0 0) \<and>
   finite_features (features 0 (3 * wide) 0 0) \<and>
   engine_sort_ranked wide_env (scored_pool wide_env plain_request ''s'') =
     scored_pool wide_env plain_request ''s'' \<and>
   map (\<lambda>r. (row_id (song r), dist r)) (ranked_songs wide_env plain_request ''s'') =
     [(''1'', NaN), (''2'', NaN), (''3'', Fin 5), (''4'', NaN), (''5'', Fin 3)] \<and>
   updatePromises (rank_queue wide_env plain_request) =
     [(''1'', 0), (''2'', 1), (''3'', 2), (''4'', 3), (''5'', 4)] \<and>
   js_lt (Fin 3) (Fin 5)"
proof -
  have f: "finite_features (features vast wide wide wide)"
    "finite_features (features (- vast) (- wide) (- wide) (- wide))"
    "finite_features (features 0 (5 * wide) 0 0)"
    "finite_features (features vast 0 0 0)"
    "finite_features (features 0 (3 * wide) 0 0)"
    by (intro finite_features_features is_double_vast is_double_wide is_double_small
          is_double_minus)+
  have e: "engine_sort_ranked wide_env (scored_pool wide_env plain_request ''s'') =
     scored_pool wide_env plain_request ''s''"
    by (simp add: wide_env_def party_env_def)
  have r: "map (\<lambda>r. (row_id (song r), dist r)) (ranked_songs wide_env plain_request ''s'') =
     [(''1'', NaN), (''2'', NaN), (''3'', Fin 5), (''4'', NaN), (''5'', Fin 3)]"
    by (simp add: wide_ranked wide_scored queued_title)
  have u: "updatePromises (rank_queue wide_env plain_request) =
     [(''1'', 0), (''2'', 1), (''3'', 2), (''4'', 3), (''5'', 4)]"
    by (simp add: rank_queue_success(1) [OF wide_succeeds] wide_pool wide_ranked wide_scored
          queued_title)
  from wide_succeeds f e r u show ?thesis by simp
qed


section \<open>Unresolved songs and ties\<close>

lemma scored_dist_key:
  assumes "scored r" "d = PInf \<or> (\<exists>a. d = Fin a)"
  shows "dist r = d \<longleftrightarrow> rank_key r = (d = PInf, the_real d)"
proof -
  from assms(1) consider "dist r = PInf" | a where "dist r = Fin a"
    unfolding scored_def by blast
  then show ?thesis
  proof cases
    case 1
    with assms(2) show ?thesis by (cases d) (auto simp: rank_key_def)
  next
    case 2
    with assms(2) show ?thesis by (cases d) (auto simp: rank_key_def)
  qed
qed

lemma stable_ties:
  assumes "\<forall>x\<in>set xs. scored x"
  shows "filter (\<lambda>r. dist r = d) (sort_key rank_key xs) = filter (\<lambda>r. dist r = d) xs"
proof (cases "d = PInf \<or> (\<exists>a. d = Fin a)")
  case True
  have "filter (\<lambda>r. dist r = d) (sort_key rank_key xs) =
        filter (\<lambda>r. rank_key r = (d = PInf, the_real d)) (sort_key rank_key xs)"
    using assms by (intro filter_cong refl scored_dist_key [OF _ True]) simp
  also have "\<dots> = filter (\<lambda>r. rank_key r = (d = PInf, the_real d)) xs"
    by (rule sort_key_stable)
  also have "\<dots> = filter (\<lambda>r. dist r = d) xs"
    using assms by (intro filter_cong refl scored_dist_key [OF _ True, symmetric]) simp
  finally show ?thesis .
next
  case False
  then have "\<forall>x\<in>set xs. dist x \<noteq> d" using assms unfolding scored_def by auto
  then have "filter (\<lambda>r. dist r = d) xs = []"
    and "filter (\<lambda>r. dist r = d) (sort_key rank_key xs) = []"
    by (simp_all add: filter_empty_conv)
  then show ?thesis by simp
qed

lemma ranked_ties:
  assumes "no_nan_distance e req sid"
  shows "filter (\<lambda>r. dist r = d) (ranked_songs e req sid) =
         filter (\<lambda>r. dist r = d) (scored_pool e req sid)"
  unfolding ranked_songs_sort_key [OF assms]
  by (rule stable_ties [OF scored_pool_scored [OF assms]])

lemma unresolved_filter:
  assumes "\<forall>r\<in>set xs. song_features r = None \<longrightarrow> dist r = PInf"
  shows "filter (\<lambda>r. song_features r = None) xs =
         filter (\<lambda>r. song_features r = None) (filter (\<lambda>r. dist r = PInf) xs)"
  using assms by (induction xs) auto

lemma loud_lookup:
  "getFeaturesFromDataset loud_env ''X'' = Some (vec 0)"
  "getFeaturesFromDataset loud_env ''Y'' = None"
  "getFeaturesFromDataset loud_env ''Z'' = Some (vec loud)"
  by (simp_all add: getFeaturesFromDataset_def clean_titles loud_env_def party_env_def
        found_def first_features_def vec_def)

lemma loud_queued_rows: "queued_rows loud_env ''s'' = queue loud_env"
  by (simp add: queued_rows_def loud_env_def party_env_def queued_def pos_key_def)

lemma loud_pool:
  "pinned_song loud_env plain_request ''s'' = None"
  "ranking_pool loud_env plain_request ''s'' =
     [queued ''1'' ''x'' ''X'' 0, queued ''2'' ''y'' ''Y'' 1, queued ''3'' ''z'' ''Z'' 2]"
  by (simp_all add: pinned_song_def ranking_pool_def loud_queued_rows separate_playing_def
        plain_request_def truthy_def) (simp add: loud_env_def party_env_def)

lemma loud_reference:
  "reference_features loud_env (ranking_pool loud_env plain_request ''s'') = [vec 0]"
  by (simp add: loud_pool reference_features_def map_filter_def queued_title loud_lookup)

lemma is_double_loud: "is_double loud"
  unfolding loud_def by (rule is_doubleI [of _ 1 512]) (simp_all add: powr_numeral)

lemma loud_square: "round_double (loud\<^sup>2) = PInf"
  unfolding loud_def by (rule round_double_overflow) simp

lemma loud_distances:
  "distance (vec 0) (vec 0) unit_weights = Fin 0"
  "distance (vec loud) (vec 0) unit_weights = PInf"
  by (simp_all add: distance_def vec_def unit_weights_def loud_square
        round_double_representable [OF is_double_loud])

lemma loud_scored:
  "scored_pool loud_env plain_request ''s'' =
     [\<lparr> song = queued ''1'' ''x'' ''X'' 0, song_features = Some (vec 0), dist = Fin 0 \<rparr>,
      \<lparr> song = queued ''2'' ''y'' ''Y'' 1, song_features = None, dist = PInf \<rparr>,
      \<lparr> song = queued ''3'' ''z'' ''Z'' 2, song_features = Some (vec loud), dist = PInf \<rparr>]"
proof -
  have c: "pass_centroid loud_env plain_request ''s'' = vec 0"
    by (simp add: pass_centroid_def loud_reference computeCentroid_single number_features_vec
          is_double_small)
  have w: "pass_weights loud_env plain_request ''s'' = unit_weights"
    by (simp add: pass_weights_def loud_reference computeDynamicWeights_few)
  show ?thesis
    by (simp add: scored_pool_def loud_pool c w score_def queued_title loud_lookup
          loud_distances)
qed

lemma loud_no_nan: "no_nan_distance loud_env plain_request ''s''"
  by (simp add: no_nan_distance_def loud_scored)

lemma loud_ranked:
  "ranked_songs loud_env plain_request ''s'' = scored_pool loud_env plain_request ''s''"
  by (simp add: ranked_songs_sort_key [OF loud_no_nan] loud_scored rank_key_def)

lemma loud_succeeds: "rerank_succeeds loud_env plain_request ''s''"
proof -
  have "queue_select_error loud_env = None" by (simp add: loud_env_def party_env_def)
  moreover have "2 < length (ranking_pool loud_env plain_request ''s'')"
    by (simp add: loud_pool)
  moreover have "reference_features loud_env (ranking_pool loud_env plain_request ''s'') \<noteq> []"
    by (simp add: loud_reference)
  ultimately show ?thesis using plain_reaches by (simp add: rerank_succeeds_def)
qed

text \<open>
  C3, as stated, fails on the code. In \<open>loud_env\<close> the song \<open>Y\<close> has no features and comes
  before the song \<open>Z\<close> in the pool; \<open>Z\<close> has finite features, but the square of its tempo
  difference to the centroid is \<^verbatim>\<open>Infinity\<close>, and so is its distance. The comparison
  function answers \<open>0\<close> for the two, the sort keeps their order, and the song without
  features is placed before a song with features.
\<close>

theorem rerank_unresolved_counterexample:
  "rerank_succeeds loud_env plain_request ''s'' \<and>
   finite_features (vec 0) \<and> finite_features (vec loud) \<and>
   map (\<lambda>r. (song_title (song r), song_features r, dist r))
     (ranked_songs loud_env plain_request ''s'') =
     [(''X'', Some (vec 0), Fin 0), (''Y'', None, PInf), (''Z'', Some (vec loud), PInf)] \<and>
   updatePromises (rank_queue loud_env plain_request) = [(''1'', 0), (''2'', 1), (''3'', 2)]"
proof -
  have f: "finite_features (vec 0)" "finite_features (vec loud)"
    by (intro finite_features_vec is_double_small is_double_loud)+
  have r: "map (\<lambda>r. (song_title (song r), song_features r, dist r))
     (ranked_songs loud_env plain_request ''s'') =
     [(''X'', Some (vec 0), Fin 0), (''Y'', None, PInf), (''Z'', Some (vec loud), PInf)]"
    by (simp add: loud_ranked loud_scored queued_title)
  have u: "updatePromises (rank_queue loud_env plain_request) =
     [(''1'', 0), (''2'', 1), (''3'', 2)]"
    by (simp add: rank_queue_success(1) [OF loud_succeeds] loud_pool loud_ranked loud_scored
          queued_title)
  from loud_succeeds f r u show ?thesis by simp
qed

text \<open>
  C3, amended: in a pass that gets to the sort, every ranked entry without features has
  the distance \<^verbatim>\<open>Infinity\<close>. When no distance is \<^verbatim>\<open>NaN\<close>, in the sorted array every
  entry with a finite distance comes before every entry without features, distances
  ascend, the entries without features are in the order they had in the pool, and so are
  the entries of any one distance. When the features found for the songs of the pool are
  moderate, no distance is \<^verbatim>\<open>NaN\<close>, every entry with features has a finite distance, and
  so every entry with features comes before every entry without.
\<close>

theorem rerank_unresolved_last:
  assumes "rerank_succeeds e req sid"
  shows
  "(\<forall>r\<in>set (ranked_songs e req sid).
      song_features r = getFeaturesFromDataset e (song_title (song r)) \<and>
      (song_features r = None \<longrightarrow> dist r = PInf)) \<and>
   (no_nan_distance e req sid \<longrightarrow>
      (\<forall>i j. i < length (ranked_songs e req sid) \<and> j < length (ranked_songs e req sid) \<and>
             (\<exists>a. dist (ranked_songs e req sid ! i) = Fin a) \<and>
             song_features (ranked_songs e req sid ! j) = None \<longrightarrow> i < j) \<and>
      (\<forall>i j. i < j \<and> j < length (ranked_songs e req sid) \<longrightarrow>
         \<not> js_lt (dist (ranked_songs e req sid ! j)) (dist (ranked_songs e req sid ! i))) \<and>
      filter (\<lambda>r. song_features r = None) (ranked_songs e req sid) =
        filter (\<lambda>r. song_features r = None) (scored_pool e req sid) \<and>
      (\<forall>d. filter (\<lambda>r. dist r = d) (ranked_songs e req sid) =
           filter (\<lambda>r. dist r = d) (scored_pool e req sid))) \<and>
   (moderate_lookup e (ranking_pool e req sid) \<longrightarrow>
      no_nan_distance e req sid \<and>
      (\<forall>r\<in>set (ranked_songs e req sid). song_features r \<noteq> None \<longrightarrow> (\<exists>a. dist r = Fin a)) \<and>
      (\<forall>i j. i < length (ranked_songs e req sid) \<and> j < length (ranked_songs e req sid) \<and>
             song_features (ranked_songs e req sid ! i) \<noteq> None \<and>
             song_features (ranked_songs e req sid ! j) = None \<longrightarrow> i < j))"
proof -
  let ?rs = "ranked_songs e req sid"
  have sentinel: "\<forall>r\<in>set ?rs. song_features r = None \<longrightarrow> dist r = PInf"
    using scored_pool_sentinel by (simp add: set_ranked_songs)
  have one: "\<forall>r\<in>set ?rs.
      song_features r = getFeaturesFromDataset e (song_title (song r)) \<and>
      (song_features r = None \<longrightarrow> dist r = PInf)"
  proof
    fix r assume r: "r \<in> set ?rs"
    from ranked_songs_score [OF r]
    have "song_features r = getFeaturesFromDataset e (song_title (song r))"
      by (metis score_features)
    with sentinel r show "song_features r = getFeaturesFromDataset e (song_title (song r)) \<and>
      (song_features r = None \<longrightarrow> dist r = PInf)" by blast
  qed
  have before: "\<forall>i j. i < length ?rs \<and> j < length ?rs \<and> (\<exists>a. dist (?rs ! i) = Fin a) \<and>
          song_features (?rs ! j) = None \<longrightarrow> i < j"
    if n: "no_nan_distance e req sid"
  proof (intro allI impI)
    fix i j
    assume a: "i < length ?rs \<and> j < length ?rs \<and> (\<exists>a. dist (?rs ! i) = Fin a) \<and>
          song_features (?rs ! j) = None"
    then have "?rs ! j \<in> set ?rs" by simp
    with sentinel a have ij: "dist (?rs ! j) = PInf" by blast
    from a obtain x where fi: "dist (?rs ! i) = Fin x" by blast
    with ij have lt: "js_lt (dist (?rs ! i)) (dist (?rs ! j))" by simp
    show "i < j"
    proof (rule ccontr)
      assume "\<not> i < j"
      moreover from fi ij have "i \<noteq> j" by auto
      ultimately have "j < i" by simp
      with a ranked_sorted [OF n] have "\<not> js_lt (dist (?rs ! i)) (dist (?rs ! j))" by blast
      with lt show False by simp
    qed
  qed
  have two: "(\<forall>i j. i < length ?rs \<and> j < length ?rs \<and> (\<exists>a. dist (?rs ! i) = Fin a) \<and>
          song_features (?rs ! j) = None \<longrightarrow> i < j) \<and>
      (\<forall>i j. i < j \<and> j < length ?rs \<longrightarrow> \<not> js_lt (dist (?rs ! j)) (dist (?rs ! i))) \<and>
      filter (\<lambda>r. song_features r = None) ?rs =
        filter (\<lambda>r. song_features r = None) (scored_pool e req sid) \<and>
      (\<forall>d. filter (\<lambda>r. dist r = d) ?rs = filter (\<lambda>r. dist r = d) (scored_pool e req sid))"
    if n: "no_nan_distance e req sid"
  proof (intro conjI)
    show "\<forall>i j. i < length ?rs \<and> j < length ?rs \<and> (\<exists>a. dist (?rs ! i) = Fin a) \<and>
          song_features (?rs ! j) = None \<longrightarrow> i < j"
      using n by (rule before)
    show "\<forall>i j. i < j \<and> j < length ?rs \<longrightarrow> \<not> js_lt (dist (?rs ! j)) (dist (?rs ! i))"
      using ranked_sorted [OF n] by blast
    show ties: "\<forall>d. filter (\<lambda>r. dist r = d) ?rs = filter (\<lambda>r. dist r = d) (scored_pool e req sid)"
      using ranked_ties [OF n] by blast
    have "filter (\<lambda>r. song_features r = None) ?rs =
          filter (\<lambda>r. song_features r = None) (filter (\<lambda>r. dist r = PInf) ?rs)"
      using sentinel by (rule unresolved_filter)
    also have "\<dots> = filter (\<lambda>r. song_features r = None)
          (filter (\<lambda>r. dist r = PInf) (scored_pool e req sid))"
      using ties by simp
    also have "\<dots> = filter (\<lambda>r. song_features r = None) (scored_pool e req sid)"
      using scored_pool_sentinel by (intro unresolved_filter [symmetric]) blast
    finally show "filter (\<lambda>r. song_features r = None) ?rs =
       filter (\<lambda>r. song_features r = None) (scored_pool e req sid)" .
  qed
  have three: "no_nan_distance e req sid \<and>
      (\<forall>r\<in>set ?rs. song_features r \<noteq> None \<longrightarrow> (\<exists>a. dist r = Fin a)) \<and>
      (\<forall>i j. i < length ?rs \<and> j < length ?rs \<and> song_features (?rs ! i) \<noteq> None \<and>
             song_features (?rs ! j) = None \<longrightarrow> i < j)"
    if m: "moderate_lookup e (ranking_pool e req sid)"
  proof (intro conjI)
    show n: "no_nan_distance e req sid" using assms m by (rule moderate_no_nan)
    show f: "\<forall>r\<in>set ?rs. song_features r \<noteq> None \<longrightarrow> (\<exists>a. dist r = Fin a)"
      using moderate_resolved [OF assms m] by (simp add: set_ranked_songs)
    show "\<forall>i j. i < length ?rs \<and> j < length ?rs \<and> song_features (?rs ! i) \<noteq> None \<and>
             song_features (?rs ! j) = None \<longrightarrow> i < j"
    proof (intro allI impI)
      fix i j
      assume a: "i < length ?rs \<and> j < length ?rs \<and> song_features (?rs ! i) \<noteq> None \<and>
             song_features (?rs ! j) = None"
      then have "?rs ! i \<in> set ?rs" by simp
      with f a have "\<exists>a. dist (?rs ! i) = Fin a" by blast
      with a before [OF n] show "i < j" by blast
    qed
  qed
  from one two three show ?thesis by blast
qed

theorem rerank_unresolved_last_witness:
  "rerank_succeeds party_env party_request ''s'' \<and>
   no_nan_distance party_env party_request ''s'' \<and>
   moderate_lookup party_env (ranking_pool party_env party_request ''s'') \<and>
   map (\<lambda>r. song_title (song r)) (scored_pool party_env party_request ''s'') =
     [''X'', ''Y'', ''Z'', ''W'', ''Q''] \<and>
   map (\<lambda>r. (song_title (song r), song_features r \<noteq> None, dist r))
     (ranked_songs party_env party_request ''s'') =
     [(''X'', True, Fin 0), (''W'', True, Fin 0), (''Z'', True, Fin 2),
      (''Y'', False, PInf), (''Q'', False, PInf)] \<and>
   map (\<lambda>r. song_title (song r))
     (filter (\<lambda>r. song_features r = None) (ranked_songs party_env party_request ''s'')) =
     [''Y'', ''Q''] \<and>
   map (\<lambda>r. song_title (song r))
     (filter (\<lambda>r. dist r = Fin 0) (ranked_songs party_env party_request ''s'')) =
     [''X'', ''W'']"
proof -
  note t = rerank_unresolved_last [OF party_succeeds]
  from t party_no_nan
  have a: "filter (\<lambda>r. song_features r = None) (ranked_songs party_env party_request ''s'') =
     filter (\<lambda>r. song_features r = None) (scored_pool party_env party_request ''s'')"
    by blast
  from t party_no_nan
  have b: "filter (\<lambda>r. dist r = Fin 0) (ranked_songs party_env party_request ''s'') =
        filter (\<lambda>r. dist r = Fin 0) (scored_pool party_env party_request ''s'')"
    by blast
  from t party_moderate have n: "no_nan_distance party_env party_request ''s''" by blast
  have c: "map (\<lambda>r. song_title (song r)) (scored_pool party_env party_request ''s'') =
     [''X'', ''Y'', ''Z'', ''W'', ''Q'']"
    by (simp add: party_scored queued_title)
  have d: "map (\<lambda>r. (song_title (song r), song_features r \<noteq> None, dist r))
     (ranked_songs party_env party_request ''s'') =
     [(''X'', True, Fin 0), (''W'', True, Fin 0), (''Z'', True, Fin 2),
      (''Y'', False, PInf), (''Q'', False, PInf)]"
    by (simp add: party_ranked queued_title)
  have e: "map (\<lambda>r. song_title (song r))
     (filter (\<lambda>r. song_features r = None) (ranked_songs party_env party_request ''s'')) =
     [''Y'', ''Q'']"
    unfolding a by (simp add: party_scored queued_title)
  have f: "map (\<lambda>r. song_title (song r))
     (filter (\<lambda>r. dist r = Fin 0) (ranked_songs party_env party_request ''s'')) =
     [''X'', ''W'']"
    unfolding b by (simp add: party_scored queued_title)
  from party_succeeds n party_moderate c d e f show ?thesis by blast
qed

section \<open>Several rows with the playing URI\<close>


text \<open>
  C10: when the playing URI matches loaded rows, the pinned song is the first of them,
  the pool and so the ranked songs hold none of them, and the updates start with
  position \<open>0\<close> for the pinned song. With unique row identifiers, any other loaded row
  with the playing URI gets no update and is in the table afterwards as it was. In the
  example the positions \<open>0\<close> to \<open>6\<close> become \<open>0, 1, 2, 4, 3, 2, 5\<close>.
\<close>

theorem rerank_duplicate_playing:
  assumes "rerank_succeeds e req sid" "currently_playing_uri req = Some uri" "uri \<noteq> []"
    "uri \<in> spotify_uri ` set (queued_rows e sid)"
  shows
  "\<exists>p. find (\<lambda>s. spotify_uri s = uri) (queued_rows e sid) = Some p \<and>
       pinned_song e req sid = Some p \<and>
       ranking_pool e req sid = filter (\<lambda>s. spotify_uri s \<noteq> uri) (queued_rows e sid) \<and>
       (\<forall>r\<in>set (ranked_songs e req sid). spotify_uri (song r) \<noteq> uri) \<and>
       updatePromises (rank_queue e req) =
         (row_id p, 0) # position_updates 1 (ranked_songs e req sid) \<and>
       (distinct (map row_id (queue e)) \<longrightarrow>
          (\<forall>r\<in>set (queued_rows e sid). spotify_uri r = uri \<and> r \<noteq> p \<longrightarrow>
             row_id r \<notin> fst ` set (updatePromises (rank_queue e req)) \<and>
             r \<in> set (queue_after (rank_queue e req))))"
proof -
  from pinned_when_matched [OF assms(2,3,4)] obtain p where
    f: "find (\<lambda>s. spotify_uri s = uri) (queued_rows e sid) = Some p"
    and pin: "pinned_song e req sid = Some p"
    and pq: "p \<in> set (queued_rows e sid)"
    and pool: "ranking_pool e req sid = filter (\<lambda>s. spotify_uri s \<noteq> uri) (queued_rows e sid)"
    by blast
  have ranked: "\<forall>r\<in>set (ranked_songs e req sid). spotify_uri (song r) \<noteq> uri"
  proof
    fix r assume "r \<in> set (ranked_songs e req sid)"
    then have "song r \<in> set (ranking_pool e req sid)" by (rule ranked_song_in_pool)
    then show "spotify_uri (song r) \<noteq> uri" by (simp add: pool)
  qed
  have ups: "updatePromises (rank_queue e req) =
         (row_id p, 0) # position_updates 1 (ranked_songs e req sid)"
    by (simp add: rank_queue_success(1) [OF assms(1)] pin)
  have frame: "distinct (map row_id (queue e)) \<longrightarrow>
          (\<forall>r\<in>set (queued_rows e sid). spotify_uri r = uri \<and> r \<noteq> p \<longrightarrow>
             row_id r \<notin> fst ` set (updatePromises (rank_queue e req)) \<and>
             r \<in> set (queue_after (rank_queue e req)))"
  proof (intro impI ballI)
    fix r
    assume d: "distinct (map row_id (queue e))" and r: "r \<in> set (queued_rows e sid)"
      and m: "spotify_uri r = uri \<and> r \<noteq> p"
    from r have rq: "r \<in> set (queue e)" using queued_rows_subset by blast
    from pq have pqq: "p \<in> set (queue e)" using queued_rows_subset by blast
    have np: "row_id r \<noteq> row_id p"
      using row_id_inj_queue [OF d rq pqq] m by blast
    have nr: "row_id r \<notin> (\<lambda>x. row_id (song x)) ` set (ranked_songs e req sid)"
    proof
      assume "row_id r \<in> (\<lambda>x. row_id (song x)) ` set (ranked_songs e req sid)"
      then obtain x where x: "x \<in> set (ranked_songs e req sid)" "row_id r = row_id (song x)"
        by auto
      then have "song x \<in> set (ranking_pool e req sid)" by (simp add: ranked_song_in_pool)
      then have "song x \<in> set (queue e)"
        using ranking_pool_subset queued_rows_subset by blast
      from row_id_inj_queue [OF d rq this x(2)] have "r = song x" .
      with ranked x(1) m show False by blast
    qed
    have "fst ` set (updatePromises (rank_queue e req)) =
            set (map fst (updatePromises (rank_queue e req)))" by simp
    also have "\<dots> = insert (row_id p) ((\<lambda>x. row_id (song x)) ` set (ranked_songs e req sid))"
      by (simp add: update_ids [OF assms(1)] pin)
    finally have notin: "row_id r \<notin> fst ` set (updatePromises (rank_queue e req))"
      using np nr by simp
    from update_pos_other [OF notin rq]
    have "r \<in> set (queue_after (rank_queue e req))"
      by (simp add: rank_queue_success(2) [OF assms(1)])
    with notin show "row_id r \<notin> fst ` set (updatePromises (rank_queue e req)) \<and>
             r \<in> set (queue_after (rank_queue e req))" by simp
  qed
  from f pin pool ranked ups frame show ?thesis by blast
qed

theorem rerank_duplicate_playing_witness:
  "rerank_succeeds party_env party_request ''s'' \<and>
   currently_playing_uri party_request = Some ''p'' \<and>
   distinct (map row_id (queue party_env)) \<and>
   queued ''2'' ''p'' ''P'' 2 \<in> set (queued_rows party_env ''s'') \<and>
   pinned_song party_env party_request ''s'' = Some (queued ''0'' ''p'' ''P'' 0) \<and>
   ''2'' \<notin> fst ` set (updatePromises (rank_queue party_env party_request)) \<and>
   queued ''2'' ''p'' ''P'' 2 \<in> set (queue_after (rank_queue party_env party_request)) \<and>
   map pos (queue party_env) = [Some 0, Some 1, Some 2, Some 3, Some 4, Some 5, Some 6] \<and>
   map pos (queue_after (rank_queue party_env party_request)) =
     [Some 0, Some 1, Some 2, Some 4, Some 3, Some 2, Some 5]"
proof -
  have cp: "currently_playing_uri party_request = Some ''p''"
    by (simp add: party_request_def)
  have two: "queued ''2'' ''p'' ''P'' 2 \<in> set (queued_rows party_env ''s'')"
    by (simp add: party_queued_rows) (simp add: party_env_def)
  then have m: "''p'' \<in> spotify_uri ` set (queued_rows party_env ''s'')"
    by (metis image_eqI queued_title(3))
  from rerank_duplicate_playing [OF party_succeeds cp _ m] obtain p where
    pin: "pinned_song party_env party_request ''s'' = Some p"
    and frame: "distinct (map row_id (queue party_env)) \<longrightarrow>
          (\<forall>r\<in>set (queued_rows party_env ''s''). spotify_uri r = ''p'' \<and> r \<noteq> p \<longrightarrow>
             row_id r \<notin> fst ` set (updatePromises (rank_queue party_env party_request)) \<and>
             r \<in> set (queue_after (rank_queue party_env party_request)))"
    by auto
  from pin have p: "p = queued ''0'' ''p'' ''P'' 0" by (simp add: party_pinned)
  have ne: "queued ''2'' ''p'' ''P'' 2 \<noteq> p" by (simp add: p queued_def)
  have u2: "spotify_uri (queued ''2'' ''p'' ''P'' 2) = ''p''" by (simp add: queued_title)
  from frame party_distinct two ne u2
  have "row_id (queued ''2'' ''p'' ''P'' 2) \<notin>
          fst ` set (updatePromises (rank_queue party_env party_request)) \<and>
        queued ''2'' ''p'' ''P'' 2 \<in> set (queue_after (rank_queue party_env party_request))"
    by blast
  then have r: "''2'' \<notin> fst ` set (updatePromises (rank_queue party_env party_request))"
    "queued ''2'' ''p'' ''P'' 2 \<in> set (queue_after (rank_queue party_env party_request))"
    by (simp_all add: queued_title)
  have before: "map pos (queue party_env) =
      [Some 0, Some 1, Some 2, Some 3, Some 4, Some 5, Some 6]"
    by (simp add: party_env_def queued_def)
  have after: "map pos (queue_after (rank_queue party_env party_request)) =
     [Some 0, Some 1, Some 2, Some 4, Some 3, Some 2, Some 5]"
    by (simp add: party_queue_after queued_def)
  from party_succeeds cp party_distinct two party_pinned r before after
  show ?thesis by blast
qed



section \<open>Too few songs to rank\<close>


text \<open>
  C4: when the queue was read and at most two songs are left in the ranking pool, the
  pass issues no position update, leaves the table as it was and answers with status 200,
  \<^verbatim>\<open>success: true\<close> and no error; when the loaded queue is not empty, so that the pool is
  formed at all, the message is \<^verbatim>\<open>Not enough songs to rank\<close>.
\<close>

theorem rerank_small_pool:
  assumes "reaches_store e req sid" "queue_select_error e = None"
    "length (ranking_pool e req sid) \<le> 2"
  shows
  "updatePromises (rank_queue e req) = [] \<and>
   queue_after (rank_queue e req) = queue e \<and>
   http_status (response (rank_queue e req)) = 200 \<and>
   (\<exists>j. body (response (rank_queue e req)) = Json j \<and> success j \<and>
        error_message j = None \<and> report j = None \<and>
        (queued_rows e sid \<noteq> [] \<longrightarrow> message j = Some ''Not enough songs to rank''))"
proof (cases "queued_rows e sid = []")
  case True
  then have "rank_queue e req = rank_message e True ''Queue is empty''"
    by (simp add: rank_queue_reached [OF assms(1)] assms(2))
  with True show ?thesis by (simp add: rank_message_def)
next
  case False
  then have "rank_queue e req = rank_message e True ''Not enough songs to rank''"
    by (simp add: rank_queue_reached [OF assms(1)] assms(2,3))
  then show ?thesis by (simp add: rank_message_def)
qed

lemma short_queued_rows: "queued_rows short_env ''s'' = queue short_env"
  by (simp add: queued_rows_def short_env_def party_env_def queued_def pos_key_def)

lemma short_pool:
  "ranking_pool short_env party_request ''s'' =
     [queued ''1'' ''x'' ''X'' 1, queued ''2'' ''y'' ''Y'' 2]"
  by (simp add: ranking_pool_def short_queued_rows separate_playing_def party_request_def
        truthy_def) (simp add: short_env_def queued_def)

theorem rerank_small_pool_witness:
  "reaches_store short_env party_request ''s'' \<and>
   queue_select_error short_env = None \<and>
   length (ranking_pool short_env party_request ''s'') = 2 \<and>
   queued_rows short_env ''s'' \<noteq> [] \<and>
   rank_queue short_env party_request =
     \<lparr> response =
         \<lparr> http_status = 200,
           body = Json \<lparr> success = True, message = Some ''Not enough songs to rank'',
                         error_message = None, report = None \<rparr> \<rparr>,
       updatePromises = [], queue_after = queue short_env \<rparr>"
proof -
  have r: "reaches_store short_env party_request ''s''"
    by (simp add: reaches_store_def truthy_def short_env_def party_env_def party_request_def)
  have q: "queue_select_error short_env = None"
    by (simp add: short_env_def party_env_def)
  have l: "length (ranking_pool short_env party_request ''s'') = 2" by (simp add: short_pool)
  then have l2: "length (ranking_pool short_env party_request ''s'') \<le> 2" by simp
  have ne: "queued_rows short_env ''s'' \<noteq> []"
    by (simp add: short_queued_rows) (simp add: short_env_def)
  from rerank_small_pool [OF r q l2] ne obtain j where
    u: "updatePromises (rank_queue short_env party_request) = []"
    and a: "queue_after (rank_queue short_env party_request) = queue short_env"
    and h: "http_status (response (rank_queue short_env party_request)) = 200"
    and j: "body (response (rank_queue short_env party_request)) = Json j" "success j"
      "error_message j = None" "report j = None" "message j = Some ''Not enough songs to rank''"
    by blast
  from j(2-5) have "j = \<lparr> success = True, message = Some ''Not enough songs to rank'',
                         error_message = None, report = None \<rparr>"
    by (cases j) simp
  with u a h j(1) have "rank_queue short_env party_request =
     \<lparr> response =
         \<lparr> http_status = 200,
           body = Json \<lparr> success = True, message = Some ''Not enough songs to rank'',
                         error_message = None, report = None \<rparr> \<rparr>,
       updatePromises = [], queue_after = queue short_env \<rparr>"
    by (cases "rank_queue short_env party_request"; cases "response (rank_queue short_env party_request)") simp
  with r q l ne show ?thesis by blast
qed




section \<open>Recommendations leave out what the session has seen\<close>


lemma get_recommendations_reached:
  assumes "reaches_store e req sid"
  shows "get_recommendations e req =
     (case played_select_error e of
        Some msg \<Rightarrow> recommend_failure (''Failed to fetch played songs: '' @ msg)
      | None \<Rightarrow>
          if played_rows e sid = [] then
            recommend_message ''No played songs yet. Play some songs first!''
          else if seed_features e sid = [] then
            recommend_message ''Seed songs not found in dataset''
          else
            choose_recommendations e (requested_limit req) (seed_features e sid)
              (case exclusion_select_error e of None \<Rightarrow> seen_rows e sid | Some msg \<Rightarrow> []))"
  using assms
  by (cases "played_select_error e"; cases "exclusion_select_error e")
     (simp_all add: get_recommendations_def reaches_store_def select_played_def
        select_seen_def select_result_simps Let_def seed_features_def requested_limit_def)

lemma get_recommendations_not_reached:
  assumes "req_session_id req = Some sid" "\<not> reaches_store e req sid"
  shows "recommended_uris (get_recommendations e req) = []"
  using assms
  by (auto simp: get_recommendations_def reaches_store_def recommended_uris_def
        recommend_failure_def)

lemma recommended_uris_simps:
  "recommended_uris (recommend_failure m) = []"
  "recommended_uris (recommend_message m) = []"
  "recommended_uris (recommend_nothing m) = []"
  by (simp_all add: recommended_uris_def recommend_failure_def recommend_message_def
        recommend_nothing_def)

lemma set_slice0: "set (slice0 k xs) \<subseteq> set xs"
  by (auto simp: slice0_def dest: in_set_takeD)

lemma score_candidates_uris:
  "r \<in> set (score_candidates X c w cs) \<Longrightarrow> ranked_uri r \<notin> X"
  by (auto simp: score_candidates_def score_candidate_def Let_def)

lemma select_candidates_ok:
  "candidates_select_error e = None \<Longrightarrow>
   error (select_candidates e) = None \<and>
   data (select_candidates e) = Some (take 1000 (popular_songs e))"
  by (simp add: select_candidates_def select_result_simps)

lemma choose_recommendations_ok:
  assumes "candidates_select_error e = None"
    "ranked = array_sort (engine_sort_recommendations e) compare_distance
           (score_candidates (set (map spotify_uri queuedSongs)) (computeCentroid seeds)
              (computeDynamicWeights seeds None) (take 1000 (popular_songs e)))"
  shows "choose_recommendations e k seeds queuedSongs =
     (if take 1000 (popular_songs e) = [] then
        recommend_nothing ''No candidates found in popular_songs''
      else if slice0 k ranked = [] then
        recommend_nothing ''All popular songs are already in queue''
      else
        \<lparr> http_status = 200,
          body = Json
            \<lparr> success = True, message = None, error_message = None,
              recommendations = Some (slice0 k ranked),
              seed_songs_used = Some (length seeds),
              total_candidates = Some (length ranked) \<rparr> \<rparr>)"
  unfolding choose_recommendations_def Let_def assms(2)
  by (simp only: select_candidates_ok [OF assms(1)] option.case)

lemma recommended_uris_choose:
  assumes "candidates_select_error e = None"
  shows "set (recommended_uris (choose_recommendations e k seeds queuedSongs)) \<subseteq>
         ranked_uri ` set (slice0 k (array_sort (engine_sort_recommendations e) compare_distance
           (score_candidates (set (map spotify_uri queuedSongs)) (computeCentroid seeds)
              (computeDynamicWeights seeds None) (take 1000 (popular_songs e)))))"
proof -
  define ranked where "ranked = array_sort (engine_sort_recommendations e) compare_distance
           (score_candidates (set (map spotify_uri queuedSongs)) (computeCentroid seeds)
              (computeDynamicWeights seeds None) (take 1000 (popular_songs e)))"
  note eq = choose_recommendations_ok [OF assms ranked_def, of k]
  have "set (recommended_uris (choose_recommendations e k seeds queuedSongs)) \<subseteq>
          ranked_uri ` set (slice0 k ranked)"
  proof (cases "take 1000 (popular_songs e) = []")
    case True
    then show ?thesis by (simp add: eq recommended_uris_simps)
  next
    case False
    show ?thesis
    proof (cases "slice0 k ranked = []")
      case True
      with False show ?thesis by (simp add: eq recommended_uris_simps)
    next
      case no: False
      with False show ?thesis by (simp add: eq recommended_uris_def)
    qed
  qed
  then show ?thesis by (simp only: ranked_def)
qed

lemma select_candidates_failed:
  "candidates_select_error e = Some msg \<Longrightarrow> error (select_candidates e) = Some msg"
  by (simp add: select_candidates_def select_result_simps)

lemma choose_recommendations_failed:
  assumes "candidates_select_error e = Some msg"
  shows "choose_recommendations e k seeds queuedSongs =
           recommend_failure (''Failed to fetch candidates: '' @ msg)"
  unfolding choose_recommendations_def Let_def
  by (simp only: select_candidates_failed [OF assms] option.case)

lemma choose_recommendations_excludes:
  assumes "u \<in> set (recommended_uris (choose_recommendations e k seeds queuedSongs))"
  shows "u \<notin> spotify_uri ` set queuedSongs"
proof (cases "candidates_select_error e")
  case (Some msg)
  with assms show ?thesis
    by (simp add: choose_recommendations_failed recommended_uris_simps)
next
  case None
  let ?ranked = "array_sort (engine_sort_recommendations e) compare_distance
      (score_candidates (set (map spotify_uri queuedSongs)) (computeCentroid seeds)
         (computeDynamicWeights seeds None) (take 1000 (popular_songs e)))"
  from assms recommended_uris_choose [OF None, of k seeds queuedSongs]
  have "u \<in> ranked_uri ` set (slice0 k ?ranked)" by (rule subsetD [rotated])
  then obtain r where r: "r \<in> set (slice0 k ?ranked)" and u: "u = ranked_uri r"
    by (rule imageE)
  from r have "r \<in> set ?ranked" by (rule subsetD [OF set_slice0])
  then have "r \<in> set (score_candidates (set (map spotify_uri queuedSongs)) (computeCentroid seeds)
         (computeDynamicWeights seeds None) (take 1000 (popular_songs e)))"
    by (simp only: set_array_sort)
  from score_candidates_uris [OF this] have "ranked_uri r \<notin> set (map spotify_uri queuedSongs)" .
  then show ?thesis by (simp add: u)
qed

lemma get_recommendations_cases:
  assumes "reaches_store e req sid" "exclusion_select_error e = None"
  shows "recommended_uris (get_recommendations e req) = [] \<or>
         get_recommendations e req =
           choose_recommendations e (requested_limit req) (seed_features e sid) (seen_rows e sid)"
proof (cases "played_select_error e")
  case (Some msg)
  then show ?thesis
    by (simp add: get_recommendations_reached [OF assms(1)] recommended_uris_simps)
next
  case None
  show ?thesis
  proof (cases "played_rows e sid = []")
    case True
    with None show ?thesis
      by (simp add: get_recommendations_reached [OF assms(1)] recommended_uris_simps)
  next
    case False
    show ?thesis
    proof (cases "seed_features e sid = []")
      case True
      with None False show ?thesis
        by (simp add: get_recommendations_reached [OF assms(1)] recommended_uris_simps)
    next
      case seeds: False
      with None False show ?thesis
        by (simp add: get_recommendations_reached [OF assms(1)] assms(2))
    qed
  qed
qed

text \<open>
  C7, amended: when the read of the session's queued and played rows answers, no URI of
  a row of the session with status \<open>queued\<close> or \<open>played\<close> is among the recommendations,
  whatever the candidate pool: the URIs of these rows make up \<^verbatim>\<open>excludeUris\<close>, and the
  loop skips every candidate whose URI is in it before scoring.
\<close>

theorem recommend_excludes_seen:
  assumes "req_session_id req = Some sid" "exclusion_select_error e = None"
  shows "\<forall>r\<in>set (queue e).
           session_id r = sid \<and> (status r = ''queued'' \<or> status r = ''played'') \<longrightarrow>
           spotify_uri r \<notin> set (recommended_uris (get_recommendations e req))"
proof (intro ballI impI)
  fix r
  assume r: "r \<in> set (queue e)"
    and s: "session_id r = sid \<and> (status r = ''queued'' \<or> status r = ''played'')"
  then have seen: "spotify_uri r \<in> spotify_uri ` set (seen_rows e sid)"
    by (simp add: seen_rows_def)
  show "spotify_uri r \<notin> set (recommended_uris (get_recommendations e req))"
  proof (cases "reaches_store e req sid")
    case False
    then show ?thesis by (simp add: get_recommendations_not_reached [OF assms(1)])
  next
    case True
    from get_recommendations_cases [OF True assms(2)] show ?thesis
    proof
      assume "recommended_uris (get_recommendations e req) = []"
      then show ?thesis by simp
    next
      assume eq: "get_recommendations e req =
           choose_recommendations e (requested_limit req) (seed_features e sid) (seen_rows e sid)"
      show ?thesis
      proof
        assume "spotify_uri r \<in> set (recommended_uris (get_recommendations e req))"
        then have "spotify_uri r \<in> set (recommended_uris
          (choose_recommendations e (requested_limit req) (seed_features e sid) (seen_rows e sid)))"
          by (simp only: eq)
        from choose_recommendations_excludes [OF this] seen show False by simp
      qed
    qed
  qed
qed



section \<open>The example recommendation, step by step\<close>


lemma clean_A: "trim (toLowerCase ''A'') = ''a''"
  by code_simp

lemma radio_reaches: "reaches_store radio_env radio_request ''s''"
  by (simp add: reaches_store_def truthy_def radio_env_def radio_request_def)

lemma radio_played_rows:
  "played_rows radio_env ''s'' =
     [\<lparr> row_id = ''10'', session_id = ''s'', spotify_uri = ''u1'', song_title = ''A'',
         song_artist = ''a'', pos = None, status = ''played'', played_at = Some 100 \<rparr>]"
  by (simp add: played_rows_def radio_env_def queued_def Let_def)

lemma radio_seeds: "seed_features radio_env ''s'' = [vec 3]"
  by (simp add: seed_features_def radio_played_rows map_filter_def
        getFeaturesFromPopularSongs_def clean_A)
     (simp add: radio_env_def found_def first_features_def vec_def)

lemma radio_seen: "map spotify_uri (seen_rows radio_env ''s'') = [''u1'', ''u2'']"
  by (simp add: seen_rows_def radio_env_def queued_def)

lemma seed_centroid: "computeCentroid [vec 3] = vec 3"
  by (simp add: computeCentroid_single number_features_vec is_double_numeral)

lemma seed_weights: "computeDynamicWeights [vec 3] None = unit_weights"
  by (simp add: computeDynamicWeights_few)

lemma score_candidate_example:
  "score_candidate (vec 3) unit_weights (candidate i u 3) =
     \<lparr> tempo = Fin 3, energy = Fin 0, danceability = Fin 0, valence = Fin 0,
       ranked_id = i, ranked_track_name = ''a'', ranked_artists = ''Unknown'',
       ranked_uri = u, ranked_distance = Fin 0 \<rparr>"
  "score_candidate (vec 3) unit_weights (candidate i u 1) =
     \<lparr> tempo = Fin 1, energy = Fin 0, danceability = Fin 0, valence = Fin 0,
       ranked_id = i, ranked_track_name = ''a'', ranked_artists = ''Unknown'',
       ranked_uri = u, ranked_distance = Fin 2 \<rparr>"
  using party_distances
  by (simp_all add: score_candidate_def candidate_def Let_def vec_def)

lemma compare_distance_key:
  assumes "\<forall>x\<in>set xs. \<exists>a. ranked_distance x = Fin a \<and> on_grid a"
  shows "array_sort engine compare_distance xs =
         sort_key (\<lambda>r. the_real (ranked_distance r)) xs"
proof (rule array_sort_by_key)
  fix x y
  assume "x \<in> set xs" "y \<in> set xs"
  with assms obtain a b where a: "ranked_distance x = Fin a" "on_grid a"
    and b: "ranked_distance y = Fin b" "on_grid b" by blast
  from round_double_sign [OF a(2) b(2)] round_double_not_NaN [of "a - b"]
  show "compare_distance x y \<noteq> NaN"
    and "js_lt (Fin 0) (compare_distance x y) \<longleftrightarrow>
         the_real (ranked_distance y) < the_real (ranked_distance x)"
    and "js_lt (compare_distance x y) (Fin 0) \<longleftrightarrow>
         the_real (ranked_distance x) < the_real (ranked_distance y)"
    and "compare_distance x y = Fin 0 \<longleftrightarrow>
         the_real (ranked_distance x) = the_real (ranked_distance y)"
    by (simp_all add: compare_distance_def a b)
qed

lemma on_grid_numeral: "(numeral k :: int) < 2 ^ 53 \<Longrightarrow> on_grid (numeral k)"
  by (rule is_double_on_grid) (rule is_double_numeral)

lemma on_grid_0: "on_grid 0"
  by (rule is_double_on_grid) (rule is_double_small)

lemma candidate_uri_example: "candidate_uri (candidate i u t) = u"
  by (simp add: candidate_def)

lemma radio_ranked:
  "array_sort engine compare_distance
     (score_candidates (set [''u1'', ''u2'']) (vec 3) unit_weights
        (take 1000 (popular_songs radio_env))) =
   [score_candidate (vec 3) unit_weights (candidate ''c4'' ''u4'' 3),
    score_candidate (vec 3) unit_weights (candidate ''c3'' ''u3'' 1)]"
proof -
  have s: "score_candidates (set [''u1'', ''u2'']) (vec 3) unit_weights
        (take 1000 (popular_songs radio_env)) =
     [score_candidate (vec 3) unit_weights (candidate ''c3'' ''u3'' 1),
      score_candidate (vec 3) unit_weights (candidate ''c4'' ''u4'' 3)]"
    by (simp add: radio_env_def score_candidates_def candidate_uri_example)
  show ?thesis
    unfolding s
    by (subst compare_distance_key)
       (simp_all add: score_candidate_example on_grid_numeral on_grid_0)
qed

lemma radio_unfiltered:
  "array_sort engine compare_distance
     (score_candidates (set []) (vec 3) unit_weights
        (take 1000 (popular_songs radio_env))) =
   [score_candidate (vec 3) unit_weights (candidate ''c1'' ''u1'' 3),
    score_candidate (vec 3) unit_weights (candidate ''c2'' ''u2'' 3),
    score_candidate (vec 3) unit_weights (candidate ''c4'' ''u4'' 3),
    score_candidate (vec 3) unit_weights (candidate ''c3'' ''u3'' 1)]"
proof -
  have s: "score_candidates (set []) (vec 3) unit_weights
        (take 1000 (popular_songs radio_env)) =
     [score_candidate (vec 3) unit_weights (candidate ''c1'' ''u1'' 3),
      score_candidate (vec 3) unit_weights (candidate ''c2'' ''u2'' 3),
      score_candidate (vec 3) unit_weights (candidate ''c3'' ''u3'' 1),
      score_candidate (vec 3) unit_weights (candidate ''c4'' ''u4'' 3)]"
    by (simp add: radio_env_def score_candidates_def)
  show ?thesis
    unfolding s
    by (subst compare_distance_key)
       (simp_all add: score_candidate_example on_grid_numeral on_grid_0)
qed




lemma radio_limit: "requested_limit radio_request = 5"
  by (simp add: requested_limit_def radio_request_def)

lemma radio_errors:
  "played_select_error radio_env = None" "exclusion_select_error radio_env = None"
  "candidates_select_error radio_env = None"
  by (simp_all add: radio_env_def)

lemma radio_choose:
  "choose_recommendations radio_env 5 [vec 3] (seen_rows radio_env ''s'') =
     \<lparr> http_status = 200,
       body = Json
         \<lparr> success = True, message = None, error_message = None,
           recommendations =
             Some [score_candidate (vec 3) unit_weights (candidate ''c4'' ''u4'' 3),
                   score_candidate (vec 3) unit_weights (candidate ''c3'' ''u3'' 1)],
           seed_songs_used = Some 1, total_candidates = Some 2 \<rparr> \<rparr>"
proof -
  have r: "[score_candidate (vec 3) unit_weights (candidate ''c4'' ''u4'' 3),
            score_candidate (vec 3) unit_weights (candidate ''c3'' ''u3'' 1)] =
     array_sort (engine_sort_recommendations radio_env) compare_distance
       (score_candidates (set (map spotify_uri (seen_rows radio_env ''s'')))
          (computeCentroid [vec 3]) (computeDynamicWeights [vec 3] None)
          (take 1000 (popular_songs radio_env)))"
    by (simp only: radio_seen seed_centroid seed_weights radio_ranked)
  have ne: "popular_songs radio_env \<noteq> []" by (simp add: radio_env_def)
  show ?thesis
    by (simp add: choose_recommendations_ok [OF radio_errors(3) r] ne slice0_def)
qed

lemma radio_response:
  "get_recommendations radio_env radio_request =
     \<lparr> http_status = 200,
       body = Json
         \<lparr> success = True, message = None, error_message = None,
           recommendations =
             Some [score_candidate (vec 3) unit_weights (candidate ''c4'' ''u4'' 3),
                   score_candidate (vec 3) unit_weights (candidate ''c3'' ''u3'' 1)],
           seed_songs_used = Some 1, total_candidates = Some 2 \<rparr> \<rparr>"
  by (simp add: get_recommendations_reached [OF radio_reaches] radio_errors radio_played_rows
        radio_seeds radio_limit radio_choose)

lemma radio_uris: "recommended_uris (get_recommendations radio_env radio_request) = [''u4'', ''u3'']"
  by (simp add: radio_response recommended_uris_def score_candidate_example)

theorem recommend_excludes_seen_witness:
  "req_session_id radio_request = Some ''s'' \<and>
   exclusion_select_error radio_env = None \<and>
   map (\<lambda>r. (session_id r, status r, spotify_uri r)) (queue radio_env) =
     [(''s'', ''played'', ''u1''), (''s'', ''queued'', ''u2'')] \<and>
   map candidate_uri (popular_songs radio_env) = [''u1'', ''u2'', ''u3'', ''u4''] \<and>
   recommended_uris (get_recommendations radio_env radio_request) = [''u4'', ''u3''] \<and>
   ''u1'' \<notin> set (recommended_uris (get_recommendations radio_env radio_request)) \<and>
   ''u2'' \<notin> set (recommended_uris (get_recommendations radio_env radio_request))"
proof -
  have s: "req_session_id radio_request = Some ''s''" by (simp add: radio_request_def)
  have q: "map (\<lambda>r. (session_id r, status r, spotify_uri r)) (queue radio_env) =
     [(''s'', ''played'', ''u1''), (''s'', ''queued'', ''u2'')]"
    by (simp add: radio_env_def queued_def)
  have c: "map candidate_uri (popular_songs radio_env) = [''u1'', ''u2'', ''u3'', ''u4'']"
    by (simp add: radio_env_def candidate_def)
  have all: "\<forall>r\<in>set (queue radio_env).
      session_id r = ''s'' \<and> (status r = ''queued'' \<or> status r = ''played'')"
    by (simp add: radio_env_def queued_def)
  from recommend_excludes_seen [OF s radio_errors(2)] all
  have "\<forall>r\<in>set (queue radio_env).
      spotify_uri r \<notin> set (recommended_uris (get_recommendations radio_env radio_request))"
    by blast
  then have "list_all (\<lambda>r. spotify_uri r \<notin>
      set (recommended_uris (get_recommendations radio_env radio_request))) (queue radio_env)"
    by (simp only: list_all_iff)
  then have
    "''u1'' \<notin> set (recommended_uris (get_recommendations radio_env radio_request))"
    "''u2'' \<notin> set (recommended_uris (get_recommendations radio_env radio_request))"
    by (simp_all add: radio_env_def queued_def)
  with s radio_errors(2) q c radio_uris show ?thesis by blast
qed




section \<open>No played songs, and failed reads\<close>


lemma no_played_rows:
  assumes "\<forall>r\<in>set (queue e). session_id r = sid \<longrightarrow> status r \<noteq> ''played''"
  shows "played_rows e sid = []"
proof -
  have "filter (\<lambda>r. session_id r = sid \<and> status r = ''played'') (queue e) = []"
    using assms by (simp add: filter_empty_conv)
  then show ?thesis by (simp add: played_rows_def)
qed

text \<open>
  C8: for a request that reaches the store, when the read of the played songs answers
  and the session has no played row, \<^verbatim>\<open>get-recommendations\<close> answers with status 200,
  the message \<^verbatim>\<open>No played songs yet. Play some songs first!\<close>, no \<^verbatim>\<open>error\<close> key and no
  recommendations; this is not the answer of the \<^verbatim>\<open>catch\<close> block (status 500 with an
  \<^verbatim>\<open>error\<close> key). The flag \<^verbatim>\<open>success\<close> of this answer is \<^verbatim>\<open>false\<close>.
\<close>

theorem recommend_no_played:
  assumes "reaches_store e req sid" "played_select_error e = None"
    "\<forall>r\<in>set (queue e). session_id r = sid \<longrightarrow> status r \<noteq> ''played''"
  shows "get_recommendations e req =
     \<lparr> http_status = 200,
       body = Json \<lparr> success = False,
                     message = Some ''No played songs yet. Play some songs first!'',
                     error_message = None, recommendations = None,
                     seed_songs_used = None, total_candidates = None \<rparr> \<rparr>"
  by (simp add: get_recommendations_reached [OF assms(1)] assms(2) no_played_rows [OF assms(3)]
        recommend_message_def)

theorem recommend_no_played_witness:
  "reaches_store party_env party_request ''s'' \<and>
   played_select_error party_env = None \<and>
   map status (queue party_env) = replicate 7 ''queued'' \<and>
   http_status (get_recommendations party_env party_request) = 200 \<and>
   body (get_recommendations party_env party_request) =
     Json \<lparr> success = False, message = Some ''No played songs yet. Play some songs first!'',
            error_message = None, recommendations = None,
            seed_songs_used = None, total_candidates = None \<rparr> \<and>
   recommended_uris (get_recommendations party_env party_request) = []"
proof -
  have r: "reaches_store party_env party_request ''s''"
    by (simp add: reaches_store_def truthy_def party_env_def party_request_def)
  have p: "played_select_error party_env = None" by (simp add: party_env_def)
  have m: "map status (queue party_env) = replicate 7 ''queued''"
    by (simp add: party_env_def queued_def numeral_nat)
  have q: "\<forall>r\<in>set (queue party_env). status r = ''queued''"
    by (simp add: party_env_def queued_def)
  then have n: "\<forall>r\<in>set (queue party_env). session_id r = ''s'' \<longrightarrow> status r \<noteq> ''played''"
    by simp
  note t = recommend_no_played [OF r p n]
  have "http_status (get_recommendations party_env party_request) = 200"
    by (simp add: t)
  moreover have "body (get_recommendations party_env party_request) =
     Json \<lparr> success = False, message = Some ''No played songs yet. Play some songs first!'',
            error_message = None, recommendations = None,
            seed_songs_used = None, total_candidates = None \<rparr>"
    by (simp add: t)
  moreover have "recommended_uris (get_recommendations party_env party_request) = []"
    by (simp add: t recommended_uris_def)
  ultimately show ?thesis using r p m by blast
qed

text \<open>
  C9, amended: a failed read of the queue in \<^verbatim>\<open>rank-queue\<close>, and a failed read of the
  played songs or of the candidates in \<^verbatim>\<open>get-recommendations\<close>, end the call with
  status 500, \<^verbatim>\<open>success: false\<close> and the error message, and no position is written. A
  failed read of the session's queued and played rows does not end the call: it goes on
  as it would with no such rows, that is, with an empty exclusion set.
\<close>

theorem read_failures:
  "(reaches_store e req sid \<and> queue_select_error e = Some msg \<longrightarrow>
      rank_queue e req =
        \<lparr> response =
            \<lparr> http_status = 500,
              body = Json \<lparr> success = False, message = None,
                            error_message = Some (''Failed to fetch queue: '' @ msg),
                            report = None \<rparr> \<rparr>,
          updatePromises = [], queue_after = queue e \<rparr>) \<and>
   (reaches_store e req sid \<and> played_select_error e = Some msg \<longrightarrow>
      get_recommendations e req =
        \<lparr> http_status = 500,
          body = Json \<lparr> success = False, message = None,
                        error_message = Some (''Failed to fetch played songs: '' @ msg),
                        recommendations = None, seed_songs_used = None,
                        total_candidates = None \<rparr> \<rparr>) \<and>
   (reaches_store e req sid \<and> played_select_error e = None \<and> played_rows e sid \<noteq> [] \<and>
    seed_features e sid \<noteq> [] \<and> candidates_select_error e = Some msg \<longrightarrow>
      get_recommendations e req =
        \<lparr> http_status = 500,
          body = Json \<lparr> success = False, message = None,
                        error_message = Some (''Failed to fetch candidates: '' @ msg),
                        recommendations = None, seed_songs_used = None,
                        total_candidates = None \<rparr> \<rparr>) \<and>
   (reaches_store e req sid \<and> played_select_error e = None \<and> played_rows e sid \<noteq> [] \<and>
    seed_features e sid \<noteq> [] \<and> exclusion_select_error e = Some msg \<longrightarrow>
      get_recommendations e req =
        choose_recommendations e (requested_limit req) (seed_features e sid) [])"
proof (intro conjI impI)
  assume "reaches_store e req sid \<and> queue_select_error e = Some msg"
  then have r: "reaches_store e req sid" and q: "queue_select_error e = Some msg" by simp_all
  show "rank_queue e req =
        \<lparr> response =
            \<lparr> http_status = 500,
              body = Json \<lparr> success = False, message = None,
                            error_message = Some (''Failed to fetch queue: '' @ msg),
                            report = None \<rparr> \<rparr>,
          updatePromises = [], queue_after = queue e \<rparr>"
    by (simp add: rank_queue_reached [OF r] q rank_failure_def)
next
  assume "reaches_store e req sid \<and> played_select_error e = Some msg"
  then have r: "reaches_store e req sid" and q: "played_select_error e = Some msg" by simp_all
  show "get_recommendations e req =
        \<lparr> http_status = 500,
          body = Json \<lparr> success = False, message = None,
                        error_message = Some (''Failed to fetch played songs: '' @ msg),
                        recommendations = None, seed_songs_used = None,
                        total_candidates = None \<rparr> \<rparr>"
    by (simp add: get_recommendations_reached [OF r] q recommend_failure_def)
next
  assume a: "reaches_store e req sid \<and> played_select_error e = None \<and> played_rows e sid \<noteq> [] \<and>
    seed_features e sid \<noteq> [] \<and> candidates_select_error e = Some msg"
  then have r: "reaches_store e req sid" by simp
  from a have "get_recommendations e req =
      choose_recommendations e (requested_limit req) (seed_features e sid)
        (case exclusion_select_error e of None \<Rightarrow> seen_rows e sid | Some msg \<Rightarrow> [])"
    by (simp add: get_recommendations_reached [OF r])
  with a show "get_recommendations e req =
        \<lparr> http_status = 500,
          body = Json \<lparr> success = False, message = None,
                        error_message = Some (''Failed to fetch candidates: '' @ msg),
                        recommendations = None, seed_songs_used = None,
                        total_candidates = None \<rparr> \<rparr>"
    by (simp add: choose_recommendations_failed recommend_failure_def)
next
  assume a: "reaches_store e req sid \<and> played_select_error e = None \<and> played_rows e sid \<noteq> [] \<and>
    seed_features e sid \<noteq> [] \<and> exclusion_select_error e = Some msg"
  then have r: "reaches_store e req sid" by simp
  from a show "get_recommendations e req =
        choose_recommendations e (requested_limit req) (seed_features e sid) []"
    by (simp add: get_recommendations_reached [OF r])
qed


lemma no_exclusion_facts:
  "reaches_store no_exclusion_env radio_request ''s''"
  "played_select_error no_exclusion_env = None"
  "candidates_select_error no_exclusion_env = None"
  "exclusion_select_error no_exclusion_env = Some ''down''"
  "popular_songs no_exclusion_env = popular_songs radio_env"
  "played_rows no_exclusion_env ''s'' = played_rows radio_env ''s''"
  "seed_features no_exclusion_env ''s'' = seed_features radio_env ''s''"
  using radio_reaches
  by (simp_all add: no_exclusion_env_def reaches_store_def radio_errors played_rows_def
        seed_features_def getFeaturesFromPopularSongs_def)

lemma no_exclusion_choose:
  "choose_recommendations no_exclusion_env 5 [vec 3] [] =
     \<lparr> http_status = 200,
       body = Json
         \<lparr> success = True, message = None, error_message = None,
           recommendations =
             Some [score_candidate (vec 3) unit_weights (candidate ''c1'' ''u1'' 3),
                   score_candidate (vec 3) unit_weights (candidate ''c2'' ''u2'' 3),
                   score_candidate (vec 3) unit_weights (candidate ''c4'' ''u4'' 3),
                   score_candidate (vec 3) unit_weights (candidate ''c3'' ''u3'' 1)],
           seed_songs_used = Some 1, total_candidates = Some 4 \<rparr> \<rparr>"
proof -
  have r: "[score_candidate (vec 3) unit_weights (candidate ''c1'' ''u1'' 3),
            score_candidate (vec 3) unit_weights (candidate ''c2'' ''u2'' 3),
            score_candidate (vec 3) unit_weights (candidate ''c4'' ''u4'' 3),
            score_candidate (vec 3) unit_weights (candidate ''c3'' ''u3'' 1)] =
     array_sort (engine_sort_recommendations no_exclusion_env) compare_distance
       (score_candidates (set (map spotify_uri [])) (computeCentroid [vec 3])
          (computeDynamicWeights [vec 3] None) (take 1000 (popular_songs no_exclusion_env)))"
    by (simp only: list.map seed_centroid seed_weights radio_unfiltered no_exclusion_facts(5))
  have ne: "popular_songs no_exclusion_env \<noteq> []"
    by (simp add: no_exclusion_facts(5)) (simp add: radio_env_def)
  show ?thesis
    by (simp add: choose_recommendations_ok [OF no_exclusion_facts(3) r] ne slice0_def)
qed

text \<open>
  C9, as stated, fails on the code: the read of the session's queued and played rows
  fails, and \<^verbatim>\<open>get-recommendations\<close> answers with status 200 and four recommendations,
  among them the URIs \<open>u1\<close> and \<open>u2\<close> of the session's played and queued rows.
\<close>

theorem exclusion_failure_counterexample:
  "exclusion_select_error no_exclusion_env = Some ''down'' \<and>
   map (\<lambda>r. (session_id r, status r, spotify_uri r)) (queue no_exclusion_env) =
     [(''s'', ''played'', ''u1''), (''s'', ''queued'', ''u2'')] \<and>
   http_status (get_recommendations no_exclusion_env radio_request) = 200 \<and>
   body (get_recommendations no_exclusion_env radio_request) =
     Json
       \<lparr> success = True, message = None, error_message = None,
         recommendations =
           Some [score_candidate (vec 3) unit_weights (candidate ''c1'' ''u1'' 3),
                 score_candidate (vec 3) unit_weights (candidate ''c2'' ''u2'' 3),
                 score_candidate (vec 3) unit_weights (candidate ''c4'' ''u4'' 3),
                 score_candidate (vec 3) unit_weights (candidate ''c3'' ''u3'' 1)],
         seed_songs_used = Some 1, total_candidates = Some 4 \<rparr> \<and>
   recommended_uris (get_recommendations no_exclusion_env radio_request) =
     [''u1'', ''u2'', ''u4'', ''u3'']"
proof -
  have g: "get_recommendations no_exclusion_env radio_request =
             choose_recommendations no_exclusion_env 5 [vec 3] []"
    by (simp add: get_recommendations_reached [OF no_exclusion_facts(1)] no_exclusion_facts
          radio_played_rows radio_seeds radio_limit)
  have q: "map (\<lambda>r. (session_id r, status r, spotify_uri r)) (queue no_exclusion_env) =
     [(''s'', ''played'', ''u1''), (''s'', ''queued'', ''u2'')]"
    by (simp add: no_exclusion_env_def radio_env_def queued_def)
  show ?thesis
    by (simp add: g no_exclusion_choose no_exclusion_facts(4) q recommended_uris_def
          score_candidate_example)
qed

lemma no_queue_facts:
  "reaches_store no_queue_env party_request ''s''"
  "queue_select_error no_queue_env = Some ''down''"
  "queue no_queue_env = queue party_env"
  by (simp_all add: no_queue_env_def reaches_store_def truthy_def party_env_def
        party_request_def)

lemma no_played_facts:
  "reaches_store no_played_env radio_request ''s''"
  "played_select_error no_played_env = Some ''down''"
  using radio_reaches by (simp_all add: no_played_env_def reaches_store_def)

lemma no_candidates_facts:
  "reaches_store no_candidates_env radio_request ''s''"
  "played_select_error no_candidates_env = None"
  "candidates_select_error no_candidates_env = Some ''down''"
  "played_rows no_candidates_env ''s'' = played_rows radio_env ''s''"
  "seed_features no_candidates_env ''s'' = seed_features radio_env ''s''"
  using radio_reaches
  by (simp_all add: no_candidates_env_def reaches_store_def radio_errors played_rows_def
        seed_features_def getFeaturesFromPopularSongs_def)

theorem read_failures_witness:
  "rank_queue no_queue_env party_request =
     \<lparr> response =
         \<lparr> http_status = 500,
           body = Json \<lparr> success = False, message = None,
                         error_message = Some ''Failed to fetch queue: down'',
                         report = None \<rparr> \<rparr>,
       updatePromises = [], queue_after = queue party_env \<rparr> \<and>
   get_recommendations no_played_env radio_request =
     \<lparr> http_status = 500,
       body = Json \<lparr> success = False, message = None,
                     error_message = Some ''Failed to fetch played songs: down'',
                     recommendations = None, seed_songs_used = None,
                     total_candidates = None \<rparr> \<rparr> \<and>
   get_recommendations no_candidates_env radio_request =
     \<lparr> http_status = 500,
       body = Json \<lparr> success = False, message = None,
                     error_message = Some ''Failed to fetch candidates: down'',
                     recommendations = None, seed_songs_used = None,
                     total_candidates = None \<rparr> \<rparr> \<and>
   get_recommendations no_exclusion_env radio_request =
     choose_recommendations no_exclusion_env 5 [vec 3] []"
proof -
  have a: "rank_queue no_queue_env party_request =
     \<lparr> response =
         \<lparr> http_status = 500,
           body = Json \<lparr> success = False, message = None,
                         error_message = Some ''Failed to fetch queue: down'',
                         report = None \<rparr> \<rparr>,
       updatePromises = [], queue_after = queue party_env \<rparr>"
    using read_failures [of no_queue_env party_request "''s''" "''down''"]
    by (simp add: no_queue_facts)
  have b: "get_recommendations no_played_env radio_request =
     \<lparr> http_status = 500,
       body = Json \<lparr> success = False, message = None,
                     error_message = Some ''Failed to fetch played songs: down'',
                     recommendations = None, seed_songs_used = None,
                     total_candidates = None \<rparr> \<rparr>"
    using read_failures [of no_played_env radio_request "''s''" "''down''"]
    by (simp add: no_played_facts)
  have c: "get_recommendations no_candidates_env radio_request =
     \<lparr> http_status = 500,
       body = Json \<lparr> success = False, message = None,
                     error_message = Some ''Failed to fetch candidates: down'',
                     recommendations = None, seed_songs_used = None,
                     total_candidates = None \<rparr> \<rparr>"
    using read_failures [of no_candidates_env radio_request "''s''" "''down''"]
    by (simp add: no_candidates_facts radio_played_rows radio_seeds)
  have d: "get_recommendations no_exclusion_env radio_request =
     choose_recommendations no_exclusion_env 5 [vec 3] []"
    using read_failures [of no_exclusion_env radio_request "''s''" "''down''"]
    by (simp add: no_exclusion_facts radio_played_rows radio_seeds radio_limit)
  from a b c d show ?thesis by blast
qed




text \<open>
  C7, as stated, fails on the code: the session has a played row with the URI \<open>u1\<close>, the
  read of the session's queued and played rows fails, and the one recommendation that
  the request asks for is the candidate with the URI \<open>u1\<close>.
\<close>

theorem recommend_seen_counterexample:
  "req_session_id single_request = Some ''s'' \<and>
   exclusion_select_error no_exclusion_env = Some ''down'' \<and>
   map (\<lambda>r. (session_id r, status r, spotify_uri r)) (queue no_exclusion_env) =
     [(''s'', ''played'', ''u1''), (''s'', ''queued'', ''u2'')] \<and>
   http_status (get_recommendations no_exclusion_env single_request) = 200 \<and>
   recommended_uris (get_recommendations no_exclusion_env single_request) = [''u1'']"
proof -
  have s: "req_session_id single_request = Some ''s''"
    "requested_limit single_request = 1"
    "reaches_store no_exclusion_env single_request ''s''"
    using no_exclusion_facts(1)
    by (simp_all add: single_request_def radio_request_def requested_limit_def
          reaches_store_def)
  have g: "get_recommendations no_exclusion_env single_request =
             choose_recommendations no_exclusion_env 1 [vec 3] []"
    by (simp add: get_recommendations_reached [OF s(3)] no_exclusion_facts
          radio_played_rows radio_seeds s(2))
  have r: "[score_candidate (vec 3) unit_weights (candidate ''c1'' ''u1'' 3),
            score_candidate (vec 3) unit_weights (candidate ''c2'' ''u2'' 3),
            score_candidate (vec 3) unit_weights (candidate ''c4'' ''u4'' 3),
            score_candidate (vec 3) unit_weights (candidate ''c3'' ''u3'' 1)] =
     array_sort (engine_sort_recommendations no_exclusion_env) compare_distance
       (score_candidates (set (map spotify_uri [])) (computeCentroid [vec 3])
          (computeDynamicWeights [vec 3] None) (take 1000 (popular_songs no_exclusion_env)))"
    by (simp only: list.map seed_centroid seed_weights radio_unfiltered no_exclusion_facts(5))
  have ne: "popular_songs no_exclusion_env \<noteq> []"
    by (simp add: no_exclusion_facts(5)) (simp add: radio_env_def)
  have c: "choose_recommendations no_exclusion_env 1 [vec 3] [] =
     \<lparr> http_status = 200,
       body = Json
         \<lparr> success = True, message = None, error_message = None,
           recommendations =
             Some [score_candidate (vec 3) unit_weights (candidate ''c1'' ''u1'' 3)],
           seed_songs_used = Some 1, total_candidates = Some 4 \<rparr> \<rparr>"
    by (simp add: choose_recommendations_ok [OF no_exclusion_facts(3) r] ne slice0_def)
  have q: "map (\<lambda>r. (session_id r, status r, spotify_uri r)) (queue no_exclusion_env) =
     [(''s'', ''played'', ''u1''), (''s'', ''queued'', ''u2'')]"
    by (simp add: no_exclusion_env_def radio_env_def queued_def)
  show ?thesis
    by (simp add: g c s(1) no_exclusion_facts(4) q recommended_uris_def
          score_candidate_example)
qed

end
